(* ===== verification/Zccp_Prelude.thy ===== *)
theory Zccp_Prelude
  imports Main "HOL-Library.Word" "HOL-Library.Monad_Syntax"
begin

text \<open>
  Shared vocabulary of the development.

  \<^item> The octets, C strings, frames and multipart messages that the code handles.
  \<^item> The ways in which the code can leave the defined behaviour of C, or stop on a failed
    assertion, as the values of the type \<open>fault\<close>, and the result type of a computation that may
    do so.
  \<^item> The generic lemmas on results, options and lists used by the components, and the two fact
    collections \<open>result_simps\<close> and \<open>list_facts\<close>.
\<close>

unbundle bit_operations_syntax

named_theorems result_simps \<open>evaluation and inversion of results\<close>
named_theorems list_facts \<open>facts on lists shared by the components\<close>

section \<open>Octets, strings, frames\<close>

type_synonym byte = "8 word"

text \<open>
  A C string is the list of its characters up to the terminating zero octet; \<open>strlen\<close> is the
  length of that list.  A CZMQ frame is the list of its octets, and a CZMQ multipart message is
  the list of its frames, first frame first.
\<close>

type_synonym cstr = "byte list"
type_synonym frame = "byte list"
type_synonym zmsg = "frame list"

definition lit :: "string \<Rightarrow> cstr" where
  "lit s = map of_char s"

definition c_string :: "byte list \<Rightarrow> cstr" where
  "c_string bs = takeWhile (\<lambda>b. b \<noteq> 0) bs"

definition wf_cstr :: "cstr \<Rightarrow> bool" where
  "wf_cstr s \<longleftrightarrow> 0 \<notin> set s"

lemma wf_cstr_Nil [simp]: "wf_cstr []"
  by (simp add: wf_cstr_def)

lemma wf_c_string [simp, intro]: "wf_cstr (c_string bs)"
  by (auto simp: wf_cstr_def c_string_def dest: set_takeWhileD)

lemma c_string_wf: "wf_cstr s \<Longrightarrow> c_string s = s"
  by (auto simp: wf_cstr_def c_string_def takeWhile_eq_all_conv)

lemma length_c_string_le [simp]: "length (c_string bs) \<le> length bs"
  by (simp add: c_string_def length_takeWhile_le)

section \<open>Results\<close>

datatype fault =
    Assertion_failed     \<comment> \<open>a failed \<open>assert\<close>\<close>
  | Frame_overrun        \<comment> \<open>a write past the end of an allocated frame\<close>
  | Format_undefined     \<comment> \<open>a conversion directive without its argument in a format string\<close>
  | Null_pointer         \<comment> \<open>a null pointer handed to code that dereferences it\<close>
  | Use_after_free       \<comment> \<open>an access to an object that is no longer allocated\<close>
  | Name_table_overrun   \<comment> \<open>a name table read outside its bounds\<close>
  | List_changed         \<comment> \<open>a list changed while the caller still traverses it\<close>
  | Uninitialised        \<comment> \<open>an automatic variable read before it is assigned\<close>
  | Blocked              \<comment> \<open>a read that waits for a message nobody has sent yet\<close>
  | Fuel_exhausted       \<comment> \<open>the model ran out of fuel; no behaviour of the code\<close>

type_synonym 'a result = "fault + 'a"

definition rbind :: "'a result \<Rightarrow> ('a \<Rightarrow> 'b result) \<Rightarrow> 'b result" where
  "rbind m f = (case m of Inl e \<Rightarrow> Inl e | Inr x \<Rightarrow> f x)"

definition of_option :: "fault \<Rightarrow> 'a option \<Rightarrow> 'a result" where
  "of_option e m = (case m of None \<Rightarrow> Inl e | Some x \<Rightarrow> Inr x)"

lemma rbind_simps [simp, result_simps]:
  "rbind (Inl e) f = Inl e"
  "rbind (Inr x) f = f x"
  by (simp_all add: rbind_def)

lemma rbind_Inr_iff [result_simps]:
  "rbind m f = Inr y \<longleftrightarrow> (\<exists>x. m = Inr x \<and> f x = Inr y)"
  by (cases m) auto

lemma rbind_Inl_iff:
  "rbind m f = Inl e \<longleftrightarrow> m = Inl e \<or> (\<exists>x. m = Inr x \<and> f x = Inl e)"
  by (cases m) auto

lemma rbind_assoc: "rbind (rbind m f) g = rbind m (\<lambda>x. rbind (f x) g)"
  by (cases m) auto

lemma rbind_cong [fundef_cong]:
  "m = m' \<Longrightarrow> (\<And>x. m' = Inr x \<Longrightarrow> f x = g x) \<Longrightarrow> rbind m f = rbind m' g"
  by (cases m') auto

lemma of_option_simps [simp, result_simps]:
  "of_option e None = Inl e"
  "of_option e (Some x) = Inr x"
  by (simp_all add: of_option_def)

lemma of_option_Inr_iff [result_simps]: "of_option e m = Inr x \<longleftrightarrow> m = Some x"
  by (cases m) auto

section \<open>Lists\<close>

lemma remove1_subset: "set (remove1 x xs) \<subseteq> set xs"
  by (rule set_remove1_subset)

lemma distinct_remove1_notin [list_facts]: "distinct xs \<Longrightarrow> x \<notin> set (remove1 x xs)"
  by simp

lemma sum_list_nat_le_mono [list_facts]:
  "(\<And>x. x \<in> set xs \<Longrightarrow> f x \<le> (g x :: nat)) \<Longrightarrow> sum_list (map f xs) \<le> sum_list (map g xs)"
  by (induction xs) (auto intro: add_mono)

lemma length_concat_map [list_facts]:
  "length (concat (map f xs)) = sum_list (map (\<lambda>x. length (f x)) xs)"
  by (induction xs) auto

end
