(* ===== verification/Czmq.thy ===== *)
theory Czmq
  imports Zccp_Prelude "HOL-Library.AList"
begin

text \<open>
  The CZMQ library is not part of this repository.  Its value types are represented by the values
  they hold (a frame is a list of octets, a message a list of frames, a list a HOL list); every
  operation whose result the code does not determine itself is a parameter of the model.

  \<^item> \<open>zhash_ops\<close> are the operations of \<open>zhash_t\<close> on string keys and string items that the message
    class calls.  The order in which \<open>zhash_first\<close>/\<open>zhash_next\<close> visit the items is part of the
    parameter (\<open>zh_items\<close>), since it decides the order of the fields on the wire.
  \<^item> \<open>czmq\<close> collects everything else: the contents of a freshly allocated frame, the formatter
    \<open>zsys_vprintf\<close> (applied without arguments, as all the callers do), the regular expressions
    (\<open>zrex_t\<close>), the hexadecimal name of a frame and the identifiers handed out for timers.

  The locales \<open>zhash_api\<close> and \<open>czmq_api\<close> state the documented behaviour that the code relies on;
  their predicates are the hypotheses of the theorems that need it.  The last section gives a
  concrete library that satisfies them, on which the witnesses run.
\<close>

section \<open>Dictionaries\<close>

record 'h zhash_ops =
  zh_new :: 'h                                        \<comment> \<open>\<open>zhash_new\<close>, with \<open>zhash_autofree\<close>\<close>
  zh_insert :: "'h \<Rightarrow> cstr \<Rightarrow> cstr \<Rightarrow> 'h"            \<comment> \<open>\<open>zhash_insert\<close>: no effect on a known key\<close>
  zh_update :: "'h \<Rightarrow> cstr \<Rightarrow> cstr \<Rightarrow> 'h"            \<comment> \<open>\<open>zhash_update\<close>: replaces the item\<close>
  zh_lookup :: "'h \<Rightarrow> cstr \<Rightarrow> cstr option"           \<comment> \<open>\<open>zhash_lookup\<close>\<close>
  zh_items :: "'h \<Rightarrow> (cstr \<times> cstr) list"             \<comment> \<open>what \<open>zhash_first\<close>/\<open>zhash_next\<close> visit\<close>
  zh_size :: "'h \<Rightarrow> nat"                             \<comment> \<open>\<open>zhash_size\<close>\<close>
  zh_dup :: "'h \<Rightarrow> 'h"                               \<comment> \<open>\<open>zhash_dup\<close>\<close>

locale zhash_api =
  fixes H :: "'h zhash_ops"
  assumes lookup_new: "zh_lookup H (zh_new H) = Map.empty"
    and lookup_insert: "zh_lookup H (zh_insert H h k v) =
          (if zh_lookup H h k = None then (zh_lookup H h)(k \<mapsto> v) else zh_lookup H h)"
    and lookup_update: "zh_lookup H (zh_update H h k v) = (zh_lookup H h)(k \<mapsto> v)"
    and items_lookup: "map_of (zh_items H h) = zh_lookup H h"
    and items_distinct: "distinct (map fst (zh_items H h))"
    and size_items: "zh_size H h = length (zh_items H h)"
    and lookup_dup: "zh_lookup H (zh_dup H h) = zh_lookup H h"
begin

text \<open>The items of a dictionary are exactly its key/item pairs.\<close>

lemma items_iff: "(k, v) \<in> set (zh_items H h) \<longleftrightarrow> zh_lookup H h k = Some v"
  by (metis items_distinct items_lookup map_of_eq_Some_iff)

lemma size_card: "zh_size H h = card (dom (zh_lookup H h))"
proof -
  have "dom (zh_lookup H h) = set (map fst (zh_items H h))"
    by (simp add: items_lookup [symmetric] dom_map_of_conv_image_fst)
  then have "card (dom (zh_lookup H h)) = length (map fst (zh_items H h))"
    by (simp only: distinct_card [OF items_distinct])
  then show ?thesis by (simp add: size_items)
qed

text \<open>
  Inserting a list of entries one after the other keeps the first entry of every key, which is how
  \<open>map_of\<close> reads an association list; entries already in the dictionary win.
\<close>

lemma lookup_insert_all:
  "zh_lookup H (foldl (\<lambda>h (k, v). zh_insert H h k v) h es) = map_of es ++ zh_lookup H h"
proof (induction es arbitrary: h)
  case Nil
  show ?case by simp
next
  case (Cons e es)
  obtain k v where e: "e = (k, v)" by (cases e)
  have "map_of es ++ zh_lookup H (zh_insert H h k v) = map_of ((k, v) # es) ++ zh_lookup H h"
    by (auto simp: lookup_insert map_add_def fun_eq_iff split: option.split)
  then show ?case by (simp add: e Cons.IH fun_upd_def)
qed

lemma lookup_insert_all_new:
  "zh_lookup H (foldl (\<lambda>h (k, v). zh_insert H h k v) (zh_new H) es) = map_of es"
  by (simp add: lookup_insert_all lookup_new)

lemma size_insert_all_new:
  "zh_size H (foldl (\<lambda>h (k, v). zh_insert H h k v) (zh_new H) es) \<le> length es"
proof -
  have "card (dom (map_of es)) \<le> length (map fst es)"
    by (metis card_length dom_map_of_conv_image_fst list.set_map)
  then show ?thesis by (simp add: size_card lookup_insert_all_new)
qed

lemma items_insert_all_new:
  "(k, v) \<in> set (zh_items H (foldl (\<lambda>h (k, v). zh_insert H h k v) (zh_new H) es))
     \<Longrightarrow> (k, v) \<in> set es"
  by (simp add: items_iff lookup_insert_all_new map_of_SomeD)

lemma size_dup: "zh_size H (zh_dup H h) = zh_size H h"
  by (simp add: size_card lookup_dup)

lemma items_dup: "set (zh_items H (zh_dup H h)) = set (zh_items H h)"
  by (auto simp: items_iff lookup_dup)

end

section \<open>The rest of the library\<close>

record ('h, 'r) czmq =
  hash :: "'h zhash_ops"
  fill :: "nat \<Rightarrow> byte"                  \<comment> \<open>octets of a frame allocated by \<open>zframe_new (NULL, n)\<close>\<close>
  vprintf :: "cstr \<Rightarrow> cstr option"       \<comment> \<open>\<open>zsys_vprintf\<close> of a format without arguments\<close>
  rex_new :: "cstr \<Rightarrow> 'r"                \<comment> \<open>\<open>zrex_new\<close>\<close>
  rex_matches :: "'r \<Rightarrow> cstr \<Rightarrow> bool"    \<comment> \<open>\<open>zrex_matches\<close>\<close>
  strhex :: "frame \<Rightarrow> cstr"              \<comment> \<open>\<open>zframe_strhex\<close>\<close>
  timer_id :: "int list \<Rightarrow> int"          \<comment> \<open>what \<open>zloop_timer\<close> returns, given the timers in use\<close>

text \<open>
  \<open>zsys_vprintf\<close> yields \<open>None\<close> where the C standard leaves the behaviour open: a conversion
  directive that has no argument.  A format without a percent sign prints as itself; where the
  behaviour is defined without arguments, what is printed are characters of the format.
\<close>

abbreviation percent :: byte where
  "percent \<equiv> 37"

locale czmq_api = zhash_api "hash Z" for Z :: "('h, 'r) czmq" +
  assumes vprintf_plain: "percent \<notin> set s \<Longrightarrow> vprintf Z s = Some s"
    and vprintf_shrinks: "vprintf Z s = Some t \<Longrightarrow> length t \<le> length s \<and> set t \<subseteq> set s"
    and strhex_inj: "inj (strhex Z)"
    and timer_id_fresh: "timer_id Z ids \<notin> set ids"
    and timer_id_pos: "0 < timer_id Z ids"
begin

lemma strhex_eq_iff: "strhex Z a = strhex Z b \<longleftrightarrow> a = b"
  using strhex_inj by (auto dest: injD)

end

text \<open>
  What the broker asks of its environment when it handles a command of its owner: \<open>zconfig_t\<close> and the
  files behind it, and the result of binding the socket.  The model makes no assumption on it.
\<close>

record 'c zenv =
  zc_new :: 'c                                         \<comment> \<open>\<open>zconfig_new ("root", NULL)\<close>\<close>
  zc_resolve :: "'c \<Rightarrow> cstr \<Rightarrow> cstr \<Rightarrow> cstr"              \<comment> \<open>\<open>zconfig_resolve\<close>, with the default value\<close>
  zc_put :: "'c \<Rightarrow> cstr \<Rightarrow> cstr option \<Rightarrow> 'c"           \<comment> \<open>\<open>zconfig_put\<close>\<close>
  zc_locate :: "'c \<Rightarrow> cstr \<Rightarrow> 'c option"               \<comment> \<open>\<open>zconfig_locate\<close>\<close>
  zc_children :: "'c \<Rightarrow> 'c list"                      \<comment> \<open>by \<open>zconfig_child\<close> and \<open>zconfig_next\<close>\<close>
  zc_name :: "'c \<Rightarrow> cstr"                              \<comment> \<open>\<open>zconfig_name\<close>\<close>
  zc_value :: "'c \<Rightarrow> cstr option"                      \<comment> \<open>\<open>zconfig_value\<close>\<close>
  zc_load :: "cstr \<Rightarrow> 'c option"                      \<comment> \<open>\<open>zconfig_load\<close>\<close>
  zc_has_changed :: "'c \<Rightarrow> bool"                      \<comment> \<open>\<open>zconfig_has_changed\<close>\<close>
  zc_reload :: "'c \<Rightarrow> 'c option"                      \<comment> \<open>\<open>zconfig_reload\<close>\<close>
  zs_bind :: "cstr list \<Rightarrow> cstr \<Rightarrow> int"               \<comment> \<open>\<open>zsock_bind\<close>: the port, or -1\<close>

section \<open>A concrete library\<close>

text \<open>
  Association lists as dictionaries, in insertion order.  \<open>clearjunk\<close> drops shadowed entries, so
  that the laws hold for every list.
\<close>

definition alist_insert :: "(cstr \<times> cstr) list \<Rightarrow> cstr \<Rightarrow> cstr \<Rightarrow> (cstr \<times> cstr) list" where
  "alist_insert h k v = (if map_of h k = None then h @ [(k, v)] else h)"

definition alist_zhash :: "(cstr \<times> cstr) list zhash_ops" where
  "alist_zhash = \<lparr> zh_new = [], zh_insert = alist_insert, zh_update = (\<lambda>h k v. AList.update k v h),
     zh_lookup = map_of, zh_items = AList.clearjunk, zh_size = (\<lambda>h. length (AList.clearjunk h)),
     zh_dup = (\<lambda>h. h) \<rparr>"

interpretation alist_hash: zhash_api alist_zhash
proof
  fix h :: "(cstr \<times> cstr) list" and k v
  show "zh_lookup alist_zhash (zh_new alist_zhash) = Map.empty"
    by (simp add: alist_zhash_def)
  show "zh_lookup alist_zhash (zh_insert alist_zhash h k v) =
          (if zh_lookup alist_zhash h k = None then (zh_lookup alist_zhash h)(k \<mapsto> v)
           else zh_lookup alist_zhash h)"
    by (auto simp: alist_zhash_def alist_insert_def map_add_def fun_eq_iff split: option.split)
  show "zh_lookup alist_zhash (zh_update alist_zhash h k v) = (zh_lookup alist_zhash h)(k \<mapsto> v)"
    by (simp add: alist_zhash_def update_conv')
  show "map_of (zh_items alist_zhash h) = zh_lookup alist_zhash h"
    by (simp add: alist_zhash_def map_of_clearjunk)
  show "distinct (map fst (zh_items alist_zhash h))"
    by (simp add: alist_zhash_def distinct_clearjunk)
  show "zh_size alist_zhash h = length (zh_items alist_zhash h)"
    by (simp add: alist_zhash_def)
  show "zh_lookup alist_zhash (zh_dup alist_zhash h) = zh_lookup alist_zhash h"
    by (simp add: alist_zhash_def)
qed

text \<open>
  A formatter that knows the two-character directive for a percent sign and leaves every other
  directive undefined, for lack of an argument.
\<close>

fun plain_vprintf :: "cstr \<Rightarrow> cstr option" where
  "plain_vprintf [] = Some []"
| "plain_vprintf [c] = (if c = percent then None else Some [c])"
| "plain_vprintf (c # d # s) =
     (if c \<noteq> percent then map_option ((#) c) (plain_vprintf (d # s))
      else if d = percent then map_option ((#) percent) (plain_vprintf s)
      else None)"

lemma plain_vprintf_plain: "percent \<notin> set s \<Longrightarrow> plain_vprintf s = Some s"
  by (induction s rule: plain_vprintf.induct) auto

lemma plain_vprintf_shrinks: "plain_vprintf s = Some t \<Longrightarrow> length t \<le> length s \<and> set t \<subseteq> set s"
proof (induction s arbitrary: t rule: plain_vprintf.induct)
  case (3 c d s)
  then show ?case
    by (cases "c = percent") (fastforce split: if_splits)+
qed (auto split: if_splits)

text \<open>Two hexadecimal digits for every octet, most significant first.\<close>

definition hex_digit :: "nat \<Rightarrow> byte" where
  "hex_digit n = (if n < 10 then of_nat (48 + n) else of_nat (55 + n))"

definition hex_byte :: "byte \<Rightarrow> byte list" where
  "hex_byte b = [hex_digit (unat b div 16), hex_digit (unat b mod 16)]"

definition hex_name :: "frame \<Rightarrow> cstr" where
  "hex_name f = concat (map hex_byte f)"

lemma unat_hex_digit: "n < 16 \<Longrightarrow> unat (hex_digit n) = (if n < 10 then 48 + n else 55 + n)"
  by (simp add: hex_digit_def unat_of_nat take_bit_eq_mod del: of_nat_add)

lemma hex_digit_inj:
  assumes "a < 16" and "b < 16" and "hex_digit a = hex_digit b"
  shows "a = b"
proof -
  have "unat (hex_digit a) = unat (hex_digit b)" using assms(3) by (rule arg_cong)
  then show ?thesis using assms(1,2) by (simp add: unat_hex_digit split: if_splits)
qed

lemma hex_byte_inj: "hex_byte a = hex_byte b \<Longrightarrow> a = b"
proof -
  assume eq: "hex_byte a = hex_byte b"
  have "unat a < 16 * 16" "unat b < 16 * 16" for a b :: byte
    using unsigned_less [of a] unsigned_less [of b] by simp_all
  then have "unat a div 16 < 16" "unat b div 16 < 16" by (simp_all add: less_mult_imp_div_less)
  then have "unat a div 16 = unat b div 16" "unat a mod 16 = unat b mod 16"
    using eq by (auto simp: hex_byte_def intro: hex_digit_inj)
  then have "unat a = unat b" by (metis div_mult_mod_eq)
  then show "a = b" by (rule word_unat_eq_iff [THEN iffD2])
qed

lemma hex_name_inj: "hex_name f = hex_name g \<Longrightarrow> f = g"
proof (induction f arbitrary: g)
  case Nil
  then show ?case by (cases g) (auto simp: hex_name_def hex_byte_def)
next
  case (Cons a f)
  from Cons.prems obtain b g' where g: "g = b # g'"
    by (cases g) (auto simp: hex_name_def hex_byte_def)
  from Cons.prems have "hex_byte a = hex_byte b" and "hex_name f = hex_name g'"
    by (auto simp: g hex_name_def hex_byte_def)
  then show ?case using Cons.IH hex_byte_inj by (simp add: g)
qed

text \<open>
  As regular expressions, strings that match the texts they are a prefix of.
\<close>

definition next_timer :: "int list \<Rightarrow> int" where
  "next_timer ids = 1 + foldr max ids 0"

lemma foldr_max_ge: "x \<in> set xs \<Longrightarrow> x \<le> foldr max xs (0::int)" and foldr_max_nonneg: "0 \<le> foldr max xs (0::int)"
  by (induction xs) auto

definition ref_czmq :: "((cstr \<times> cstr) list, cstr) czmq" where
  "ref_czmq = \<lparr> hash = alist_zhash, fill = (\<lambda>_. 0), vprintf = plain_vprintf, rex_new = (\<lambda>e. e),
     rex_matches = (\<lambda>e s. take (length e) s = e), strhex = hex_name, timer_id = next_timer \<rparr>"

interpretation ref_lib: czmq_api ref_czmq
proof -
  have H: "hash ref_czmq = alist_zhash" by (simp add: ref_czmq_def)
  have fresh: "next_timer ids \<notin> set ids" for ids
    using foldr_max_ge [of "next_timer ids" ids] by (auto simp: next_timer_def)
  have pos: "0 < next_timer ids" for ids
    using foldr_max_nonneg [of ids] by (simp add: next_timer_def)
  show "czmq_api ref_czmq"
    unfolding czmq_api_def czmq_api_axioms_def H
    by (auto simp: ref_czmq_def plain_vprintf_plain hex_name_inj fresh pos inj_def
        alist_hash.zhash_api_axioms dest: plain_vprintf_shrinks)
qed

end
