(* ===== verification/Wire.thy ===== *)
theory Wire
  imports Zccp_Prelude
begin

text \<open>
  The network data encoding macros of \<^verbatim>\<open>src/zccp_msg.c\<close> (lines 40 to 183).

  The \<open>PUT\<close> macros write at \<open>needle\<close> into a frame of fixed size (\<open>writer\<close>); a write past the end
  of the frame is \<open>None\<close>.  The \<open>GET\<close> macros read at \<open>needle\<close> below \<open>ceiling\<close> (\<open>reader\<close>); the jump to
  the label \<open>malformed\<close> is \<open>None\<close>.  The macros are polymorphic in the width of their argument, as
  the C macros are.

  The locale \<open>wire_field\<close> is the contract of a pair of macros: what a \<open>PUT\<close> appends is a fixed
  octet string, the \<open>GET\<close> reads it back, and never moves past the ceiling.  It is interpreted on
  every pair of macros.  Pairs and sequences of fields are fields again (\<open>wire_pair\<close>, \<open>put_all\<close>).
\<close>

section \<open>Frames under construction and frames being read\<close>

record writer =
  w_data :: "byte list"
  w_needle :: nat

record reader =
  r_data :: "byte list"
  r_needle :: nat
  r_ceiling :: nat

definition put_octets :: "byte list \<Rightarrow> writer \<Rightarrow> writer option" where
  "put_octets host w =
     (if w_needle w + length host \<le> length (w_data w) then
        Some (w\<lparr>w_data := take (w_needle w) (w_data w) @ host
                          @ drop (w_needle w + length host) (w_data w),
                w_needle := w_needle w + length host\<rparr>)
      else None)"

definition advance :: "nat \<Rightarrow> reader \<Rightarrow> reader" where
  "advance n r = r\<lparr>r_needle := r_needle r + n\<rparr>"

definition peek :: "reader \<Rightarrow> nat \<Rightarrow> byte" where
  "peek r i = r_data r ! (r_needle r + i)"

definition get_octets :: "nat \<Rightarrow> reader \<Rightarrow> (byte list \<times> reader) option" where
  "get_octets n r =
     (if r_needle r + n > r_ceiling r then None
      else Some (take n (drop (r_needle r) (r_data r)), advance n r))"

section \<open>Numbers\<close>

definition put_number1 :: "'a::len word \<Rightarrow> writer \<Rightarrow> writer option" where
  "put_number1 host = put_octets [ucast host]"

definition put_number2 :: "'a::len word \<Rightarrow> writer \<Rightarrow> writer option" where
  "put_number2 host = put_octets
     [ucast (drop_bit 8 host AND 255), ucast (host AND 255)]"

definition put_number4 :: "'a::len word \<Rightarrow> writer \<Rightarrow> writer option" where
  "put_number4 host = put_octets
     [ucast (drop_bit 24 host AND 255), ucast (drop_bit 16 host AND 255),
      ucast (drop_bit 8 host AND 255), ucast (host AND 255)]"

definition put_number8 :: "'a::len word \<Rightarrow> writer \<Rightarrow> writer option" where
  "put_number8 host = put_octets
     [ucast (drop_bit 56 host AND 255), ucast (drop_bit 48 host AND 255),
      ucast (drop_bit 40 host AND 255), ucast (drop_bit 32 host AND 255),
      ucast (drop_bit 24 host AND 255), ucast (drop_bit 16 host AND 255),
      ucast (drop_bit 8 host AND 255), ucast (host AND 255)]"

definition get_number1 :: "reader \<Rightarrow> (byte \<times> reader) option" where
  "get_number1 r =
     (if r_needle r + 1 > r_ceiling r then None
      else Some (peek r 0, advance 1 r))"

definition get_number2 :: "reader \<Rightarrow> (16 word \<times> reader) option" where
  "get_number2 r =
     (if r_needle r + 2 > r_ceiling r then None
      else Some (push_bit 8 (ucast (peek r 0)) + ucast (peek r 1), advance 2 r))"

definition get_number4 :: "reader \<Rightarrow> (32 word \<times> reader) option" where
  "get_number4 r =
     (if r_needle r + 4 > r_ceiling r then None
      else Some (push_bit 24 (ucast (peek r 0)) + push_bit 16 (ucast (peek r 1))
                 + push_bit 8 (ucast (peek r 2)) + ucast (peek r 3), advance 4 r))"

definition get_number8 :: "reader \<Rightarrow> (64 word \<times> reader) option" where
  "get_number8 r =
     (if r_needle r + 8 > r_ceiling r then None
      else Some (push_bit 56 (ucast (peek r 0)) + push_bit 48 (ucast (peek r 1))
                 + push_bit 40 (ucast (peek r 2)) + push_bit 32 (ucast (peek r 3))
                 + push_bit 24 (ucast (peek r 4)) + push_bit 16 (ucast (peek r 5))
                 + push_bit 8 (ucast (peek r 6)) + ucast (peek r 7), advance 8 r))"

section \<open>Strings\<close>

text \<open>
  \<open>strlen\<close> returns a \<open>size_t\<close>, here 64 bits wide; \<open>PUT_NUMBER1\<close> keeps its low octet only, while
  \<open>memcpy\<close> copies all of the string.
\<close>

definition put_string :: "cstr \<Rightarrow> writer \<Rightarrow> writer option" where
  "put_string host w = do {
     w \<leftarrow> put_number1 (of_nat (length host) :: 64 word) w;
     put_octets host w }"

definition put_longstr :: "cstr \<Rightarrow> writer \<Rightarrow> writer option" where
  "put_longstr host w = do {
     w \<leftarrow> put_number4 (of_nat (length host) :: 64 word) w;
     put_octets host w }"

text \<open>
  The string read from the frame is terminated by a zero octet after its last character, so that
  its readers see it up to the first zero octet, wherever that is.
\<close>

definition get_string :: "reader \<Rightarrow> (cstr \<times> reader) option" where
  "get_string r = do {
     (string_size, r) \<leftarrow> get_number1 r;
     (host, r) \<leftarrow> get_octets (unat string_size) r;
     Some (c_string (host @ [0]), r) }"

definition get_longstr :: "reader \<Rightarrow> (cstr \<times> reader) option" where
  "get_longstr r = do {
     (string_size, r) \<leftarrow> get_number4 r;
     (host, r) \<leftarrow> get_octets (unat string_size) r;
     Some (c_string (host @ [0]), r) }"

section \<open>What the macros write: numbers in network byte order\<close>

fun net_number :: "nat \<Rightarrow> nat \<Rightarrow> byte list" where
  "net_number 0 n = []"
| "net_number (Suc k) n = of_nat (n div 256 ^ k) # net_number k n"

definition net_value :: "byte list \<Rightarrow> nat" where
  "net_value bs = foldl (\<lambda>v b. 256 * v + unat b) 0 bs"

lemma length_net_number [simp]: "length (net_number k n) = k"
  by (induction k) auto

lemma foldl_net: "foldl (\<lambda>v b. 256 * v + unat b) v bs = v * 256 ^ length bs + net_value bs"
proof (induction bs arbitrary: v)
  case Nil
  show ?case by (simp add: net_value_def)
next
  case (Cons b bs)
  have "net_value (b # bs) = unat b * 256 ^ length bs + net_value bs"
    using Cons.IH [of "unat b"] by (simp add: net_value_def)
  then show ?case using Cons.IH [of "256 * v + unat b"] by (simp add: algebra_simps)
qed

lemma net_value_Cons: "net_value (b # bs) = unat b * 256 ^ length bs + net_value bs"
  using foldl_net [of "unat b" bs] by (simp add: net_value_def)

lemma net_value_net_number: "net_value (net_number k n) = n mod 256 ^ k"
proof (induction k)
  case 0
  show ?case by (simp add: net_value_def)
next
  case (Suc k)
  have "n div 256 ^ k mod 256 * 256 ^ k + n mod 256 ^ k = n mod (256 ^ k * 256)"
    by (simp only: mod_mult2_eq) (simp add: mult.commute)
  with Suc show ?case
    by (simp add: net_value_Cons unat_of_nat take_bit_eq_mod mult.commute)
qed

lemma octet_of_word: "(ucast (drop_bit k (x :: 'a::len word) AND 255) :: byte) = of_nat (unat x div 2 ^ k)"
proof -
  have "(255 :: 'a word) = mask 8" by (simp add: mask_eq_exp_minus_1)
  then have "(ucast (drop_bit k x AND 255) :: byte) = ucast (take_bit 8 (drop_bit k x))"
    by (simp add: take_bit_eq_mask)
  also have "\<dots> = of_nat (unat (drop_bit k x))"
    by (intro bit_word_eqI) (simp add: bit_simps bit_of_nat_iff)
  also have "unat (drop_bit k x) = unat x div 2 ^ k"
    by (simp only: unsigned_drop_bit_eq) (simp add: drop_bit_eq_div take_bit_nat_eq_self)
  finally show ?thesis .
qed

lemma octet_of_word_0: "(ucast ((x :: 'a::len word) AND 255) :: byte) = of_nat (unat x)"
  using octet_of_word [of 0 x] by simp

lemma net_number_1: "net_number 1 n = [of_nat n]"
  by simp

lemma net_number_2: "net_number 2 n = [of_nat (n div 2 ^ 8), of_nat n]"
proof -
  have "(2 :: nat) = Suc (Suc 0)" by simp
  then have "net_number 2 n = net_number (Suc (Suc 0)) n" by (rule arg_cong)
  then show ?thesis by simp
qed

lemma net_number_4:
  "net_number 4 n = [of_nat (n div 2 ^ 24), of_nat (n div 2 ^ 16), of_nat (n div 2 ^ 8), of_nat n]"
proof -
  have "(4 :: nat) = Suc (Suc (Suc (Suc 0)))" by simp
  then have "net_number 4 n = net_number (Suc (Suc (Suc (Suc 0)))) n" by (rule arg_cong)
  then show ?thesis by simp
qed

lemma net_number_8:
  "net_number 8 n = [of_nat (n div 2 ^ 56), of_nat (n div 2 ^ 48), of_nat (n div 2 ^ 40),
     of_nat (n div 2 ^ 32), of_nat (n div 2 ^ 24), of_nat (n div 2 ^ 16), of_nat (n div 2 ^ 8), of_nat n]"
proof -
  have "(8 :: nat) = Suc (Suc (Suc (Suc (Suc (Suc (Suc (Suc 0)))))))" by simp
  then have "net_number 8 n = net_number (Suc (Suc (Suc (Suc (Suc (Suc (Suc (Suc 0)))))))) n"
    by (rule arg_cong)
  then show ?thesis by simp
qed

lemma put_number1_net: "put_number1 host = put_octets (net_number 1 (unat host))"
  by (simp only: put_number1_def net_number_1 unsigned_ucast_eq) simp

lemma put_number2_net: "put_number2 host = put_octets (net_number 2 (unat host))"
  unfolding put_number2_def octet_of_word unfolding octet_of_word_0 net_number_2 ..

lemma put_number4_net: "put_number4 host = put_octets (net_number 4 (unat host))"
  unfolding put_number4_def octet_of_word unfolding octet_of_word_0 net_number_4 ..

lemma put_number8_net: "put_number8 host = put_octets (net_number 8 (unat host))"
  unfolding put_number8_def octet_of_word unfolding octet_of_word_0 net_number_8 ..

text \<open>
  Reading: the octets still to be read, the condition under which the needle is inside the frame,
  and the value of the numbers read.
\<close>

definition rest :: "reader \<Rightarrow> byte list" where
  "rest r = drop (r_needle r) (r_data r)"

definition reader_ok :: "reader \<Rightarrow> bool" where
  "reader_ok r \<longleftrightarrow> r_needle r \<le> r_ceiling r \<and> r_ceiling r = length (r_data r)"

lemma reader_ok_advance:
  "reader_ok r \<Longrightarrow> r_needle r + n \<le> r_ceiling r \<Longrightarrow> reader_ok (advance n r)"
  by (simp add: reader_ok_def advance_def)

lemma advance_simps [simp]:
  "r_data (advance n r) = r_data r"
  "r_needle (advance n r) = r_needle r + n"
  "r_ceiling (advance n r) = r_ceiling r"
  "advance m (advance n r) = advance (n + m) r"
  by (simp_all add: advance_def)

lemma rest_advance: "rest (advance n r) = drop n (rest r)"
  by (simp add: rest_def add.commute)

lemma length_rest: "reader_ok r \<Longrightarrow> length (rest r) = r_ceiling r - r_needle r"
  by (simp add: rest_def reader_ok_def)

lemma peek_rest: "reader_ok r \<Longrightarrow> i < length (rest r) \<Longrightarrow> peek r i = rest r ! i"
  by (simp add: peek_def rest_def reader_ok_def)

lemma enough_rest: "reader_ok r \<Longrightarrow> rest r = a @ zs \<Longrightarrow> r_needle r + length a \<le> r_ceiling r"
  using length_rest [of r] by (auto simp: reader_ok_def)

lemma unat_octet_less: "unat (b :: byte) < 256"
  using unsigned_less [of b] by simp

lemma unat_push_octet:
  assumes "k + 8 \<le> LENGTH('a)"
  shows "unat (push_bit k (ucast (b :: byte)) :: 'a::len word) = unat b * 2 ^ k"
proof -
  have "unat b * 2 ^ k < 2 ^ 8 * 2 ^ k" using unat_octet_less [of b] by simp
  also have "(2 :: nat) ^ 8 * 2 ^ k \<le> 2 ^ LENGTH('a)"
    unfolding power_add [symmetric] using assms by (intro power_increasing) auto
  finally have less: "unat b * 2 ^ k < 2 ^ LENGTH('a)" .
  have "unat (ucast b :: 'a word) = unat b"
    using assms by (simp add: unsigned_ucast_eq take_bit_nat_eq_self less_le_trans [OF unat_octet_less]
        power_increasing [of 8 _ "2::nat", simplified])
  then show ?thesis
    using less by (simp only: unsigned_push_bit_eq) (simp add: push_bit_eq_mult take_bit_nat_eq_self)
qed

lemma unat_ucast_octet: "8 \<le> LENGTH('a) \<Longrightarrow> unat (ucast (b :: byte) :: 'a::len word) = unat b"
  using unat_push_octet [of 0 b, where 'a = 'a] by simp

lemmas octet_sums = unat_word_ariths(1) unat_push_octet unat_ucast_octet net_value_Cons net_value_def

lemma unat_number2:
  "unat (push_bit 8 (ucast a) + ucast b :: 16 word) = net_value [a, b]"
  using unat_octet_less [of a] unat_octet_less [of b] by (simp add: octet_sums)

lemma unat_number4:
  "unat (push_bit 24 (ucast a) + push_bit 16 (ucast b) + push_bit 8 (ucast c) + ucast d :: 32 word)
     = net_value [a, b, c, d]"
  using unat_octet_less [of a] unat_octet_less [of b] unat_octet_less [of c] unat_octet_less [of d]
  by (simp add: octet_sums)

lemma unat_number8:
  "unat (push_bit 56 (ucast a) + push_bit 48 (ucast b) + push_bit 40 (ucast c) + push_bit 32 (ucast d)
       + push_bit 24 (ucast e) + push_bit 16 (ucast f) + push_bit 8 (ucast g) + ucast h :: 64 word)
     = net_value [a, b, c, d, e, f, g, h]"
  using unat_octet_less [of a] unat_octet_less [of b] unat_octet_less [of c] unat_octet_less [of d]
    unat_octet_less [of e] unat_octet_less [of f] unat_octet_less [of g] unat_octet_less [of h]
  by (simp add: octet_sums)

section \<open>Writing appends\<close>

lemma put_octets_Nil [simp]: "w_needle w \<le> length (w_data w) \<Longrightarrow> put_octets [] w = Some w"
  by (simp add: put_octets_def)

lemma put_octets_append:
  "Option.bind (put_octets a w) (put_octets b) = put_octets (a @ b) w"
proof (cases "w_needle w + length a \<le> length (w_data w)")
  case True
  then show ?thesis by (simp add: put_octets_def ac_simps)
next
  case False
  then show ?thesis by (simp add: put_octets_def)
qed

lemma put_octets_Some_iff:
  "put_octets a w = Some w' \<longleftrightarrow> w_needle w + length a \<le> length (w_data w) \<and>
     w' = \<lparr>w_data = take (w_needle w) (w_data w) @ a @ drop (w_needle w + length a) (w_data w),
           w_needle = w_needle w + length a\<rparr>"
  by (auto simp: put_octets_def)

text \<open>Writing into a fresh frame that is exactly as long as the octets fills it.\<close>

lemma put_octets_fill:
  "length (w_data w) = length a \<Longrightarrow> w_needle w = 0 \<Longrightarrow>
     put_octets a w = Some \<lparr>w_data = a, w_needle = length a\<rparr>"
  by (simp add: put_octets_def)

lemma put_octets_too_long:
  "length (w_data w) < w_needle w + length a \<Longrightarrow> put_octets a w = None"
  by (simp add: put_octets_def)

fun put_all :: "('a \<Rightarrow> writer \<Rightarrow> writer option) \<Rightarrow> 'a list \<Rightarrow> writer \<Rightarrow> writer option" where
  "put_all put [] w = Some w"
| "put_all put (x # xs) w = do { w \<leftarrow> put x w; put_all put xs w }"

fun get_many :: "(reader \<Rightarrow> ('a \<times> reader) option) \<Rightarrow> nat \<Rightarrow> reader \<Rightarrow> ('a list \<times> reader) option" where
  "get_many get 0 r = Some ([], r)"
| "get_many get (Suc n) r = do {
     (x, r) \<leftarrow> get r;
     (xs, r) \<leftarrow> get_many get n r;
     Some (x # xs, r) }"

section \<open>The contract of a field\<close>

locale wire_field =
  fixes put :: "'a \<Rightarrow> writer \<Rightarrow> writer option"
    and get :: "reader \<Rightarrow> ('a \<times> reader) option"
    and octets :: "'a \<Rightarrow> byte list"
    and fits :: "'a \<Rightarrow> bool"
  assumes put_octets_of: "put x w = put_octets (octets x) w"
    and octets_nonempty: "octets x \<noteq> []"
    and get_octets_of: "reader_ok r \<Longrightarrow> fits x \<Longrightarrow> rest r = octets x @ zs \<Longrightarrow>
          get r = Some (x, advance (length (octets x)) r)"
    and get_within: "reader_ok r \<Longrightarrow> get r = Some (x, r') \<Longrightarrow>
          fits x \<and> (\<exists>n > 0. r' = advance n r \<and> r_needle r + n \<le> r_ceiling r)"
begin

lemma roundtrip:
  assumes "put x \<lparr>w_data = buf, w_needle = 0\<rparr> = Some w" and "fits x"
  shows "\<exists>r. get \<lparr>r_data = w_data w, r_needle = 0, r_ceiling = length (w_data w)\<rparr> = Some (x, r)"
proof -
  let ?r = "\<lparr>r_data = w_data w, r_needle = 0, r_ceiling = length (w_data w)\<rparr>"
  have "rest ?r = octets x @ drop (length (octets x)) buf"
    using assms(1) by (auto simp: put_octets_of put_octets_Some_iff rest_def)
  then show ?thesis
    using get_octets_of [of ?r x] assms(2) by (auto simp: reader_ok_def)
qed

lemma get_reader_ok: "reader_ok r \<Longrightarrow> get r = Some (x, r') \<Longrightarrow> reader_ok r'"
  using get_within by (blast intro: reader_ok_advance)

lemma get_same_data: "reader_ok r \<Longrightarrow> get r = Some (x, r') \<Longrightarrow>
    r_data r' = r_data r \<and> r_ceiling r' = r_ceiling r"
  using get_within [of r x r'] by auto

lemma get_progress: "reader_ok r \<Longrightarrow> get r = Some (x, r') \<Longrightarrow>
    r_needle r < r_needle r' \<and> r_needle r' \<le> r_ceiling r'"
  using get_within [of r x r'] by auto

lemma get_fits: "reader_ok r \<Longrightarrow> get r = Some (x, r') \<Longrightarrow> fits x"
  using get_within by blast

text \<open>Sequences of fields.\<close>

lemma put_all_octets:
  "w_needle w \<le> length (w_data w) \<Longrightarrow> put_all put xs w = put_octets (concat (map octets xs)) w"
proof (induction xs arbitrary: w)
  case Nil
  then show ?case by simp
next
  case (Cons x xs)
  have "put_all put (x # xs) w = Option.bind (put_octets (octets x) w) (put_all put xs)"
    by (simp only: put_all.simps put_octets_of)
  also have "\<dots> = Option.bind (put_octets (octets x) w) (put_octets (concat (map octets xs)))"
    by (rule bind_option_cong) (auto simp: put_octets_Some_iff intro!: Cons.IH)
  finally show ?case by (simp add: put_octets_append)
qed

lemma get_many_octets:
  "reader_ok r \<Longrightarrow> (\<And>x. x \<in> set xs \<Longrightarrow> fits x) \<Longrightarrow> rest r = concat (map octets xs) @ zs \<Longrightarrow>
     get_many get (length xs) r = Some (xs, advance (length (concat (map octets xs))) r)"
proof (induction xs arbitrary: r)
  case Nil
  then show ?case by (simp add: advance_def)
next
  case (Cons x xs)
  let ?r = "advance (length (octets x)) r"
  have rest_r: "rest r = octets x @ concat (map octets xs) @ zs" using Cons.prems(3) by simp
  have g: "get r = Some (x, ?r)"
    by (rule get_octets_of [OF Cons.prems(1) _ rest_r]) (simp add: Cons.prems(2))
  have "get_many get (length xs) ?r = Some (xs, advance (length (concat (map octets xs))) ?r)"
  proof (rule Cons.IH)
    show "reader_ok ?r" by (rule get_reader_ok [OF Cons.prems(1) g])
    show "fits y" if "y \<in> set xs" for y using that Cons.prems(2) by simp
    show "rest ?r = concat (map octets xs) @ zs" by (simp add: rest_advance rest_r)
  qed
  then show ?case by (simp add: g)
qed

lemma get_many_within:
  "reader_ok r \<Longrightarrow> get_many get n r = Some (xs, r') \<Longrightarrow>
     length xs = n \<and> (\<forall>x \<in> set xs. fits x) \<and> reader_ok r' \<and> r_data r' = r_data r
     \<and> r_needle r + n \<le> r_needle r'"
proof (induction n arbitrary: r xs r')
  case 0
  then show ?case by simp
next
  case (Suc n)
  from Suc.prems(2) obtain x r1 ys where g: "get r = Some (x, r1)"
    and gm: "get_many get n r1 = Some (ys, r')" and xs: "xs = x # ys"
    by (auto split: bind_splits)
  have "length ys = n \<and> (\<forall>x \<in> set ys. fits x) \<and> reader_ok r' \<and> r_data r' = r_data r1
     \<and> r_needle r1 + n \<le> r_needle r'"
    by (rule Suc.IH [OF get_reader_ok [OF Suc.prems(1) g] gm])
  then show ?case
    using get_progress [OF Suc.prems(1) g] get_same_data [OF Suc.prems(1) g]
      get_fits [OF Suc.prems(1) g]
    by (auto simp: xs)
qed

text \<open>A frame of \<open>k\<close> octets never yields more than \<open>k\<close> fields, whatever count it announces.\<close>

lemma get_many_bound:
  "reader_ok r \<Longrightarrow> get_many get n r = Some (xs, r') \<Longrightarrow> n \<le> r_ceiling r"
  using get_many_within [of r n xs r'] by (auto simp: reader_ok_def)

end

section \<open>Numbers are fields\<close>

lemma unat_mod_width: "unat (x :: 'a::len word) mod 2 ^ LENGTH('a) = unat x"
  by (simp add: unsigned_less)

lemma net_value_reader:
  assumes "reader_ok r" and "rest r = net_number k n @ zs"
  shows "r_needle r + k \<le> r_ceiling r" and "i < k \<Longrightarrow> peek r i = net_number k n ! i"
  using enough_rest [OF assms] peek_rest [OF assms(1), of i]
  by (simp_all add: assms(2) nth_append)

lemma within_advance: "0 < n \<Longrightarrow> r_needle r + n \<le> r_ceiling r \<Longrightarrow>
    \<exists>m > 0. advance n r = advance m r \<and> r_needle r + m \<le> r_ceiling r"
  by blast

interpretation number1: wire_field put_number1 get_number1 "\<lambda>b. net_number 1 (unat (b :: byte))" "\<lambda>_. True"
proof
  fix r x zs assume ok: "reader_ok r" and "rest r = net_number 1 (unat (x :: byte)) @ zs"
  note net_value_reader [OF this]
  then show "get_number1 r = Some (x, advance (length (net_number 1 (unat x))) r)"
    by (simp add: get_number1_def)
qed (auto simp: put_number1_net get_number1_def intro!: within_advance split: if_splits)

interpretation number2: wire_field put_number2 get_number2 "\<lambda>x. net_number 2 (unat (x :: 16 word))" "\<lambda>_. True"
proof
  fix r x zs assume ok: "reader_ok r" and rest: "rest r = net_number 2 (unat (x :: 16 word)) @ zs"
  let ?v = "push_bit 8 (ucast (peek r 0)) + ucast (peek r 1) :: 16 word"
  have "[peek r 0, peek r 1] = net_number 2 (unat x)"
    using net_value_reader(2) [OF ok rest, of 0] net_value_reader(2) [OF ok rest, of 1]
    by (simp add: net_number_2)
  then have "unat ?v = unat x mod 256 ^ 2" by (simp only: unat_number2 net_value_net_number)
  also have "\<dots> = unat x" using unat_mod_width [of x] by simp
  finally have "?v = x" by (rule word_unat_eq_iff [THEN iffD2])
  then show "get_number2 r = Some (x, advance (length (net_number 2 (unat x))) r)"
    using net_value_reader(1) [OF ok rest] by (simp add: get_number2_def)
qed (auto simp: put_number2_net get_number2_def net_number_2 intro!: within_advance split: if_splits)

interpretation number4: wire_field put_number4 get_number4 "\<lambda>x. net_number 4 (unat (x :: 32 word))" "\<lambda>_. True"
proof
  fix r x zs assume ok: "reader_ok r" and rest: "rest r = net_number 4 (unat (x :: 32 word)) @ zs"
  let ?v = "push_bit 24 (ucast (peek r 0)) + push_bit 16 (ucast (peek r 1))
     + push_bit 8 (ucast (peek r 2)) + ucast (peek r 3) :: 32 word"
  have "[peek r 0, peek r 1, peek r 2, peek r 3] = net_number 4 (unat x)"
    using net_value_reader(2) [OF ok rest, of 0] net_value_reader(2) [OF ok rest, of 1]
      net_value_reader(2) [OF ok rest, of 2] net_value_reader(2) [OF ok rest, of 3]
    by (simp add: net_number_4)
  then have "unat ?v = unat x mod 256 ^ 4" by (simp only: unat_number4 net_value_net_number)
  also have "\<dots> = unat x" using unat_mod_width [of x] by simp
  finally have "?v = x" by (rule word_unat_eq_iff [THEN iffD2])
  then show "get_number4 r = Some (x, advance (length (net_number 4 (unat x))) r)"
    using net_value_reader(1) [OF ok rest] by (simp add: get_number4_def)
qed (auto simp: put_number4_net get_number4_def net_number_4 intro!: within_advance split: if_splits)

interpretation number8: wire_field put_number8 get_number8 "\<lambda>x. net_number 8 (unat (x :: 64 word))" "\<lambda>_. True"
proof
  fix r x zs assume ok: "reader_ok r" and rest: "rest r = net_number 8 (unat (x :: 64 word)) @ zs"
  let ?v = "push_bit 56 (ucast (peek r 0)) + push_bit 48 (ucast (peek r 1))
     + push_bit 40 (ucast (peek r 2)) + push_bit 32 (ucast (peek r 3))
     + push_bit 24 (ucast (peek r 4)) + push_bit 16 (ucast (peek r 5))
     + push_bit 8 (ucast (peek r 6)) + ucast (peek r 7) :: 64 word"
  have "[peek r 0, peek r 1, peek r 2, peek r 3, peek r 4, peek r 5, peek r 6, peek r 7]
      = net_number 8 (unat x)"
    using net_value_reader(2) [OF ok rest, of 0] net_value_reader(2) [OF ok rest, of 1]
      net_value_reader(2) [OF ok rest, of 2] net_value_reader(2) [OF ok rest, of 3]
      net_value_reader(2) [OF ok rest, of 4] net_value_reader(2) [OF ok rest, of 5]
      net_value_reader(2) [OF ok rest, of 6] net_value_reader(2) [OF ok rest, of 7]
    by (simp add: net_number_8)
  then have "unat ?v = unat x mod 256 ^ 8" by (simp only: unat_number8 net_value_net_number)
  also have "\<dots> = unat x" using unat_mod_width [of x] by simp
  finally have "?v = x" by (rule word_unat_eq_iff [THEN iffD2])
  then show "get_number8 r = Some (x, advance (length (net_number 8 (unat x))) r)"
    using net_value_reader(1) [OF ok rest] by (simp add: get_number8_def)
qed (auto simp: put_number8_net get_number8_def net_number_8 intro!: within_advance split: if_splits)

section \<open>Strings are fields\<close>

text \<open>
  The octets of a string are those of the length field, \<open>k\<close> octets wide, and all of the
  characters.  The string fits when its length fits the length field; it is then read back.
\<close>

definition sized_octets :: "nat \<Rightarrow> cstr \<Rightarrow> byte list" where
  "sized_octets k s = net_number k (length s) @ s"

definition sized_fits :: "nat \<Rightarrow> cstr \<Rightarrow> bool" where
  "sized_fits k s \<longleftrightarrow> wf_cstr s \<and> length s < 256 ^ k"

lemma net_number_mod: "k \<le> m \<Longrightarrow> net_number k (n mod 256 ^ m) = net_number k n"
proof (induction k)
  case 0
  show ?case by simp
next
  case (Suc k)
  have pow: "(256 :: nat) ^ i = 2 ^ (8 * i)" for i by (simp add: power_mult)
  have "(n mod 256 ^ m) div 256 ^ k = take_bit (8 * m - 8 * k) (drop_bit (8 * k) n)"
    unfolding pow by (simp only: take_bit_eq_mod [symmetric] drop_bit_eq_div [symmetric] drop_bit_take_bit)
  also have "(of_nat \<dots> :: byte) = of_nat (drop_bit (8 * k) n)"
    by (intro bit_word_eqI) (use Suc.prems in \<open>auto simp: bit_simps bit_of_nat_iff\<close>)
  finally have "(of_nat ((n mod 256 ^ m) div 256 ^ k) :: byte) = of_nat (n div 256 ^ k)"
    unfolding pow by (simp only: drop_bit_eq_div)
  with Suc show ?case by simp
qed

lemma net_number_size_t: "k \<le> 8 \<Longrightarrow> net_number k (unat (of_nat n :: 64 word)) = net_number k n"
  using net_number_mod [of k 8 n] by (simp add: unat_of_nat take_bit_eq_mod)

lemma c_string_zero: "c_string (s @ [0]) = c_string s"
  by (induction s) (auto simp: c_string_def)

lemma get_octets_within:
  "reader_ok r \<Longrightarrow> get_octets n r = Some (bs, r') \<Longrightarrow>
     length bs = n \<and> r' = advance n r \<and> r_needle r + n \<le> r_ceiling r"
  by (auto simp: get_octets_def reader_ok_def split: if_splits)

lemma get_octets_append:
  "reader_ok r \<Longrightarrow> rest r = bs @ zs \<Longrightarrow> get_octets (length bs) r = Some (bs, advance (length bs) r)"
  using enough_rest [of r bs zs] by (simp add: get_octets_def rest_def [symmetric])

locale sized_string =
  n: wire_field put_n get_n "\<lambda>x. net_number k (unat x)" "\<lambda>_. True"
  for put_n :: "'n::len word \<Rightarrow> writer \<Rightarrow> writer option"
    and get_n :: "reader \<Rightarrow> ('n word \<times> reader) option"
    and k :: nat +
  fixes put_s :: "cstr \<Rightarrow> writer \<Rightarrow> writer option"
    and get_s :: "reader \<Rightarrow> (cstr \<times> reader) option"
  assumes width: "256 ^ k = (2 :: nat) ^ LENGTH('n)"
    and put_s: "put_s s w = put_octets (sized_octets k s) w"
    and get_s: "get_s r = do {
          (string_size, r) \<leftarrow> get_n r;
          (host, r) \<leftarrow> get_octets (unat string_size) r;
          Some (c_string (host @ [0]), r) }"
begin

lemma get_s_octets:
  assumes ok: "reader_ok r" and fits: "sized_fits k x" and rest: "rest r = sized_octets k x @ zs"
  shows "get_s r = Some (x, advance (length (sized_octets k x)) r)"
proof -
  have len: "unat (of_nat (length x) :: 'n word) = length x"
    using fits by (simp add: sized_fits_def width unat_of_nat take_bit_nat_eq_self)
  have rest1: "rest r = net_number k (unat (of_nat (length x) :: 'n word)) @ x @ zs"
    by (simp add: rest sized_octets_def len)
  note g = n.get_octets_of [OF ok TrueI rest1]
  have "get_octets (length x) (advance k r) = Some (x, advance (length x) (advance k r))"
    using n.get_reader_ok [OF ok g] rest1
    by (intro get_octets_append [of _ _ zs]) (auto simp: rest_advance)
  then show ?thesis
    using g fits by (simp add: get_s len sized_octets_def c_string_zero c_string_wf sized_fits_def)
qed

lemma get_s_within:
  assumes ok: "reader_ok r" and get: "get_s r = Some (x, r')"
  shows "sized_fits k x \<and> (\<exists>n > 0. r' = advance n r \<and> r_needle r + n \<le> r_ceiling r)"
proof -
  from get obtain l r1 host where l: "get_n r = Some (l, r1)"
    and h: "get_octets (unat l) r1 = Some (host, r')" and x: "x = c_string (host @ [0])"
    by (auto simp: get_s split: bind_splits)
  note o = get_octets_within [OF n.get_reader_ok [OF ok l] h]
  from n.get_within [OF ok l] obtain m where m: "0 < m" "r1 = advance m r" by blast
  have "length x \<le> unat l" using o length_c_string_le [of host] by (simp add: x c_string_zero)
  also have "unat l < 256 ^ k" unfolding width by (rule unsigned_less)
  finally have "sized_fits k x" by (simp add: sized_fits_def x)
  then show ?thesis using o m by (auto intro!: within_advance)
qed

end

sublocale sized_string \<subseteq> field: wire_field put_s get_s "sized_octets k" "sized_fits k"
proof
  fix x w r r' zs
  show "put_s x w = put_octets (sized_octets k x) w" by (rule put_s)
  have "net_number k (unat (0 :: 'n word)) \<noteq> []" by (rule n.octets_nonempty)
  then show "sized_octets k x \<noteq> []" by (auto simp: sized_octets_def dest: arg_cong [of _ _ length])
  show "get_s r = Some (x, advance (length (sized_octets k x)) r)"
    if "reader_ok r" "sized_fits k x" "rest r = sized_octets k x @ zs"
    using that by (rule get_s_octets)
  show "sized_fits k x \<and> (\<exists>n > 0. r' = advance n r \<and> r_needle r + n \<le> r_ceiling r)"
    if "reader_ok r" "get_s r = Some (x, r')"
    using that by (rule get_s_within)
qed

lemma put_string_octets: "put_string s w = put_octets (sized_octets 1 s) w"
proof -
  have "net_number 1 (unat (of_nat (length s) :: 64 word)) = net_number 1 (length s)"
    by (rule net_number_size_t) simp
  then show ?thesis
    by (simp only: put_string_def put_number1_net put_octets_append sized_octets_def)
qed

lemma put_longstr_octets: "put_longstr s w = put_octets (sized_octets 4 s) w"
proof -
  have "net_number 4 (unat (of_nat (length s) :: 64 word)) = net_number 4 (length s)"
    by (rule net_number_size_t) simp
  then show ?thesis
    by (simp only: put_longstr_def put_number4_net put_octets_append sized_octets_def)
qed

interpretation string: sized_string put_number1 get_number1 1 put_string get_string
  by unfold_locales (simp_all add: put_string_octets get_string_def)

interpretation longstr: sized_string put_number4 get_number4 4 put_longstr get_longstr
  by unfold_locales (simp_all add: put_longstr_octets get_longstr_def)

section \<open>Two fields in a row\<close>

locale wire_pair =
  a: wire_field put_a get_a octets_a fits_a + b: wire_field put_b get_b octets_b fits_b
  for put_a :: "'a \<Rightarrow> writer \<Rightarrow> writer option" and get_a octets_a fits_a
    and put_b :: "'b \<Rightarrow> writer \<Rightarrow> writer option" and get_b octets_b fits_b

sublocale wire_pair \<subseteq> pair: wire_field
  "\<lambda>(x, y) w. Option.bind (put_a x w) (put_b y)"
  "\<lambda>r. do { (x, r) \<leftarrow> get_a r; (y, r) \<leftarrow> get_b r; Some ((x, y), r) }"
  "\<lambda>(x, y). octets_a x @ octets_b y"
  "\<lambda>(x, y). fits_a x \<and> fits_b y"
proof (unfold_locales, goal_cases)
  case (1 p w)
  show ?case
    by (cases p) (simp add: a.put_octets_of b.put_octets_of [abs_def] put_octets_append)
next
  case (2 p)
  show ?case using a.octets_nonempty by (cases p) simp
next
  case (3 r p zs)
  obtain x y where p: "p = (x, y)" by (cases p)
  from 3 have x: "get_a r = Some (x, advance (length (octets_a x)) r)"
    by (intro a.get_octets_of [of _ _ "octets_b y @ zs"]) (auto simp: p)
  from 3 have "rest (advance (length (octets_a x)) r) = octets_b y @ zs"
    by (simp add: p rest_advance)
  then have "get_b (advance (length (octets_a x)) r)
      = Some (y, advance (length (octets_b y)) (advance (length (octets_a x)) r))"
    using 3 a.get_reader_ok [OF _ x] by (intro b.get_octets_of) (auto simp: p)
  then show ?case by (simp add: p x)
next
  case (4 r p r')
  from 4(2) obtain x y r1 where p: "p = (x, y)"
    and x: "get_a r = Some (x, r1)" and y: "get_b r1 = Some (y, r')"
    by (auto split: bind_splits)
  from a.get_within [OF 4(1) x] b.get_within [OF a.get_reader_ok [OF 4(1) x] y]
  show ?case by (auto simp: p intro!: within_advance)
qed

text \<open>An entry of a dictionary: a name and a value.\<close>

interpretation entry: wire_pair put_string get_string "sized_octets 1" "sized_fits 1"
    put_longstr get_longstr "sized_octets 4" "sized_fits 4"
  by unfold_locales

end
