(* ===== verification/Zccp_Msg.thy ===== *)
theory Zccp_Msg
  imports Czmq Wire
begin

text \<open>
  The message object of \<^verbatim>\<open>src/zccp_msg.c\<close>: the structure \<open>zccp_msg_t\<close>, its constructor, its
  accessors and \<open>zccp_msg_dup\<close>.

  A pointer field is an option, \<open>None\<close> being \<open>NULL\<close>.  The fields \<open>needle\<close> and \<open>ceiling\<close> are live
  only while a frame is built or read; they are the needle and ceiling of the \<open>writer\<close> and the
  \<open>reader\<close> of theory \<open>Wire\<close>.  The setters of the string fields pass their argument to
  \<open>zsys_vprintf\<close> as the format, and so do the setters here.

  The abstract view of a message is the protocol command it stands for (\<open>command_of\<close>).
\<close>

section \<open>Message identifiers and the structure\<close>

definition ZCCP_MSG_HELLO :: int where [simp]: "ZCCP_MSG_HELLO = 1"
definition ZCCP_MSG_HELLO_OK :: int where [simp]: "ZCCP_MSG_HELLO_OK = 2"
definition ZCCP_MSG_SUBSCRIBE :: int where [simp]: "ZCCP_MSG_SUBSCRIBE = 3"
definition ZCCP_MSG_SUBSCRIBE_OK :: int where [simp]: "ZCCP_MSG_SUBSCRIBE_OK = 4"
definition ZCCP_MSG_PUBLISH :: int where [simp]: "ZCCP_MSG_PUBLISH = 5"
definition ZCCP_MSG_DIRECT :: int where [simp]: "ZCCP_MSG_DIRECT = 6"
definition ZCCP_MSG_DELIVER :: int where [simp]: "ZCCP_MSG_DELIVER = 7"
definition ZCCP_MSG_GOODBYE :: int where [simp]: "ZCCP_MSG_GOODBYE = 8"
definition ZCCP_MSG_GOODBYE_OK :: int where [simp]: "ZCCP_MSG_GOODBYE_OK = 9"
definition ZCCP_MSG_PING :: int where [simp]: "ZCCP_MSG_PING = 10"
definition ZCCP_MSG_PING_OK :: int where [simp]: "ZCCP_MSG_PING_OK = 11"
definition ZCCP_MSG_INVALID :: int where [simp]: "ZCCP_MSG_INVALID = 12"

record 'h zccp_msg =
  routing_id :: "frame option"
  msg_id :: int
  identifier_field :: "cstr option"
  headers :: "'h option"
  headers_bytes :: nat
  expression :: "cstr option"
  address :: "cstr option"
  content :: "zmsg option"
  sender :: "cstr option"

definition zccp_msg_new :: "int \<Rightarrow> 'h zccp_msg" where
  "zccp_msg_new i = \<lparr> routing_id = None, msg_id = i, identifier_field = None, headers = None,
     headers_bytes = 0, expression = None, address = None, content = None, sender = None \<rparr>"

section \<open>Accessors\<close>

definition zccp_msg_routing_id :: "'h zccp_msg \<Rightarrow> frame option" where
  "zccp_msg_routing_id self = routing_id self"

definition zccp_msg_set_routing_id :: "'h zccp_msg \<Rightarrow> frame \<Rightarrow> 'h zccp_msg" where
  "zccp_msg_set_routing_id self f = self\<lparr>routing_id := Some f\<rparr>"

definition zccp_msg_id :: "'h zccp_msg \<Rightarrow> int" where
  "zccp_msg_id self = msg_id self"

definition zccp_msg_set_id :: "'h zccp_msg \<Rightarrow> int \<Rightarrow> 'h zccp_msg" where
  "zccp_msg_set_id self i = self\<lparr>msg_id := i\<rparr>"

definition zccp_msg_command :: "'h zccp_msg \<Rightarrow> string" where
  "zccp_msg_command self =
     (if msg_id self = ZCCP_MSG_HELLO then ''HELLO''
      else if msg_id self = ZCCP_MSG_HELLO_OK then ''HELLO_OK''
      else if msg_id self = ZCCP_MSG_SUBSCRIBE then ''SUBSCRIBE''
      else if msg_id self = ZCCP_MSG_SUBSCRIBE_OK then ''SUBSCRIBE_OK''
      else if msg_id self = ZCCP_MSG_PUBLISH then ''PUBLISH''
      else if msg_id self = ZCCP_MSG_DIRECT then ''DIRECT''
      else if msg_id self = ZCCP_MSG_DELIVER then ''DELIVER''
      else if msg_id self = ZCCP_MSG_GOODBYE then ''GOODBYE''
      else if msg_id self = ZCCP_MSG_GOODBYE_OK then ''GOODBYE_OK''
      else if msg_id self = ZCCP_MSG_PING then ''PING''
      else if msg_id self = ZCCP_MSG_PING_OK then ''PING_OK''
      else if msg_id self = ZCCP_MSG_INVALID then ''INVALID''
      else ''?'')"

text \<open>\<open>zsys_vprintf (format, argptr)\<close>, called without arguments.\<close>

definition format_string :: "('h, 'r) czmq \<Rightarrow> cstr option \<Rightarrow> cstr result" where
  "format_string Z format =
     (case format of None \<Rightarrow> Inl Null_pointer | Some f \<Rightarrow> of_option Format_undefined (vprintf Z f))"

definition zccp_msg_identifier :: "'h zccp_msg \<Rightarrow> cstr option" where
  "zccp_msg_identifier self = identifier_field self"

definition zccp_msg_set_identifier :: "('h, 'r) czmq \<Rightarrow> 'h zccp_msg \<Rightarrow> cstr option \<Rightarrow> 'h zccp_msg result" where
  "zccp_msg_set_identifier Z self format =
     rbind (format_string Z format) (\<lambda>s. Inr (self\<lparr>identifier_field := Some s\<rparr>))"

definition zccp_msg_headers :: "'h zccp_msg \<Rightarrow> 'h option" where
  "zccp_msg_headers self = headers self"

definition zccp_msg_get_headers :: "'h zccp_msg \<Rightarrow> 'h option \<times> 'h zccp_msg" where
  "zccp_msg_get_headers self = (headers self, self\<lparr>headers := None\<rparr>)"

definition zccp_msg_set_headers :: "'h zccp_msg \<Rightarrow> 'h option \<Rightarrow> 'h zccp_msg" where
  "zccp_msg_set_headers self h = self\<lparr>headers := h\<rparr>"

definition zccp_msg_headers_string :: "'h zhash_ops \<Rightarrow> 'h zccp_msg \<Rightarrow> cstr \<Rightarrow> cstr option \<Rightarrow> cstr option" where
  "zccp_msg_headers_string H self key default_value =
     (let value = (case headers self of None \<Rightarrow> None | Some h \<Rightarrow> zh_lookup H h key)
      in if value = None then default_value else value)"

text \<open>\<open>atol\<close>: white space, a sign, decimal digits up to the first other character.\<close>

definition is_space :: "byte \<Rightarrow> bool" where
  "is_space c \<longleftrightarrow> c = 32 \<or> 9 \<le> c \<and> c \<le> 13"

fun digits_value :: "int \<Rightarrow> cstr \<Rightarrow> int" where
  "digits_value v [] = v"
| "digits_value v (c # s) = (if 48 \<le> c \<and> c \<le> 57 then digits_value (10 * v + uint (c - 48)) s else v)"

definition atol :: "cstr \<Rightarrow> int" where
  "atol s = (case dropWhile is_space s of
     [] \<Rightarrow> 0
   | c # t \<Rightarrow> if c = 45 then - digits_value 0 t
             else if c = 43 then digits_value 0 t
             else digits_value 0 (c # t))"

definition zccp_msg_headers_number :: "'h zhash_ops \<Rightarrow> 'h zccp_msg \<Rightarrow> cstr \<Rightarrow> 64 word \<Rightarrow> 64 word" where
  "zccp_msg_headers_number H self key default_value =
     (case (case headers self of None \<Rightarrow> None | Some h \<Rightarrow> zh_lookup H h key) of
        None \<Rightarrow> default_value
      | Some string \<Rightarrow> word_of_int (atol string))"

definition zccp_msg_headers_insert :: "('h, 'r) czmq \<Rightarrow> 'h zccp_msg \<Rightarrow> cstr \<Rightarrow> cstr option \<Rightarrow> 'h zccp_msg result" where
  "zccp_msg_headers_insert Z self key format =
     rbind (format_string Z format) (\<lambda>string.
       let h = (case headers self of None \<Rightarrow> zh_new (hash Z) | Some h \<Rightarrow> h)
       in Inr (self\<lparr>headers := Some (zh_update (hash Z) h key string)\<rparr>))"

definition zccp_msg_headers_size :: "'h zhash_ops \<Rightarrow> 'h zccp_msg \<Rightarrow> nat result" where
  "zccp_msg_headers_size H self =
     (case headers self of None \<Rightarrow> Inl Null_pointer | Some h \<Rightarrow> Inr (zh_size H h))"

definition zccp_msg_expression :: "'h zccp_msg \<Rightarrow> cstr option" where
  "zccp_msg_expression self = expression self"

definition zccp_msg_set_expression :: "('h, 'r) czmq \<Rightarrow> 'h zccp_msg \<Rightarrow> cstr option \<Rightarrow> 'h zccp_msg result" where
  "zccp_msg_set_expression Z self format =
     rbind (format_string Z format) (\<lambda>s. Inr (self\<lparr>expression := Some s\<rparr>))"

definition zccp_msg_address :: "'h zccp_msg \<Rightarrow> cstr option" where
  "zccp_msg_address self = address self"

definition zccp_msg_set_address :: "('h, 'r) czmq \<Rightarrow> 'h zccp_msg \<Rightarrow> cstr option \<Rightarrow> 'h zccp_msg result" where
  "zccp_msg_set_address Z self format =
     rbind (format_string Z format) (\<lambda>s. Inr (self\<lparr>address := Some s\<rparr>))"

definition zccp_msg_content :: "'h zccp_msg \<Rightarrow> zmsg option" where
  "zccp_msg_content self = content self"

definition zccp_msg_get_content :: "'h zccp_msg \<Rightarrow> zmsg option \<times> 'h zccp_msg" where
  "zccp_msg_get_content self = (content self, self\<lparr>content := None\<rparr>)"

definition zccp_msg_set_content :: "'h zccp_msg \<Rightarrow> zmsg option \<Rightarrow> 'h zccp_msg" where
  "zccp_msg_set_content self m = self\<lparr>content := m\<rparr>"

definition zccp_msg_sender :: "'h zccp_msg \<Rightarrow> cstr option" where
  "zccp_msg_sender self = sender self"

definition zccp_msg_set_sender :: "('h, 'r) czmq \<Rightarrow> 'h zccp_msg \<Rightarrow> cstr option \<Rightarrow> 'h zccp_msg result" where
  "zccp_msg_set_sender Z self format =
     rbind (format_string Z format) (\<lambda>s. Inr (self\<lparr>sender := Some s\<rparr>))"

section \<open>Duplicating a message\<close>

definition zccp_msg_dup :: "'h zhash_ops \<Rightarrow> 'h zccp_msg option \<Rightarrow> 'h zccp_msg option" where
  "zccp_msg_dup H self_p = (case self_p of None \<Rightarrow> None | Some self \<Rightarrow>
     (let copy = (zccp_msg_new (msg_id self))\<lparr>routing_id := routing_id self\<rparr>;
          dup = map_option (zh_dup H)
      in Some
       (if msg_id self = ZCCP_MSG_HELLO then
          copy\<lparr>identifier_field := identifier_field self, headers := dup (headers self)\<rparr>
        else if msg_id self = ZCCP_MSG_HELLO_OK then
          copy\<lparr>headers := dup (headers self)\<rparr>
        else if msg_id self = ZCCP_MSG_SUBSCRIBE then
          copy\<lparr>expression := expression self, headers := dup (headers self)\<rparr>
        else if msg_id self = ZCCP_MSG_SUBSCRIBE_OK then copy
        else if msg_id self = ZCCP_MSG_PUBLISH then
          copy\<lparr>address := address self, headers := dup (headers self), content := content self\<rparr>
        else if msg_id self = ZCCP_MSG_DIRECT then
          copy\<lparr>address := address self, headers := dup (headers self), content := content self\<rparr>
        else if msg_id self = ZCCP_MSG_DELIVER then
          copy\<lparr>sender := sender self, address := address self, headers := dup (headers self),
               content := content self\<rparr>
        else if msg_id self = ZCCP_MSG_GOODBYE then copy
        else if msg_id self = ZCCP_MSG_GOODBYE_OK then copy\<lparr>headers := dup (headers self)\<rparr>
        else copy)))"

section \<open>The command a message stands for\<close>

text \<open>
  What a peer can learn from a message: the command, its strings (a missing string is sent as the
  empty one), its dictionary as a map, its content (a missing content is sent as one empty frame).
\<close>

datatype command =
    Hello cstr "cstr \<rightharpoonup> cstr"
  | Hello_ok "cstr \<rightharpoonup> cstr"
  | Subscribe cstr "cstr \<rightharpoonup> cstr"
  | Subscribe_ok
  | Publish cstr "cstr \<rightharpoonup> cstr" zmsg
  | Direct cstr "cstr \<rightharpoonup> cstr" zmsg
  | Deliver cstr cstr "cstr \<rightharpoonup> cstr" zmsg
  | Goodbye
  | Goodbye_ok "cstr \<rightharpoonup> cstr"
  | Ping
  | Ping_ok
  | Invalid

definition text_of :: "cstr option \<Rightarrow> cstr" where
  "text_of s = (case s of None \<Rightarrow> [] | Some s \<Rightarrow> s)"

definition dict_of :: "'h zhash_ops \<Rightarrow> 'h option \<Rightarrow> cstr \<rightharpoonup> cstr" where
  "dict_of H h = (case h of None \<Rightarrow> Map.empty | Some h \<Rightarrow> zh_lookup H h)"

definition frames_of :: "zmsg option \<Rightarrow> zmsg" where
  "frames_of m = (case m of None \<Rightarrow> [[]] | Some fs \<Rightarrow> fs)"

lemma of_simps [simp]:
  "text_of None = []" "text_of (Some s) = s"
  "dict_of H None = Map.empty" "dict_of H (Some h) = zh_lookup H h"
  "frames_of None = [[]]" "frames_of (Some fs) = fs"
  by (simp_all add: text_of_def dict_of_def frames_of_def)

definition command_of :: "'h zhash_ops \<Rightarrow> 'h zccp_msg \<Rightarrow> command option" where
  "command_of H m =
     (if msg_id m = ZCCP_MSG_HELLO then Some (Hello (text_of (identifier_field m)) (dict_of H (headers m)))
      else if msg_id m = ZCCP_MSG_HELLO_OK then Some (Hello_ok (dict_of H (headers m)))
      else if msg_id m = ZCCP_MSG_SUBSCRIBE then
        Some (Subscribe (text_of (expression m)) (dict_of H (headers m)))
      else if msg_id m = ZCCP_MSG_SUBSCRIBE_OK then Some Subscribe_ok
      else if msg_id m = ZCCP_MSG_PUBLISH then
        Some (Publish (text_of (address m)) (dict_of H (headers m)) (frames_of (content m)))
      else if msg_id m = ZCCP_MSG_DIRECT then
        Some (Direct (text_of (address m)) (dict_of H (headers m)) (frames_of (content m)))
      else if msg_id m = ZCCP_MSG_DELIVER then
        Some (Deliver (text_of (sender m)) (text_of (address m)) (dict_of H (headers m))
                (frames_of (content m)))
      else if msg_id m = ZCCP_MSG_GOODBYE then Some Goodbye
      else if msg_id m = ZCCP_MSG_GOODBYE_OK then Some (Goodbye_ok (dict_of H (headers m)))
      else if msg_id m = ZCCP_MSG_PING then Some Ping
      else if msg_id m = ZCCP_MSG_PING_OK then Some Ping_ok
      else if msg_id m = ZCCP_MSG_INVALID then Some Invalid
      else None)"

lemma known_id_iff: "(1 \<le> i \<and> i \<le> (12 :: int)) \<longleftrightarrow> i = 1 \<or> i = 2 \<or> i = 3 \<or> i = 4 \<or> i = 5 \<or> i = 6
    \<or> i = 7 \<or> i = 8 \<or> i = 9 \<or> i = 10 \<or> i = 11 \<or> i = 12"
  by presburger

lemma command_of_None_iff: "command_of H m = None \<longleftrightarrow> \<not> (1 \<le> msg_id m \<and> msg_id m \<le> 12)"
  unfolding known_id_iff by (simp add: command_of_def)

text \<open>
  A message sent by the code is \<open>msg_ok\<close>: without a dictionary the byte count of the dictionary is
  zero.  \<open>zccp_msg_encode\<close> adds that count to the size of the frame in either case, so the frame
  would be too long otherwise.  Every operation on messages keeps the condition.
\<close>

definition msg_ok :: "'h zccp_msg \<Rightarrow> bool" where
  "msg_ok m \<longleftrightarrow> headers_bytes m = 0"

lemma msg_ok_new [simp]: "msg_ok (zccp_msg_new i)"
  by (simp add: msg_ok_def zccp_msg_new_def)

lemma msg_ok_plain_setters [simp]:
  "msg_ok (zccp_msg_set_id m i) = msg_ok m"
  "msg_ok (zccp_msg_set_routing_id m f) = msg_ok m"
  "msg_ok (zccp_msg_set_headers m h) = msg_ok m"
  "msg_ok (zccp_msg_set_content m c) = msg_ok m"
  "msg_ok (snd (zccp_msg_get_headers m)) = msg_ok m"
  "msg_ok (snd (zccp_msg_get_content m)) = msg_ok m"
  by (simp_all add: msg_ok_def zccp_msg_set_id_def zccp_msg_set_routing_id_def
      zccp_msg_set_headers_def zccp_msg_set_content_def zccp_msg_get_headers_def
      zccp_msg_get_content_def)

lemmas setter_defs = zccp_msg_set_identifier_def zccp_msg_set_expression_def
  zccp_msg_set_address_def zccp_msg_set_sender_def zccp_msg_headers_insert_def

lemma msg_ok_setters:
  "zccp_msg_set_identifier Z m f = Inr m' \<Longrightarrow> msg_ok m' = msg_ok m"
  "zccp_msg_set_expression Z m f = Inr m' \<Longrightarrow> msg_ok m' = msg_ok m"
  "zccp_msg_set_address Z m f = Inr m' \<Longrightarrow> msg_ok m' = msg_ok m"
  "zccp_msg_set_sender Z m f = Inr m' \<Longrightarrow> msg_ok m' = msg_ok m"
  "zccp_msg_headers_insert Z m k f = Inr m' \<Longrightarrow> msg_ok m' = msg_ok m"
  by (auto simp: msg_ok_def setter_defs rbind_Inr_iff Let_def)

lemma msg_ok_dup: "zccp_msg_dup H (Some m) = Some m' \<Longrightarrow> msg_ok m'"
  by (auto simp: zccp_msg_dup_def msg_ok_def zccp_msg_new_def Let_def)

context zhash_api
begin

lemma dict_of_dup: "dict_of H (map_option (zh_dup H) h) = dict_of H h"
  by (cases h) (simp_all add: lookup_dup)

lemma command_of_dup:
  assumes "zccp_msg_dup H (Some m) = Some m'"
  shows "command_of H m' = command_of H m \<and> routing_id m' = routing_id m \<and> msg_id m' = msg_id m"
proof -
  from assms have "msg_id m' = msg_id m" and "routing_id m' = routing_id m"
    by (auto simp: zccp_msg_dup_def zccp_msg_new_def Let_def)
  moreover have "command_of H m' = command_of H m"
  proof (cases "command_of H m")
    case None
    then have "command_of H m' = None"
      using \<open>msg_id m' = msg_id m\<close> by (simp add: command_of_None_iff)
    with None show ?thesis by simp
  next
    case (Some c)
    then have "1 \<le> msg_id m \<and> msg_id m \<le> 12" using command_of_None_iff [of H m] by simp
    then show ?thesis using assms unfolding known_id_iff
      by (elim disjE) (auto simp: command_of_def zccp_msg_dup_def zccp_msg_new_def Let_def dict_of_dup)
  qed
  ultimately show ?thesis by simp
qed

end

end
