(* ===== verification/Zccp_Codec.thy ===== *)
theory Zccp_Codec
  imports Zccp_Msg
begin

text \<open>
  The codec of \<^verbatim>\<open>src/zccp_msg.c\<close>: \<open>zccp_msg_encode\<close>, \<open>zccp_msg_decode\<close>, sending and receiving.

  \<open>zccp_msg_encode\<close> computes the size of the frame, allocates it and fills it through the needle;
  a write past the end of the frame is the fault \<open>Frame_overrun\<close>.  Running out of memory is not
  modelled, so that \<open>zmsg_append\<close> succeeds.  The frame it builds is compared with the grammar of
  \<^verbatim>\<open>src/zccp_msg.bnf\<close> (\<open>frame_octets\<close>), which gives that the frame is filled exactly, that no octet
  of the uninitialised frame is sent, and that the decoder recovers the command.
\<close>

section \<open>Encoding: the size of the frame\<close>

definition dict_bytes :: "'h zhash_ops \<Rightarrow> 'h \<Rightarrow> nat" where
  "dict_bytes H h = sum_list (map (\<lambda>(name, item). (1 + length name) + (4 + length item)) (zh_items H h))"

definition string_size :: "cstr option \<Rightarrow> nat" where
  "string_size s = 1 + (case s of None \<Rightarrow> 0 | Some s \<Rightarrow> length s)"

definition headers_size :: "'h zhash_ops \<Rightarrow> 'h zccp_msg \<Rightarrow> nat" where
  "headers_size H self =
     4 + (case headers self of None \<Rightarrow> headers_bytes self | Some h \<Rightarrow> dict_bytes H h)"

definition encode_frame_size :: "'h zhash_ops \<Rightarrow> 'h zccp_msg \<Rightarrow> nat result" where
  "encode_frame_size H self =
     (if msg_id self = ZCCP_MSG_HELLO then
        Inr (2 + 1 + string_size (identifier_field self) + headers_size H self)
      else if msg_id self = ZCCP_MSG_HELLO_OK then Inr (2 + 1 + headers_size H self)
      else if msg_id self = ZCCP_MSG_SUBSCRIBE then
        Inr (2 + 1 + string_size (expression self) + headers_size H self)
      else if msg_id self = ZCCP_MSG_SUBSCRIBE_OK then Inr (2 + 1)
      else if msg_id self = ZCCP_MSG_PUBLISH then
        Inr (2 + 1 + string_size (address self) + headers_size H self)
      else if msg_id self = ZCCP_MSG_DIRECT then
        Inr (2 + 1 + string_size (address self) + headers_size H self)
      else if msg_id self = ZCCP_MSG_DELIVER then
        Inr (2 + 1 + string_size (sender self) + string_size (address self) + headers_size H self)
      else if msg_id self = ZCCP_MSG_GOODBYE then Inr (2 + 1)
      else if msg_id self = ZCCP_MSG_GOODBYE_OK then Inr (2 + 1 + headers_size H self)
      else if msg_id self = ZCCP_MSG_PING then Inr (2 + 1)
      else if msg_id self = ZCCP_MSG_PING_OK then Inr (2 + 1)
      else if msg_id self = ZCCP_MSG_INVALID then Inr (2 + 1)
      else Inl Assertion_failed)"

section \<open>Encoding: filling the frame\<close>

definition put_opt_string :: "cstr option \<Rightarrow> writer \<Rightarrow> writer option" where
  "put_opt_string s w =
     (case s of None \<Rightarrow> put_number1 (0 :: 32 word) w | Some s \<Rightarrow> put_string s w)"

definition put_entry :: "cstr \<times> cstr \<Rightarrow> writer \<Rightarrow> writer option" where
  "put_entry = (\<lambda>(name, item) w. do { w \<leftarrow> put_string name w; put_longstr item w })"

definition put_headers :: "'h zhash_ops \<Rightarrow> 'h option \<Rightarrow> writer \<Rightarrow> writer option" where
  "put_headers H hs w =
     (case hs of
        None \<Rightarrow> put_number4 (0 :: 32 word) w
      | Some h \<Rightarrow> do {
          w \<leftarrow> put_number4 (of_nat (zh_size H h) :: 64 word) w;
          put_all put_entry (zh_items H h) w })"

definition encode_fields :: "'h zhash_ops \<Rightarrow> 'h zccp_msg \<Rightarrow> writer \<Rightarrow> writer option" where
  "encode_fields H self w =
     (if msg_id self = ZCCP_MSG_HELLO then do {
        w \<leftarrow> put_opt_string (identifier_field self) w;
        put_headers H (headers self) w }
      else if msg_id self = ZCCP_MSG_HELLO_OK then put_headers H (headers self) w
      else if msg_id self = ZCCP_MSG_SUBSCRIBE then do {
        w \<leftarrow> put_opt_string (expression self) w;
        put_headers H (headers self) w }
      else if msg_id self = ZCCP_MSG_SUBSCRIBE_OK then Some w
      else if msg_id self = ZCCP_MSG_PUBLISH then do {
        w \<leftarrow> put_opt_string (address self) w;
        put_headers H (headers self) w }
      else if msg_id self = ZCCP_MSG_DIRECT then do {
        w \<leftarrow> put_opt_string (address self) w;
        put_headers H (headers self) w }
      else if msg_id self = ZCCP_MSG_DELIVER then do {
        w \<leftarrow> put_opt_string (sender self) w;
        w \<leftarrow> put_opt_string (address self) w;
        put_headers H (headers self) w }
      else if msg_id self = ZCCP_MSG_GOODBYE then Some w
      else if msg_id self = ZCCP_MSG_GOODBYE_OK then put_headers H (headers self) w
      else Some w)"

definition zframe_new :: "(nat \<Rightarrow> byte) \<Rightarrow> nat \<Rightarrow> writer" where
  "zframe_new junk n = \<lparr>w_data = map junk [0..<n], w_needle = 0\<rparr>"

definition encode_frame :: "'h zhash_ops \<Rightarrow> 'h zccp_msg \<Rightarrow> writer \<Rightarrow> writer option" where
  "encode_frame H self w = do {
     w \<leftarrow> put_number2 (0xAAA0 OR 10 :: 32 word) w;
     w \<leftarrow> put_number1 (word_of_int (msg_id self) :: 32 word) w;
     encode_fields H self w }"

definition encode_content :: "'h zccp_msg \<Rightarrow> zmsg" where
  "encode_content self =
     (if msg_id self = ZCCP_MSG_PUBLISH then
        (case content self of None \<Rightarrow> [[]] | Some frames \<Rightarrow> frames)
      else if msg_id self = ZCCP_MSG_DIRECT then
        (case content self of None \<Rightarrow> [[]] | Some frames \<Rightarrow> frames)
      else if msg_id self = ZCCP_MSG_DELIVER then
        (case content self of None \<Rightarrow> [[]] | Some frames \<Rightarrow> frames)
      else [])"

definition zccp_msg_encode :: "('h, 'r) czmq \<Rightarrow> 'h zccp_msg \<Rightarrow> zmsg result" where
  "zccp_msg_encode Z self =
     rbind (encode_frame_size (hash Z) self) (\<lambda>frame_size.
     rbind (of_option Frame_overrun (encode_frame (hash Z) self (zframe_new (fill Z) frame_size))) (\<lambda>w.
     Inr (w_data w # encode_content self)))"

section \<open>Decoding\<close>

fun get_headers_loop :: "'h zhash_ops \<Rightarrow> nat \<Rightarrow> 'h \<Rightarrow> reader \<Rightarrow> ('h \<times> reader) option" where
  "get_headers_loop H 0 h r = Some (h, r)"
| "get_headers_loop H (Suc hash_size) h r = do {
     (key, r) \<leftarrow> get_string r;
     (value, r) \<leftarrow> get_longstr r;
     get_headers_loop H hash_size (zh_insert H h key value) r }"

definition get_headers :: "'h zhash_ops \<Rightarrow> reader \<Rightarrow> ('h \<times> reader) option" where
  "get_headers H r = do {
     (hash_size, r) \<leftarrow> get_number4 r;
     get_headers_loop H (unat hash_size) (zh_new H) r }"

definition decode_fields :: "'h zhash_ops \<Rightarrow> 'h zccp_msg \<Rightarrow> zmsg \<Rightarrow> reader \<Rightarrow> 'h zccp_msg option" where
  "decode_fields H self msg r =
     (if msg_id self = ZCCP_MSG_HELLO then do {
        (s, r) \<leftarrow> get_string r;
        (h, r) \<leftarrow> get_headers H r;
        Some (self\<lparr>identifier_field := Some s, headers := Some h\<rparr>) }
      else if msg_id self = ZCCP_MSG_HELLO_OK then do {
        (h, r) \<leftarrow> get_headers H r;
        Some (self\<lparr>headers := Some h\<rparr>) }
      else if msg_id self = ZCCP_MSG_SUBSCRIBE then do {
        (s, r) \<leftarrow> get_string r;
        (h, r) \<leftarrow> get_headers H r;
        Some (self\<lparr>expression := Some s, headers := Some h\<rparr>) }
      else if msg_id self = ZCCP_MSG_SUBSCRIBE_OK then Some self
      else if msg_id self = ZCCP_MSG_PUBLISH then do {
        (s, r) \<leftarrow> get_string r;
        (h, r) \<leftarrow> get_headers H r;
        Some (self\<lparr>address := Some s, headers := Some h, content := Some msg\<rparr>) }
      else if msg_id self = ZCCP_MSG_DIRECT then do {
        (s, r) \<leftarrow> get_string r;
        (h, r) \<leftarrow> get_headers H r;
        Some (self\<lparr>address := Some s, headers := Some h, content := Some msg\<rparr>) }
      else if msg_id self = ZCCP_MSG_DELIVER then do {
        (s, r) \<leftarrow> get_string r;
        (a, r) \<leftarrow> get_string r;
        (h, r) \<leftarrow> get_headers H r;
        Some (self\<lparr>sender := Some s, address := Some a, headers := Some h, content := Some msg\<rparr>) }
      else if msg_id self = ZCCP_MSG_GOODBYE then Some self
      else if msg_id self = ZCCP_MSG_GOODBYE_OK then do {
        (h, r) \<leftarrow> get_headers H r;
        Some (self\<lparr>headers := Some h\<rparr>) }
      else if msg_id self = ZCCP_MSG_PING then Some self
      else if msg_id self = ZCCP_MSG_PING_OK then Some self
      else if msg_id self = ZCCP_MSG_INVALID then Some self
      else None)"

definition open_frame :: "frame \<Rightarrow> reader" where
  "open_frame f = \<lparr>r_data = f, r_needle = 0, r_ceiling = length f\<rparr>"

definition zccp_msg_decode :: "'h zhash_ops \<Rightarrow> zmsg option \<Rightarrow> 'h zccp_msg option" where
  "zccp_msg_decode H msg_p =
     (case msg_p of None \<Rightarrow> None
      | Some [] \<Rightarrow> None
      | Some (frame # msg) \<Rightarrow> do {
          (signature, r) \<leftarrow> get_number2 (open_frame frame);
          if signature \<noteq> 0xAAA0 OR 10 then None
          else do {
            (i, r) \<leftarrow> get_number1 r;
            decode_fields H (zccp_msg_new (uint i)) msg r } })"

section \<open>Sockets\<close>

text \<open>
  \<open>router\<close> says whether the socket is a \<open>ROUTER\<close>, whose messages start with the routing
  identifier of the peer.  \<open>None\<close> as the input is an interrupted \<open>zmsg_recv\<close>; \<open>None\<close> as the result is
  the null message.  \<open>zccp_msg_recv_nowait\<close> has the same body, \<open>None\<close> also meaning that no message
  was waiting.
\<close>

definition zccp_msg_recv :: "'h zhash_ops \<Rightarrow> bool \<Rightarrow> zmsg option \<Rightarrow> 'h zccp_msg option" where
  "zccp_msg_recv H router input = do {
     msg \<leftarrow> input;
     (rid, msg) \<leftarrow> (if router then
                      (case msg of [] \<Rightarrow> None | f # msg \<Rightarrow> if msg = [] then None else Some (Some f, msg))
                    else Some (None, msg));
     m \<leftarrow> zccp_msg_decode H (Some msg);
     Some (if router then m\<lparr>routing_id := rid\<rparr> else m) }"

definition zccp_msg_recv_nowait :: "'h zhash_ops \<Rightarrow> bool \<Rightarrow> zmsg option \<Rightarrow> 'h zccp_msg option" where
  "zccp_msg_recv_nowait H router input = do {
     msg \<leftarrow> input;
     (rid, msg) \<leftarrow> (if router then
                      (case msg of [] \<Rightarrow> None | f # msg \<Rightarrow> if msg = [] then None else Some (Some f, msg))
                    else Some (None, msg));
     m \<leftarrow> zccp_msg_decode H (Some msg);
     Some (if router then m\<lparr>routing_id := rid\<rparr> else m) }"

text \<open>The result of sending is the message handed to \<open>zmsg_send\<close>.\<close>

definition zccp_msg_send :: "('h, 'r) czmq \<Rightarrow> 'h zccp_msg \<Rightarrow> bool \<Rightarrow> zmsg result" where
  "zccp_msg_send Z self router =
     rbind (zccp_msg_encode Z (self\<lparr>routing_id := None\<rparr>)) (\<lambda>msg.
       if router then
         (case routing_id self of None \<Rightarrow> Inl Assertion_failed | Some f \<Rightarrow> Inr (f # msg))
       else Inr msg)"

definition zccp_msg_send_again :: "('h, 'r) czmq \<Rightarrow> 'h zccp_msg \<Rightarrow> bool \<Rightarrow> zmsg result" where
  "zccp_msg_send_again Z self router =
     (case zccp_msg_dup (hash Z) (Some self) of
        None \<Rightarrow> Inl Assertion_failed
      | Some copy \<Rightarrow> zccp_msg_send Z copy router)"

section \<open>The grammar\<close>

text \<open>
  The octet strings of \<^verbatim>\<open>src/zccp_msg.bnf\<close>: a \<open>string\<close> is a \<open>number-1\<close> and the text, a \<open>longstr\<close> a
  \<open>number-4\<close> and the text, a \<open>dictionary\<close> a \<open>number-4\<close> and that many name/value pairs, and every
  command starts with the signature and its number.  \<open>entries_of\<close> lists the entries of a dictionary
  in the order in which the library visits them.
\<close>

definition entries_of :: "'h zhash_ops \<Rightarrow> 'h option \<Rightarrow> (cstr \<times> cstr) list" where
  "entries_of H h = (case h of None \<Rightarrow> [] | Some h \<Rightarrow> zh_items H h)"

definition entry_octets :: "cstr \<times> cstr \<Rightarrow> byte list" where
  "entry_octets = (\<lambda>(name, value). sized_octets 1 name @ sized_octets 4 value)"

definition dictionary_octets :: "(cstr \<times> cstr) list \<Rightarrow> byte list" where
  "dictionary_octets es = net_number 4 (length es) @ concat (map entry_octets es)"

definition fields_octets :: "'h zhash_ops \<Rightarrow> 'h zccp_msg \<Rightarrow> byte list" where
  "fields_octets H m =
     (let dict = dictionary_octets (entries_of H (headers m));
          str = (\<lambda>s. sized_octets 1 (text_of s))
      in if msg_id m = ZCCP_MSG_HELLO then str (identifier_field m) @ dict
         else if msg_id m = ZCCP_MSG_HELLO_OK then dict
         else if msg_id m = ZCCP_MSG_SUBSCRIBE then str (expression m) @ dict
         else if msg_id m = ZCCP_MSG_PUBLISH then str (address m) @ dict
         else if msg_id m = ZCCP_MSG_DIRECT then str (address m) @ dict
         else if msg_id m = ZCCP_MSG_DELIVER then str (sender m) @ str (address m) @ dict
         else if msg_id m = ZCCP_MSG_GOODBYE_OK then dict
         else [])"

definition frame_octets :: "'h zhash_ops \<Rightarrow> 'h zccp_msg \<Rightarrow> byte list" where
  "frame_octets H m = [0xAA, 0xAA, word_of_int (msg_id m)] @ fields_octets H m"

section \<open>The encoder implements the grammar\<close>

lemma put_opt_string_octets: "put_opt_string s w = put_octets (sized_octets 1 (text_of s)) w"
  by (cases s) (simp_all add: put_opt_string_def put_number1_def put_string_octets sized_octets_def)

lemma put_entries_octets:
  "w_needle w \<le> length (w_data w) \<Longrightarrow> put_all put_entry es w = put_octets (concat (map entry_octets es)) w"
  using entry.pair.put_all_octets [of w es] by (simp add: put_entry_def entry_octets_def)

lemma put_octets_then:
  "put_octets a w = Some w' \<Longrightarrow> w_needle w' \<le> length (w_data w')"
  by (auto simp: put_octets_Some_iff)

lemma put_headers_octets:
  assumes "zhash_api H"
  shows "put_headers H h w = put_octets (dictionary_octets (entries_of H h)) w"
proof (cases h)
  case None
  then show ?thesis
    by (simp add: put_headers_def put_number4_net dictionary_octets_def entries_of_def)
next
  case (Some d)
  have size: "net_number 4 (unat (of_nat (zh_size H d) :: 64 word)) = net_number 4 (length (zh_items H d))"
    using net_number_size_t [of 4] by (simp add: zhash_api.size_items [OF assms])
  have "put_headers H h w
      = Option.bind (put_octets (net_number 4 (length (zh_items H d))) w) (put_all put_entry (zh_items H d))"
    by (simp only: Some put_headers_def option.case put_number4_net size)
  also have "\<dots> = Option.bind (put_octets (net_number 4 (length (zh_items H d))) w)
      (put_octets (concat (map entry_octets (zh_items H d))))"
    by (rule bind_option_cong) (auto intro: put_entries_octets dest: put_octets_then)
  finally show ?thesis
    by (simp add: put_octets_append dictionary_octets_def entries_of_def Some)
qed

lemma encode_fields_octets:
  assumes "zhash_api H" and "w_needle w \<le> length (w_data w)"
  shows "encode_fields H self w = put_octets (fields_octets H self) w"
proof -
  have "put_headers H h = put_octets (dictionary_octets (entries_of H h))" for h
    by (rule ext) (rule put_headers_octets [OF assms(1)])
  then show ?thesis
    using assms(2)
    by (simp add: encode_fields_def fields_octets_def Let_def put_opt_string_octets put_octets_append)
qed

lemma encode_frame_octets:
  assumes "zhash_api H"
  shows "encode_frame H self w = put_octets (frame_octets H self) w"
proof -
  have sig: "put_number2 (0xAAA0 OR 10 :: 32 word) w = put_octets [0xAA, 0xAA] w" for w
    by (simp add: put_number2_def)
  have num: "put_number1 (word_of_int i :: 32 word) w = put_octets [word_of_int i] w" for i w
  proof -
    have "(ucast (word_of_int i :: 32 word) :: byte) = word_of_int i"
      by (intro bit_word_eqI) (simp add: bit_simps)
    then show ?thesis by (simp add: put_number1_def)
  qed
  have "encode_frame H self w = Option.bind (put_octets ([0xAA, 0xAA] @ [word_of_int (msg_id self)]) w)
      (encode_fields H self)"
    by (simp only: encode_frame_def sig num put_octets_append [symmetric] Option.bind_assoc)
  also have "\<dots> = Option.bind (put_octets ([0xAA, 0xAA] @ [word_of_int (msg_id self)]) w)
      (put_octets (fields_octets H self))"
    by (rule bind_option_cong) (auto intro!: encode_fields_octets [OF assms] dest: put_octets_then)
  finally show ?thesis by (simp add: put_octets_append frame_octets_def)
qed

text \<open>The computed size is the length of the octets written.\<close>

lemma length_sized_octets [simp]: "length (sized_octets k s) = k + length s"
  by (simp add: sized_octets_def)

lemma length_entry_octets: "length (entry_octets e) = (case e of (name, item) \<Rightarrow> (1 + length name) + (4 + length item))"
  by (cases e) (simp add: entry_octets_def)

lemma length_dictionary_octets:
  "msg_ok m \<Longrightarrow> length (dictionary_octets (entries_of H (headers m))) = headers_size H m"
  by (auto simp: dictionary_octets_def headers_size_def dict_bytes_def entries_of_def msg_ok_def
      length_concat comp_def length_entry_octets split: option.split)

lemma string_size_text: "string_size s = 1 + length (text_of s)"
  by (cases s) (simp_all add: string_size_def)

lemma frame_size_octets:
  assumes "msg_ok m" and "1 \<le> msg_id m \<and> msg_id m \<le> 12"
  shows "encode_frame_size H m = Inr (length (frame_octets H m))"
  using assms(2) unfolding known_id_iff
  by (elim disjE)
    (simp_all add: encode_frame_size_def frame_octets_def fields_octets_def Let_def string_size_text
      length_dictionary_octets [OF assms(1)])

lemma encode_content_frames:
  "encode_content m = (if msg_id m \<in> {5, 6, 7} then frames_of (content m) else [])"
  by (auto simp: encode_content_def frames_of_def)

lemma encode_is_grammar:
  assumes "zhash_api (hash Z)" and "msg_ok m" and "1 \<le> msg_id m \<and> msg_id m \<le> 12"
  shows "zccp_msg_encode Z m = Inr (frame_octets (hash Z) m # encode_content m)"
proof -
  let ?bs = "frame_octets (hash Z) m"
  have "put_octets ?bs (zframe_new (fill Z) (length ?bs)) = Some \<lparr>w_data = ?bs, w_needle = length ?bs\<rparr>"
    by (rule put_octets_fill) (simp_all add: zframe_new_def)
  then show ?thesis
    by (simp add: zccp_msg_encode_def frame_size_octets [OF assms(2,3)] encode_frame_octets [OF assms(1)])
qed

lemma encode_unknown:
  "\<not> (1 \<le> msg_id m \<and> msg_id m \<le> 12) \<Longrightarrow> zccp_msg_encode Z m = Inl Assertion_failed"
  unfolding known_id_iff by (simp add: zccp_msg_encode_def encode_frame_size_def)

section \<open>The decoder reads the grammar\<close>

abbreviation get_entry :: "reader \<Rightarrow> ((cstr \<times> cstr) \<times> reader) option" where
  "get_entry \<equiv> \<lambda>r. Option.bind (get_string r) (\<lambda>(name, r).
     Option.bind (get_longstr r) (\<lambda>(value, r). Some ((name, value), r)))"

definition entry_fits :: "cstr \<times> cstr \<Rightarrow> bool" where
  "entry_fits = (\<lambda>(name, value). sized_fits 1 name \<and> sized_fits 4 value)"

definition dict_new :: "'h zhash_ops \<Rightarrow> (cstr \<times> cstr) list \<Rightarrow> 'h" where
  "dict_new H es = foldl (\<lambda>h (k, v). zh_insert H h k v) (zh_new H) es"

lemma get_headers_loop_many:
  "get_headers_loop H n h r =
     do { (es, r) \<leftarrow> get_many get_entry n r; Some (foldl (\<lambda>h (k, v). zh_insert H h k v) h es, r) }"
proof (induction n arbitrary: h r)
  case 0
  show ?case by simp
next
  case (Suc n)
  show ?case
    by (auto simp: Suc.IH intro!: bind_option_cong split: prod.splits)
qed

lemma get_headers_octets:
  assumes ok: "reader_ok r" and fits: "\<And>e. e \<in> set es \<Longrightarrow> entry_fits e" and len: "length es < 2 ^ 32"
    and rest: "rest r = dictionary_octets es @ zs"
  shows "get_headers H r = Some (dict_new H es, advance (length (dictionary_octets es)) r)"
proof -
  have unat_len: "unat (of_nat (length es) :: 32 word) = length es"
    using len by (simp add: unat_of_nat take_bit_nat_eq_self)
  have rest1: "rest r = net_number 4 (unat (of_nat (length es) :: 32 word)) @ concat (map entry_octets es) @ zs"
    by (simp add: rest dictionary_octets_def unat_len)
  note n = number4.get_octets_of [OF ok TrueI rest1]
  have "get_many get_entry (length es) (advance 4 r)
      = Some (es, advance (length (concat (map entry_octets es))) (advance 4 r))"
    unfolding entry_octets_def
  proof (rule entry.pair.get_many_octets)
    show "reader_ok (advance 4 r)" using number4.get_reader_ok [OF ok n] by simp
    show "case e of (x, y) \<Rightarrow> sized_fits 1 x \<and> sized_fits 4 y" if "e \<in> set es" for e
      using fits [OF that] by (simp add: entry_fits_def)
    show "rest (advance 4 r) = concat (map (\<lambda>(name, value). sized_octets 1 name @ sized_octets 4 value) es) @ zs"
      by (simp add: rest_advance rest1 entry_octets_def)
  qed
  then show ?thesis
    using n by (simp add: get_headers_def unat_len get_headers_loop_many dict_new_def dictionary_octets_def)
qed

lemma get_headers_within:
  assumes ok: "reader_ok r" and get: "get_headers H r = Some (h, r')"
  shows "\<exists>es. h = dict_new H es \<and> (\<forall>e \<in> set es. entry_fits e) \<and> length es < 2 ^ 32
    \<and> r_needle r + 4 + length es \<le> r_needle r' \<and> reader_ok r' \<and> r_data r' = r_data r"
proof -
  from get obtain n r1 es where n: "get_number4 r = Some (n, r1)"
    and es: "get_many get_entry (unat n) r1 = Some (es, r')" and h: "h = dict_new H es"
    by (auto simp: get_headers_def get_headers_loop_many dict_new_def split: bind_splits)
  have r1: "r1 = advance 4 r" using n by (auto simp: get_number4_def split: if_splits)
  have "length es = unat n \<and> (\<forall>e \<in> set es. case e of (x, y) \<Rightarrow> sized_fits 1 x \<and> sized_fits 4 y)
      \<and> reader_ok r' \<and> r_data r' = r_data r1 \<and> r_needle r1 + unat n \<le> r_needle r'"
    by (rule entry.pair.get_many_within [OF number4.get_reader_ok [OF ok n] es])
  then show ?thesis
    using unsigned_less [of n, where 'a = nat] by (auto simp: h r1 entry_fits_def)
qed

text \<open>The parts of a message that its encoding depends on fit their length fields.\<close>

definition opt_fits :: "cstr option \<Rightarrow> bool" where
  "opt_fits s \<longleftrightarrow> sized_fits 1 (text_of s)"

definition dict_fits :: "'h zhash_ops \<Rightarrow> 'h option \<Rightarrow> bool" where
  "dict_fits H h \<longleftrightarrow> (\<forall>e \<in> set (entries_of H h). entry_fits e) \<and> length (entries_of H h) < 2 ^ 32"

definition fields_fit :: "'h zhash_ops \<Rightarrow> 'h zccp_msg \<Rightarrow> bool" where
  "fields_fit H m \<longleftrightarrow>
     (msg_id m = ZCCP_MSG_HELLO \<longrightarrow> opt_fits (identifier_field m)) \<and>
     (msg_id m = ZCCP_MSG_SUBSCRIBE \<longrightarrow> opt_fits (expression m)) \<and>
     (msg_id m \<in> {ZCCP_MSG_PUBLISH, ZCCP_MSG_DIRECT, ZCCP_MSG_DELIVER} \<longrightarrow> opt_fits (address m)) \<and>
     (msg_id m = ZCCP_MSG_DELIVER \<longrightarrow> opt_fits (sender m)) \<and>
     (msg_id m \<in> {ZCCP_MSG_HELLO, ZCCP_MSG_HELLO_OK, ZCCP_MSG_SUBSCRIBE, ZCCP_MSG_PUBLISH,
        ZCCP_MSG_DIRECT, ZCCP_MSG_DELIVER, ZCCP_MSG_GOODBYE_OK} \<longrightarrow> dict_fits H (headers m))"

lemma get_headers_then:
  assumes "reader_ok r" and "dict_fits H h" and "rest r = dictionary_octets (entries_of H h)"
  shows "Option.bind (get_headers H r) (\<lambda>(d, r). f d) = f (dict_new H (entries_of H h))"
  using get_headers_octets [of r "entries_of H h" "[]" H] assms by (simp add: dict_fits_def)

lemma get_string_then:
  assumes ok: "reader_ok r" and fits: "opt_fits s" and rest: "rest r = sized_octets 1 (text_of s) @ zs"
    and cont: "\<And>r'. reader_ok r' \<Longrightarrow> rest r' = zs \<Longrightarrow> k (text_of s) r' = y"
  shows "Option.bind (get_string r) (\<lambda>(x, r). k x r) = y"
proof -
  have g: "get_string r = Some (text_of s, advance (length (sized_octets 1 (text_of s))) r)"
    using string.field.get_octets_of [OF ok _ rest] fits by (simp add: opt_fits_def)
  then show ?thesis
    using cont [OF string.field.get_reader_ok [OF ok g]] by (simp add: rest_advance rest del: length_sized_octets)
qed

lemma decode_open:
  assumes "frame = [0xAA, 0xAA, b] @ fs"
  shows "\<exists>r. zccp_msg_decode H (Some (frame # msg)) = decode_fields H (zccp_msg_new (uint b)) msg r
      \<and> reader_ok r \<and> rest r = fs"
proof -
  let ?r = "open_frame frame"
  have "get_number2 ?r = Some (0xAAAA, advance 2 ?r)"
    by (simp add: get_number2_def open_frame_def assms peek_def)
  moreover have "get_number1 (advance 2 ?r) = Some (b, advance 3 ?r)"
    by (simp add: get_number1_def open_frame_def assms peek_def advance_def numeral_eq_Suc)
  ultimately show ?thesis
    by (intro exI [of _ "advance 3 ?r"])
      (simp add: zccp_msg_decode_def reader_ok_def rest_def open_frame_def assms)
qed

text \<open>
  What the decoder builds from the octets of a message: the same strings, the dictionary of the same
  entries, the content frames.
\<close>

definition received :: "'h zhash_ops \<Rightarrow> 'h zccp_msg \<Rightarrow> zmsg \<Rightarrow> 'h zccp_msg" where
  "received H m msg =
     (let dict = Some (dict_new H (entries_of H (headers m))); str = (\<lambda>s. Some (text_of s));
          self = zccp_msg_new (msg_id m)
      in if msg_id m = ZCCP_MSG_HELLO then
           self\<lparr>identifier_field := str (identifier_field m), headers := dict\<rparr>
         else if msg_id m = ZCCP_MSG_SUBSCRIBE then
           self\<lparr>expression := str (expression m), headers := dict\<rparr>
         else if msg_id m = ZCCP_MSG_PUBLISH \<or> msg_id m = ZCCP_MSG_DIRECT then
           self\<lparr>address := str (address m), headers := dict, content := Some msg\<rparr>
         else if msg_id m = ZCCP_MSG_DELIVER then
           self\<lparr>sender := str (sender m), address := str (address m), headers := dict, content := Some msg\<rparr>
         else if msg_id m = ZCCP_MSG_HELLO_OK \<or> msg_id m = ZCCP_MSG_GOODBYE_OK then
           self\<lparr>headers := dict\<rparr>
         else self)"

lemma get_string_headers_then:
  assumes "reader_ok r" and "rest r = sized_octets 1 (text_of s) @ dictionary_octets (entries_of H h)"
    and "opt_fits s" and "dict_fits H h"
  shows "Option.bind (get_string r) (\<lambda>(x, r). Option.bind (get_headers H r) (\<lambda>(d, r). k x d))
    = k (text_of s) (dict_new H (entries_of H h))"
  by (rule get_string_then [OF assms(1,3,2)]) (simp add: get_headers_then [OF _ assms(4)])

lemma get_strings_headers_then:
  assumes "reader_ok r"
    and "rest r = sized_octets 1 (text_of s) @ sized_octets 1 (text_of a) @ dictionary_octets (entries_of H h)"
    and "opt_fits s" and "opt_fits a" and "dict_fits H h"
  shows "Option.bind (get_string r) (\<lambda>(x, r). Option.bind (get_string r) (\<lambda>(y, r).
      Option.bind (get_headers H r) (\<lambda>(d, r). k x y d)))
    = k (text_of s) (text_of a) (dict_new H (entries_of H h))"
  by (rule get_string_then [OF assms(1,3,2)]) (rule get_string_headers_then [OF _ _ assms(4,5)])

lemma decode_fields_octets:
  assumes ok: "reader_ok r" and fit: "fields_fit H m" and id: "1 \<le> msg_id m \<and> msg_id m \<le> 12"
    and rest: "rest r = fields_octets H m"
  shows "decode_fields H (zccp_msg_new (msg_id m)) msg r = Some (received H m msg)"
proof -
  have new: "msg_id (zccp_msg_new i) = i" for i by (simp add: zccp_msg_new_def)
  show ?thesis
    using id rest fit unfolding known_id_iff
    by (elim disjE)
      (simp_all add: decode_fields_def new received_def fields_octets_def Let_def fields_fit_def
        get_headers_then [OF ok] get_string_headers_then [OF ok] get_strings_headers_then [OF ok]
        del: One_nat_def bind_split)
qed

lemma decode_encoded:
  assumes "fields_fit H m" and "1 \<le> msg_id m \<and> msg_id m \<le> 12"
  shows "zccp_msg_decode H (Some (frame_octets H m # msg)) = Some (received H m msg)"
proof -
  have "frame_octets H m = [0xAA, 0xAA, word_of_int (msg_id m)] @ fields_octets H m"
    by (rule frame_octets_def)
  from decode_open [OF this, of H msg] obtain r
    where d: "zccp_msg_decode H (Some (frame_octets H m # msg))
        = decode_fields H (zccp_msg_new (uint (word_of_int (msg_id m) :: byte))) msg r"
      and r: "reader_ok r" "rest r = fields_octets H m" by blast
  have "uint (word_of_int (msg_id m) :: byte) = msg_id m"
    using assms(2) by (simp add: uint_word_of_int_eq take_bit_int_eq_self)
  then show ?thesis
    using decode_fields_octets [OF r(1) assms r(2)] by (simp add: d)
qed

context zhash_api
begin

lemma lookup_dict_new: "zh_lookup H (dict_new H es) = map_of es"
  by (simp add: dict_new_def lookup_insert_all_new)

lemma dict_of_received: "zh_lookup H (dict_new H (entries_of H h)) = dict_of H h"
  by (cases h) (simp_all add: lookup_dict_new entries_of_def items_lookup)

lemma dict_fits_new:
  "(\<forall>e \<in> set es. entry_fits e) \<Longrightarrow> length es < 2 ^ 32 \<Longrightarrow> dict_fits H (Some (dict_new H es))"
  using items_insert_all_new [of _ _ es] size_insert_all_new [of es]
  by (auto simp: dict_fits_def entries_of_def dict_new_def size_items)

lemma command_of_received:
  assumes "1 \<le> msg_id m \<and> msg_id m \<le> 12"
  shows "command_of H (received H m (encode_content m)) = command_of H m"
  using assms unfolding known_id_iff
  by (elim disjE)
    (simp_all add: command_of_def received_def zccp_msg_new_def Let_def dict_of_received
      encode_content_frames)

text \<open>Everything the decoder accepts fits its length fields, and can be encoded again.\<close>

lemma get_headers_fits:
  "reader_ok r \<Longrightarrow> get_headers H r = Some (h, r') \<Longrightarrow> dict_fits H (Some h)"
  using get_headers_within [of r H h r'] by (auto intro: dict_fits_new)

lemma get_string_fits:
  "reader_ok r \<Longrightarrow> get_string r = Some (s, r') \<Longrightarrow> opt_fits (Some s) \<and> reader_ok r'"
  using string.field.get_fits string.field.get_reader_ok by (simp add: opt_fits_def)

lemma get_headers_size:
  assumes "reader_ok r" and "get_headers H r = Some (h, r')"
  shows "r_needle r + 4 + zh_size H h \<le> r_ceiling r"
proof -
  from get_headers_within [OF assms] obtain es where h: "h = dict_new H es"
    and le: "r_needle r + 4 + length es \<le> r_needle r'" and ok: "reader_ok r'"
    and same: "r_data r' = r_data r" by blast
  have "zh_size H h \<le> length es" unfolding h dict_new_def by (rule size_insert_all_new)
  moreover have "r_needle r' \<le> r_ceiling r" using ok same assms(1) by (simp add: reader_ok_def)
  ultimately show ?thesis using le by linarith
qed

lemma headers_then_fits:
  assumes "reader_ok r" and "Option.bind (get_headers H r) (\<lambda>(d, r). Some (k d)) = Some m"
  shows "\<exists>d. m = k d \<and> dict_fits H (Some d) \<and> r_needle r + 4 + zh_size H d \<le> r_ceiling r"
proof -
  from assms(2) obtain d r' where d: "get_headers H r = Some (d, r')" and m: "m = k d"
    by (auto simp: bind_eq_Some_conv)
  show ?thesis
    using get_headers_fits [OF assms(1) d] get_headers_size [OF assms(1) d] m by blast
qed

lemma get_string_onwards:
  assumes "reader_ok r" and "get_string r = Some (x, r')"
  shows "opt_fits (Some x) \<and> reader_ok r' \<and> r_needle r \<le> r_needle r' \<and> r_ceiling r' = r_ceiling r"
  using get_string_fits [OF assms] string.field.get_progress [OF assms] string.field.get_same_data [OF assms]
  by simp

lemma string_headers_then_fits:
  assumes "reader_ok r"
    and "Option.bind (get_string r) (\<lambda>(x, r). Option.bind (get_headers H r) (\<lambda>(d, r). Some (k x d))) = Some m"
  shows "\<exists>x d. m = k x d \<and> opt_fits (Some x) \<and> dict_fits H (Some d)
    \<and> r_needle r + 4 + zh_size H d \<le> r_ceiling r"
proof -
  from assms(2) obtain x r1 where x: "get_string r = Some (x, r1)"
    and then_m: "Option.bind (get_headers H r1) (\<lambda>(d, r). Some (k x d)) = Some m"
    by (auto simp: bind_eq_Some_conv)
  note o = get_string_onwards [OF assms(1) x]
  from o headers_then_fits [OF _ then_m] show ?thesis by fastforce
qed

lemma strings_headers_then_fits:
  assumes "reader_ok r"
    and "Option.bind (get_string r) (\<lambda>(x, r). Option.bind (get_string r) (\<lambda>(y, r).
      Option.bind (get_headers H r) (\<lambda>(d, r). Some (k x y d)))) = Some m"
  shows "\<exists>x y d. m = k x y d \<and> opt_fits (Some x) \<and> opt_fits (Some y) \<and> dict_fits H (Some d)
    \<and> r_needle r + 4 + zh_size H d \<le> r_ceiling r"
proof -
  from assms(2) obtain x r1 where x: "get_string r = Some (x, r1)"
    and then_m: "Option.bind (get_string r1) (\<lambda>(y, r).
      Option.bind (get_headers H r) (\<lambda>(d, r). Some (k x y d))) = Some m"
    by (auto simp: bind_eq_Some_conv)
  note o = get_string_onwards [OF assms(1) x]
  from o string_headers_then_fits [OF _ then_m] show ?thesis by fastforce
qed

lemma decode_fields_fit:
  assumes ok: "reader_ok r" and dec: "decode_fields H (zccp_msg_new i) msg r = Some m"
  shows "1 \<le> i \<and> i \<le> 12 \<and> msg_id m = i \<and> msg_ok m \<and> fields_fit H m \<and> routing_id m = None
    \<and> (\<forall>h. headers m = Some h \<longrightarrow> r_needle r + 4 + zh_size H h \<le> r_ceiling r)"
proof -
  have new: "msg_id (zccp_msg_new i) = i" by (simp add: zccp_msg_new_def)
  have id: "1 \<le> i \<and> i \<le> 12"
    using dec unfolding known_id_iff by (auto simp: decode_fields_def new split: if_splits)
  moreover have "msg_id m = i \<and> msg_ok m \<and> fields_fit H m \<and> routing_id m = None
    \<and> (\<forall>h. headers m = Some h \<longrightarrow> r_needle r + 4 + zh_size H h \<le> r_ceiling r)"
    using id dec unfolding known_id_iff
    by (elim disjE)
      (auto simp: decode_fields_def new fields_fit_def msg_ok_def zccp_msg_new_def
        dest!: headers_then_fits [OF ok] string_headers_then_fits [OF ok]
          strings_headers_then_fits [OF ok])
  ultimately show ?thesis by simp
qed

lemma two_digits:
  assumes "a * 256 + b = c * 256 + d" and "b < (256 :: nat)" and "d < 256"
  shows "a = c \<and> b = d"
proof -
  have "(a * 256 + b) div 256 = a" "(c * 256 + d) div 256 = c" using assms(2,3) by simp_all
  with assms(1) show ?thesis by auto
qed

lemma decode_some:
  assumes "zccp_msg_decode H (Some msg) = Some m"
  obtains frame content r where "msg = frame # content" and "length frame \<ge> 3"
    and "take 2 frame = [0xAA, 0xAA]"
    and "decode_fields H (zccp_msg_new (uint (frame ! 2))) content r = Some m" and "reader_ok r"
    and "r_needle r = 3" and "r_ceiling r = length frame"
proof -
  from assms obtain frame content where msg: "msg = frame # content"
    by (cases msg) (auto simp: zccp_msg_decode_def)
  let ?r = "open_frame frame"
  have ok: "reader_ok ?r" by (simp add: reader_ok_def open_frame_def)
  from assms obtain sig r1 i r2 where g2: "get_number2 ?r = Some (sig, r1)" and sig: "sig = 0xAAAA"
    and g1: "get_number1 r1 = Some (i, r2)"
    and dec: "decode_fields H (zccp_msg_new (uint i)) content r2 = Some m"
    by (auto simp: zccp_msg_decode_def msg split: bind_splits if_splits)
  have r1: "r1 = advance 2 ?r" "2 \<le> length frame"
    and v: "push_bit 8 (ucast (frame ! 0)) + ucast (frame ! 1) = (0xAAAA :: 16 word)"
    using g2 sig by (auto simp: get_number2_def open_frame_def peek_def split: if_splits)
  have r2: "3 \<le> length frame" "i = frame ! 2" "r2 = advance 3 ?r"
    using g1 by (auto simp: get_number1_def r1 open_frame_def peek_def numeral_2_eq_2 split: if_splits)
  have "net_value [frame ! 0, frame ! 1] = 0xAAAA"
    using arg_cong [OF v, of unat] by (simp only: unat_number2) simp
  then have "unat (frame ! 0) * 256 + unat (frame ! 1) = 0xAA * 256 + 0xAA"
    by (simp add: net_value_def)
  then have "unat (frame ! 0) = 0xAA \<and> unat (frame ! 1) = 0xAA"
    by (rule two_digits) (simp_all add: unat_octet_less)
  then have "frame ! 0 = 0xAA" "frame ! 1 = 0xAA"
    by (auto simp: word_unat_eq_iff)
  moreover have "take 2 frame = [frame ! 0, frame ! 1]"
    using r2(1) by (cases frame; cases "tl frame") auto
  ultimately have "take 2 frame = [0xAA, 0xAA]" by simp
  then show ?thesis
    using that [OF msg r2(1) _ _ number1.get_reader_ok [OF number2.get_reader_ok [OF ok g2] g1]] dec r2(2,3)
    by (simp add: open_frame_def)
qed

lemma decode_fit:
  assumes "zccp_msg_decode H (Some msg) = Some m"
  shows "1 \<le> msg_id m \<and> msg_id m \<le> 12 \<and> msg_ok m \<and> fields_fit H m \<and> routing_id m = None"
  using assms by (rule decode_some) (auto dest: decode_fields_fit)

lemma encode_decode:
  assumes "hash Z = H" and "msg_ok m" and "fields_fit H m" and "1 \<le> msg_id m \<and> msg_id m \<le> 12"
  shows "\<exists>msg m'. zccp_msg_encode Z m = Inr msg \<and> zccp_msg_decode H (Some msg) = Some m'
    \<and> command_of H m' = command_of H m"
  using encode_is_grammar [of Z m] decode_encoded [OF assms(3,4)] command_of_received [OF assms(4)]
    zhash_api_axioms assms by simp

end

end
