(* ===== verification/Zccp_Send.thy ===== *)
theory Zccp_Send
  imports Zccp_Codec
begin

text \<open>
  The one-step functions of \<^verbatim>\<open>src/zccp_msg.c\<close>: \<open>zccp_msg_encode_*\<close> (lines 907 to 1083) build a
  message of one kind from its fields and encode it, \<open>zccp_msg_send_*\<close> (lines 1086 to 1269) build it
  and send it.  The string arguments are formats, as in the setters they are passed to; \<open>zhash_dup\<close>
  and \<open>zmsg_dup\<close> of a null pointer are null.
\<close>

section \<open>Building a message from its fields\<close>

definition with_headers :: "('h, 'r) czmq \<Rightarrow> 'h option \<Rightarrow> 'h zccp_msg \<Rightarrow> 'h zccp_msg" where
  "with_headers Z headers_p self =
     (let headers_copy = map_option (zh_dup (hash Z)) headers_p in zccp_msg_set_headers self headers_copy)"

section \<open>Encoding in one step\<close>

definition zccp_msg_encode_hello :: "('h, 'r) czmq \<Rightarrow> cstr option \<Rightarrow> 'h option \<Rightarrow> zmsg result" where
  "zccp_msg_encode_hello Z ident hs =
     rbind (zccp_msg_set_identifier Z (zccp_msg_new ZCCP_MSG_HELLO) ident) (\<lambda>self.
     zccp_msg_encode Z (with_headers Z hs self))"

definition zccp_msg_encode_hello_ok :: "('h, 'r) czmq \<Rightarrow> 'h option \<Rightarrow> zmsg result" where
  "zccp_msg_encode_hello_ok Z hs =
     zccp_msg_encode Z (with_headers Z hs (zccp_msg_new ZCCP_MSG_HELLO_OK))"

definition zccp_msg_encode_subscribe :: "('h, 'r) czmq \<Rightarrow> cstr option \<Rightarrow> 'h option \<Rightarrow> zmsg result" where
  "zccp_msg_encode_subscribe Z expr hs =
     rbind (zccp_msg_set_expression Z (zccp_msg_new ZCCP_MSG_SUBSCRIBE) expr) (\<lambda>self.
     zccp_msg_encode Z (with_headers Z hs self))"

definition zccp_msg_encode_subscribe_ok :: "('h, 'r) czmq \<Rightarrow> zmsg result" where
  "zccp_msg_encode_subscribe_ok Z =
     zccp_msg_encode Z (zccp_msg_new ZCCP_MSG_SUBSCRIBE_OK)"

definition zccp_msg_encode_publish :: "('h, 'r) czmq \<Rightarrow> cstr option \<Rightarrow> 'h option \<Rightarrow> zmsg option \<Rightarrow> zmsg result" where
  "zccp_msg_encode_publish Z addr hs cont =
     rbind (zccp_msg_set_address Z (zccp_msg_new ZCCP_MSG_PUBLISH) addr) (\<lambda>self.
     zccp_msg_encode Z (zccp_msg_set_content (with_headers Z hs self) cont))"

definition zccp_msg_encode_direct :: "('h, 'r) czmq \<Rightarrow> cstr option \<Rightarrow> 'h option \<Rightarrow> zmsg option \<Rightarrow> zmsg result" where
  "zccp_msg_encode_direct Z addr hs cont =
     rbind (zccp_msg_set_address Z (zccp_msg_new ZCCP_MSG_DIRECT) addr) (\<lambda>self.
     zccp_msg_encode Z (zccp_msg_set_content (with_headers Z hs self) cont))"

definition zccp_msg_encode_deliver :: "('h, 'r) czmq \<Rightarrow> cstr option \<Rightarrow> cstr option \<Rightarrow> 'h option \<Rightarrow> zmsg option \<Rightarrow> zmsg result" where
  "zccp_msg_encode_deliver Z sndr addr hs cont =
     rbind (zccp_msg_set_sender Z (zccp_msg_new ZCCP_MSG_DELIVER) sndr) (\<lambda>self.
     rbind (zccp_msg_set_address Z self addr) (\<lambda>self.
     zccp_msg_encode Z (zccp_msg_set_content (with_headers Z hs self) cont)))"

definition zccp_msg_encode_goodbye :: "('h, 'r) czmq \<Rightarrow> zmsg result" where
  "zccp_msg_encode_goodbye Z =
     zccp_msg_encode Z (zccp_msg_new ZCCP_MSG_GOODBYE)"

definition zccp_msg_encode_goodbye_ok :: "('h, 'r) czmq \<Rightarrow> 'h option \<Rightarrow> zmsg result" where
  "zccp_msg_encode_goodbye_ok Z hs =
     zccp_msg_encode Z (with_headers Z hs (zccp_msg_new ZCCP_MSG_GOODBYE_OK))"

definition zccp_msg_encode_ping :: "('h, 'r) czmq \<Rightarrow> zmsg result" where
  "zccp_msg_encode_ping Z =
     zccp_msg_encode Z (zccp_msg_new ZCCP_MSG_PING)"

definition zccp_msg_encode_ping_ok :: "('h, 'r) czmq \<Rightarrow> zmsg result" where
  "zccp_msg_encode_ping_ok Z =
     zccp_msg_encode Z (zccp_msg_new ZCCP_MSG_PING_OK)"

definition zccp_msg_encode_invalid :: "('h, 'r) czmq \<Rightarrow> zmsg result" where
  "zccp_msg_encode_invalid Z =
     zccp_msg_encode Z (zccp_msg_new ZCCP_MSG_INVALID)"

section \<open>Sending in one step\<close>

definition zccp_msg_send_hello :: "('h, 'r) czmq \<Rightarrow> bool \<Rightarrow> cstr option \<Rightarrow> 'h option \<Rightarrow> zmsg result" where
  "zccp_msg_send_hello Z router ident hs =
     rbind (zccp_msg_set_identifier Z (zccp_msg_new ZCCP_MSG_HELLO) ident) (\<lambda>self.
     zccp_msg_send Z (with_headers Z hs self) router)"

definition zccp_msg_send_hello_ok :: "('h, 'r) czmq \<Rightarrow> bool \<Rightarrow> 'h option \<Rightarrow> zmsg result" where
  "zccp_msg_send_hello_ok Z router hs =
     zccp_msg_send Z (with_headers Z hs (zccp_msg_new ZCCP_MSG_HELLO_OK)) router"

definition zccp_msg_send_subscribe :: "('h, 'r) czmq \<Rightarrow> bool \<Rightarrow> cstr option \<Rightarrow> 'h option \<Rightarrow> zmsg result" where
  "zccp_msg_send_subscribe Z router expr hs =
     rbind (zccp_msg_set_expression Z (zccp_msg_new ZCCP_MSG_SUBSCRIBE) expr) (\<lambda>self.
     zccp_msg_send Z (with_headers Z hs self) router)"

definition zccp_msg_send_subscribe_ok :: "('h, 'r) czmq \<Rightarrow> bool \<Rightarrow> zmsg result" where
  "zccp_msg_send_subscribe_ok Z router =
     zccp_msg_send Z (zccp_msg_new ZCCP_MSG_SUBSCRIBE_OK) router"

definition zccp_msg_send_publish :: "('h, 'r) czmq \<Rightarrow> bool \<Rightarrow> cstr option \<Rightarrow> 'h option \<Rightarrow> zmsg option \<Rightarrow> zmsg result" where
  "zccp_msg_send_publish Z router addr hs cont =
     rbind (zccp_msg_set_address Z (zccp_msg_new ZCCP_MSG_PUBLISH) addr) (\<lambda>self.
     zccp_msg_send Z (zccp_msg_set_content (with_headers Z hs self) cont) router)"

definition zccp_msg_send_direct :: "('h, 'r) czmq \<Rightarrow> bool \<Rightarrow> cstr option \<Rightarrow> 'h option \<Rightarrow> zmsg option \<Rightarrow> zmsg result" where
  "zccp_msg_send_direct Z router addr hs cont =
     rbind (zccp_msg_set_address Z (zccp_msg_new ZCCP_MSG_DIRECT) addr) (\<lambda>self.
     zccp_msg_send Z (zccp_msg_set_content (with_headers Z hs self) cont) router)"

definition zccp_msg_send_deliver :: "('h, 'r) czmq \<Rightarrow> bool \<Rightarrow> cstr option \<Rightarrow> cstr option \<Rightarrow> 'h option \<Rightarrow> zmsg option \<Rightarrow> zmsg result" where
  "zccp_msg_send_deliver Z router sndr addr hs cont =
     rbind (zccp_msg_set_sender Z (zccp_msg_new ZCCP_MSG_DELIVER) sndr) (\<lambda>self.
     rbind (zccp_msg_set_address Z self addr) (\<lambda>self.
     zccp_msg_send Z (zccp_msg_set_content (with_headers Z hs self) cont) router))"

definition zccp_msg_send_goodbye :: "('h, 'r) czmq \<Rightarrow> bool \<Rightarrow> zmsg result" where
  "zccp_msg_send_goodbye Z router =
     zccp_msg_send Z (zccp_msg_new ZCCP_MSG_GOODBYE) router"

definition zccp_msg_send_goodbye_ok :: "('h, 'r) czmq \<Rightarrow> bool \<Rightarrow> 'h option \<Rightarrow> zmsg result" where
  "zccp_msg_send_goodbye_ok Z router hs =
     zccp_msg_send Z (with_headers Z hs (zccp_msg_new ZCCP_MSG_GOODBYE_OK)) router"

definition zccp_msg_send_ping :: "('h, 'r) czmq \<Rightarrow> bool \<Rightarrow> zmsg result" where
  "zccp_msg_send_ping Z router =
     zccp_msg_send Z (zccp_msg_new ZCCP_MSG_PING) router"

definition zccp_msg_send_ping_ok :: "('h, 'r) czmq \<Rightarrow> bool \<Rightarrow> zmsg result" where
  "zccp_msg_send_ping_ok Z router =
     zccp_msg_send Z (zccp_msg_new ZCCP_MSG_PING_OK) router"

definition zccp_msg_send_invalid :: "('h, 'r) czmq \<Rightarrow> bool \<Rightarrow> zmsg result" where
  "zccp_msg_send_invalid Z router =
     zccp_msg_send Z (zccp_msg_new ZCCP_MSG_INVALID) router"

end
