(* ===== verification/Engine_Base.thy ===== *)
theory Engine_Base
  imports Zccp_Send
begin

text \<open>
  What the two generated engines share (\<^verbatim>\<open>src/zccp_server_engine.inc\<close>,
  \<^verbatim>\<open>src/zccp_client_engine.inc\<close>): the bounds of their name tables, the timers of a reactor, texts of
  numbers, the pipe between an actor and its owner, and facts on the messages they receive.
\<close>

section \<open>Name tables\<close>

text \<open>\<open>table [i]\<close>, with the bounds of the array.\<close>

definition name_at :: "string list \<Rightarrow> int \<Rightarrow> string result" where
  "name_at table i =
     (if 0 \<le> i \<and> i < int (length table) then Inr (table ! nat i) else Inl Name_table_overrun)"

section \<open>Timers of a reactor\<close>

record 'f timer =
  tm_id :: int
  tm_delay :: "64 word"
  tm_times :: nat                                \<comment> \<open>0: forever\<close>
  tm_handler :: 'f

text \<open>
  \<open>zloop_timer\<close> registers a timer and returns its identifier; \<open>zloop_timer_end\<close> cancels the timers
  with the given identifier.
\<close>

definition zloop_timer :: "('h, 'r) czmq \<Rightarrow> 64 word \<Rightarrow> nat \<Rightarrow> 'f \<Rightarrow> 'f timer list \<Rightarrow> int \<times> 'f timer list" where
  "zloop_timer Z delay n handler ts =
     (let i = timer_id Z (map tm_id ts)
      in (i, ts @ [\<lparr>tm_id = i, tm_delay = delay, tm_times = n, tm_handler = handler\<rparr>]))"

definition zloop_timer_end :: "int \<Rightarrow> 'f timer list \<Rightarrow> 'f timer list" where
  "zloop_timer_end i ts = filter (\<lambda>t. tm_id t \<noteq> i) ts"

lemma zloop_timer_end_set [simp]: "t \<in> set (zloop_timer_end i ts) \<longleftrightarrow> t \<in> set ts \<and> tm_id t \<noteq> i"
  by (auto simp: zloop_timer_end_def)

lemma zloop_timer_end_ids: "distinct (map tm_id ts) \<Longrightarrow> distinct (map tm_id (zloop_timer_end i ts))"
  by (simp add: zloop_timer_end_def distinct_map_filter)

text \<open>\<open>if (timer) zloop_timer_end (loop, timer)\<close>\<close>

definition end_timer :: "int \<Rightarrow> 'f timer list \<Rightarrow> 'f timer list" where
  "end_timer i ts = (if i \<noteq> 0 then zloop_timer_end i ts else ts)"

lemma end_timer_0 [simp]: "end_timer 0 ts = ts"
  by (simp add: end_timer_def)

context czmq_api
begin

lemma zloop_timer_spec:
  assumes "zloop_timer Z delay n handler ts = (i, ts')"
  shows "0 < i" and "i \<notin> tm_id ` set ts"
    and "ts' = ts @ [\<lparr>tm_id = i, tm_delay = delay, tm_times = n, tm_handler = handler\<rparr>]"
    and "distinct (map tm_id ts) \<Longrightarrow> distinct (map tm_id ts')"
  using assms timer_id_pos timer_id_fresh [of "map tm_id ts"]
  by (auto simp: zloop_timer_def Let_def)

end

section \<open>Texts of numbers\<close>

text \<open>\<open>zmsg_popstr\<close>: the first frame as a string, \<open>NULL\<close> from an empty message.\<close>

definition zmsg_popstr :: "zmsg \<Rightarrow> cstr option \<times> zmsg" where
  "zmsg_popstr msg = (case msg of [] \<Rightarrow> (None, []) | f # fs \<Rightarrow> (Some (c_string f), fs))"

text \<open>\<open>%d\<close>\<close>

fun digits :: "nat \<Rightarrow> cstr" where
  "digits n = (if n < 10 then [of_nat (48 + n)] else digits (n div 10) @ [of_nat (48 + n mod 10)])"

definition decimal :: "int \<Rightarrow> cstr" where
  "decimal i = (if i < 0 then 45 # digits (nat (- i)) else digits (nat i))"

text \<open>
  What \<open>atol\<close> reads back is the number that was printed.
\<close>

declare digits.simps [simp del]

lemma digit_octet:
  assumes "n < 10"
  shows "48 \<le> (of_nat (48 + n) :: byte)" and "(of_nat (48 + n) :: byte) \<le> 57"
    and "uint ((of_nat (48 + n) :: byte) - 48) = int n"
proof -
  have n: "n \<in> {0, 1, 2, 3, 4, 5, 6, 7, 8, 9}" using assms by auto
  show "48 \<le> (of_nat (48 + n) :: byte)" "(of_nat (48 + n) :: byte) \<le> 57"
      "uint ((of_nat (48 + n) :: byte) - 48) = int n"
    using n by auto
qed

lemma digits_value_digits:
  "\<exists>k. digits_value v (digits n @ s) = digits_value (v * 10 ^ k + int n) s"
proof (induction n arbitrary: v s rule: digits.induct)
  case (1 n)
  show ?case
  proof (cases "n < 10")
    case True
    then have "digits_value v (digits n @ s) = digits_value (v * 10 ^ 1 + int n) s"
      using digit_octet [OF True] by (simp add: digits.simps [of n] mult.commute)
    then show ?thesis by blast
  next
    case False
    obtain k where k: "digits_value v (digits (n div 10) @ of_nat (48 + n mod 10) # s)
        = digits_value (v * 10 ^ k + int (n div 10)) (of_nat (48 + n mod 10) # s)"
      using 1 [OF False] by blast
    have "10 * (v * 10 ^ k + int (n div 10)) + int (n mod 10) = v * 10 ^ Suc k + int n"
      by (simp add: zdiv_int zmod_int algebra_simps)
    moreover have "digits_value v (digits n @ s)
        = digits_value (10 * (v * 10 ^ k + int (n div 10)) + int (n mod 10)) s"
      using k digit_octet [of "n mod 10"] False by (simp add: digits.simps [of n] del: of_nat_add of_nat_mod)
    ultimately have "digits_value v (digits n @ s) = digits_value (v * 10 ^ Suc k + int n) s"
      by (simp only:)
    then show ?thesis by blast
  qed
qed

lemma digits_first: "\<exists>c t. digits n = c # t \<and> 48 \<le> c \<and> c \<le> 57"
proof (induction n rule: digits.induct)
  case (1 n)
  then show ?case
    using digit_octet(1,2) [of n] by (cases "n < 10") (auto simp: digits.simps [of n])
qed

lemma digits_octets: "c \<in> set (digits n) \<Longrightarrow> 48 \<le> c \<and> c \<le> 57"
proof (induction n rule: digits.induct)
  case (1 n)
  then show ?case
    using digit_octet(1,2) [of n] digit_octet(1,2) [of "n mod 10"]
    by (cases "n < 10") (auto simp: digits.simps [of n])
qed

lemma atol_decimal: "atol (decimal i) = i"
proof -
  have v: "digits_value 0 (digits n) = int n" for n
    using digits_value_digits [of 0 n "[]"] by auto
  obtain c t where d: "digits (nat i) = c # t" "48 \<le> c" "c \<le> 57"
    using digits_first [of "nat i"] by auto
  have c: "is_space c = False" "c \<noteq> 45" "c \<noteq> 43"
    using d(2) by (auto simp: is_space_def word_le_nat_alt)
  have minus: "is_space 45 = False" by (simp add: is_space_def)
  then show ?thesis
    using v [of "nat i"] v [of "nat (- i)"] d(1) c minus
    by (cases "i < 0") (simp_all add: decimal_def atol_def del: digits_value.simps)
qed

lemma c_string_decimal: "c_string (decimal i) = decimal i"
  by (rule c_string_wf) (auto simp: wf_cstr_def decimal_def dest: digits_octets)

section \<open>Reading from a pipe\<close>

text \<open>
  The receiving end of a pipe: the frames left of the message that is being read, and the messages
  that follow.  \<open>None\<close> in the queue is an interrupt of the read that meets it.  A read that finds
  nothing waits; its result is the fault \<open>Blocked\<close>, relative to the queue given.

  \<open>zstr_recv\<close> takes one frame.  \<open>zmsg_recv\<close>, and with it \<open>zsock_recv\<close>, takes what is left of the current
  message, or else the next message.  \<open>zsock_flush\<close> drops what is left of the current message.
\<close>

record zsock_in =
  rest_frames :: zmsg
  queue :: "zmsg option list"

fun next_frame :: "zmsg option list \<Rightarrow> (cstr option \<times> zsock_in) result" where
  "next_frame [] = Inl Blocked"
| "next_frame (None # q) = Inr (None, \<lparr>rest_frames = [], queue = q\<rparr>)"
| "next_frame (Some [] # q) = next_frame q"
| "next_frame (Some (f # fs) # q) = Inr (Some (c_string f), \<lparr>rest_frames = fs, queue = q\<rparr>)"

fun next_message :: "zmsg option list \<Rightarrow> (zmsg option \<times> zsock_in) result" where
  "next_message [] = Inl Blocked"
| "next_message (None # q) = Inr (None, \<lparr>rest_frames = [], queue = q\<rparr>)"
| "next_message (Some [] # q) = next_message q"
| "next_message (Some (f # fs) # q) = Inr (Some (f # fs), \<lparr>rest_frames = [], queue = q\<rparr>)"

definition zstr_recv :: "zsock_in \<Rightarrow> (cstr option \<times> zsock_in) result" where
  "zstr_recv p = (case rest_frames p of
      [] \<Rightarrow> next_frame (queue p)
    | f # fs \<Rightarrow> Inr (Some (c_string f), p\<lparr>rest_frames := fs\<rparr>))"

definition zmsg_recv :: "zsock_in \<Rightarrow> (zmsg option \<times> zsock_in) result" where
  "zmsg_recv p = (case rest_frames p of
      [] \<Rightarrow> next_message (queue p)
    | f # fs \<Rightarrow> Inr (Some (f # fs), p\<lparr>rest_frames := []\<rparr>))"

definition zsock_rcvmore :: "zsock_in \<Rightarrow> bool" where
  "zsock_rcvmore p = (rest_frames p \<noteq> [])"

definition zsock_flush :: "zsock_in \<Rightarrow> zsock_in" where
  "zsock_flush p = p\<lparr>rest_frames := []\<rparr>"

lemmas pipe_defs = zstr_recv_def zmsg_recv_def zsock_rcvmore_def zsock_flush_def zmsg_popstr_def

section \<open>The command an encoded message stands for\<close>

definition stands_for :: "('h, 'r) czmq \<Rightarrow> zmsg result \<Rightarrow> command \<Rightarrow> bool" where
  "stands_for Z res c \<longleftrightarrow> (\<exists>msg m. res = Inr msg \<and> zccp_msg_decode (hash Z) (Some msg) = Some m
     \<and> command_of (hash Z) m = Some c)"

lemma stands_for_encode:
  assumes "zhash_api (hash Z)" and "msg_ok m" and "fields_fit (hash Z) m" and "command_of (hash Z) m = Some c"
  shows "stands_for Z (zccp_msg_encode Z m) c"
proof -
  have "1 \<le> msg_id m \<and> msg_id m \<le> 12" using assms(4) command_of_None_iff [of "hash Z" m] by simp
  from zhash_api.encode_decode [OF assms(1) refl assms(2,3) this] assms(4)
  show ?thesis by (auto simp: stands_for_def)
qed

lemma dict_fits_dup:
  assumes "zhash_api H" and "dict_fits H h"
  shows "dict_fits H (map_option (zh_dup H) h)"
  using assms(2) zhash_api.items_dup [OF assms(1)] zhash_api.size_dup [OF assms(1)]
  by (cases h) (simp_all add: dict_fits_def entries_of_def zhash_api.size_items [OF assms(1), symmetric])

section \<open>Received messages\<close>

text \<open>The fields that the decoder always sets, and that the actions rely on.\<close>

definition complete :: "'h zccp_msg \<Rightarrow> bool" where
  "complete m \<longleftrightarrow> (msg_id m = ZCCP_MSG_HELLO \<longrightarrow> identifier_field m \<noteq> None)
     \<and> (msg_id m = ZCCP_MSG_SUBSCRIBE \<longrightarrow> expression m \<noteq> None)
     \<and> (msg_id m = ZCCP_MSG_PUBLISH \<longrightarrow> address m \<noteq> None \<and> content m \<noteq> None)"

lemma decode_fields_complete: "decode_fields H self msg r = Some m \<Longrightarrow> complete m"
  by (auto simp: decode_fields_def complete_def bind_eq_Some_conv split: if_splits)

lemma recv_router:
  assumes "zccp_msg_recv H True input = Some m"
  obtains rid msg m' where "zccp_msg_decode H (Some msg) = Some m'" and "m = m'\<lparr>routing_id := Some rid\<rparr>"
    and "input = Some (rid # msg)"
proof -
  from assms obtain frames where i: "input = Some frames" by (cases input) (auto simp: zccp_msg_recv_def)
  with assms obtain rid msg where f: "frames = rid # msg" "msg \<noteq> []"
    by (cases frames) (auto simp: zccp_msg_recv_def split: if_splits)
  with assms i that show ?thesis by (auto simp: zccp_msg_recv_def bind_eq_Some_conv)
qed

lemma recv_complete:
  assumes "zhash_api (hash Z)" and "zccp_msg_recv (hash Z) True input = Some m"
  shows "complete m" and "fields_fit (hash Z) m" and "routing_id m \<noteq> None" and "command_of (hash Z) m \<noteq> None"
proof -
  from assms(2) obtain rid msg m' where m: "zccp_msg_decode (hash Z) (Some msg) = Some m'"
      "m = m'\<lparr>routing_id := Some rid\<rparr>"
    by (rule recv_router)
  from m(1) obtain self content r where f: "decode_fields (hash Z) self content r = Some m'"
    by (rule zhash_api.decode_some [OF assms(1)])
  note fit = zhash_api.decode_fit [OF assms(1) m(1)]
  have "complete m'" by (rule decode_fields_complete [OF f])
  then show "complete m" by (simp add: m(2) complete_def)
  show "fields_fit (hash Z) m" using fit by (simp add: m(2) fields_fit_def)
  show "routing_id m \<noteq> None" by (simp add: m(2))
  have "command_of (hash Z) m = command_of (hash Z) m'" by (simp add: m(2) command_of_def)
  then show "command_of (hash Z) m \<noteq> None"
    using fit by (simp add: command_of_None_iff)
qed

lemma recv_dealer:
  assumes "zhash_api H" and "zccp_msg_recv H False input = Some m"
  shows "fields_fit H m" and "command_of H m \<noteq> None" and "routing_id m = None" and "msg_ok m"
    and "command_of H m = Some (Deliver s a hs ms) \<Longrightarrow>
      msg_id m = ZCCP_MSG_DELIVER \<and> sender m = Some s \<and> address m = Some a \<and> content m = Some ms"
proof -
  from assms(2) obtain msg where dec: "zccp_msg_decode H (Some msg) = Some m"
    by (auto simp: zccp_msg_recv_def bind_eq_Some_conv)
  from dec obtain self body r where f: "decode_fields H self body r = Some m"
    by (rule zhash_api.decode_some [OF assms(1)])
  note fit = zhash_api.decode_fit [OF assms(1) dec]
  show "msg_id m = ZCCP_MSG_DELIVER \<and> sender m = Some s \<and> address m = Some a \<and> content m = Some ms"
    if "command_of H m = Some (Deliver s a hs ms)"
    using f that by (auto simp: decode_fields_def command_of_def bind_eq_Some_conv split: if_splits)
  show "fields_fit H m" "routing_id m = None" "msg_ok m" using fit by simp_all
  show "command_of H m \<noteq> None" using fit by (simp add: command_of_None_iff)
qed

lemma command_id:
  "command_of H m = Some (Hello i hs) \<Longrightarrow> msg_id m = ZCCP_MSG_HELLO \<and> i = text_of (identifier_field m)"
  "command_of H m = Some (Hello_ok hs) \<Longrightarrow> msg_id m = ZCCP_MSG_HELLO_OK"
  "command_of H m = Some (Subscribe e hs) \<Longrightarrow> msg_id m = ZCCP_MSG_SUBSCRIBE \<and> e = text_of (expression m)"
  "command_of H m = Some Subscribe_ok \<Longrightarrow> msg_id m = ZCCP_MSG_SUBSCRIBE_OK"
  "command_of H m = Some (Publish a hs ms) \<Longrightarrow>
     msg_id m = ZCCP_MSG_PUBLISH \<and> a = text_of (address m) \<and> ms = frames_of (content m)"
  "command_of H m = Some (Direct a hs ms) \<Longrightarrow> msg_id m = ZCCP_MSG_DIRECT"
  "command_of H m = Some (Deliver s a hs ms) \<Longrightarrow> msg_id m = ZCCP_MSG_DELIVER"
  "command_of H m = Some Goodbye \<Longrightarrow> msg_id m = ZCCP_MSG_GOODBYE"
  "command_of H m = Some (Goodbye_ok hs) \<Longrightarrow> msg_id m = ZCCP_MSG_GOODBYE_OK"
  "command_of H m = Some Ping \<Longrightarrow> msg_id m = ZCCP_MSG_PING"
  "command_of H m = Some Ping_ok \<Longrightarrow> msg_id m = ZCCP_MSG_PING_OK"
  "command_of H m = Some Invalid \<Longrightarrow> msg_id m = ZCCP_MSG_INVALID"
  by (auto simp: command_of_def split: if_splits)

end
