(* ===== verification/Server_State.thy ===== *)
theory Server_State
  imports Engine_Base
begin

text \<open>
  The state of the broker (\<^verbatim>\<open>src/zccp_server.c\<close>, \<^verbatim>\<open>src/zccp_server_engine.inc\<close>): the context of the
  server, the context of each connected client, the subscription patterns, the reactor's timers.

  Client contexts are objects with identity: the hash table of clients, the subscription lists, the
  timers and \<open>server_t\<close> hold pointers to them.  They live in a heap from pointers to contexts; a
  pointer is never reused, and an access to a pointer without a context is the fault \<open>Use_after_free\<close>.
  Requests have an identity as well, their serial number, since \<open>server_t\<close> borrows strings and content
  that belong to a request (type \<open>borrow\<close>).

  \<open>out\<close> is what was sent to the router socket, \<open>walks\<close> counts how often a traversal of the list of
  patterns was started (the list has one cursor, which a nested traversal moves).
\<close>

section \<open>States and events\<close>

datatype state_t = start_state | connected_state | external_state

datatype event_t =
    terminate_event
  | NULL_event
  | hello_event
  | subscribe_event
  | publish_event
  | direct_event
  | forward_event
  | goodbye_event
  | expired_event

fun state_index :: "state_t \<Rightarrow> int" where
  "state_index start_state = 1"
| "state_index connected_state = 2"
| "state_index external_state = 3"

fun event_index :: "event_t \<Rightarrow> int" where
  "event_index terminate_event = -1"
| "event_index NULL_event = 0"
| "event_index hello_event = 1"
| "event_index subscribe_event = 2"
| "event_index publish_event = 3"
| "event_index direct_event = 4"
| "event_index forward_event = 5"
| "event_index goodbye_event = 6"
| "event_index expired_event = 7"

definition s_state_name :: "string list" where
  "s_state_name = [''(NONE)'', ''start'', ''connected'', ''external'']"

definition s_event_name :: "string list" where
  "s_event_name = [''(NONE)'', ''HELLO'', ''SUBSCRIBE'', ''PUBLISH'', ''DIRECT'', ''forward'',
     ''GOODBYE'', ''expired'']"

lemma name_of_state: "\<exists>n. name_at s_state_name (state_index st) = Inr n"
  by (cases st) (simp_all add: name_at_def s_state_name_def)

lemma name_of_event: "(\<exists>n. name_at s_event_name (event_index ev) = Inr n) \<longleftrightarrow> ev \<noteq> terminate_event"
  by (cases ev) (simp_all add: name_at_def s_event_name_def)

lemma name_of_terminate [simp]: "name_at s_event_name (-1) = Inl Name_table_overrun"
  by (simp add: name_at_def)

section \<open>Contexts\<close>

type_synonym ptr = nat

text \<open>
  A borrowed pointer: the client context it belongs to, the serial number of the request it points
  into (\<open>None\<close> if it points into the context itself), and the value it points to (\<open>None\<close> for a null
  pointer).
\<close>

record 'a borrow =
  owner :: ptr
  token :: "nat option"
  pointee :: "'a option"

record 'r pattern_t =
  pat_expression :: cstr
  rex :: 'r
  pat_clients :: "ptr list"

record ('h, 'r) server_t =
  patterns :: "'r pattern_t list"
  srv_config :: nat                             \<comment> \<open>the configuration object it points to\<close>
  srv_sender :: "cstr borrow option"
  srv_address :: "cstr borrow option"
  srv_headers :: "'h option"
  srv_content :: "zmsg borrow option"

record 'h client_t =
  request :: "(nat \<times> 'h zccp_msg) option"        \<comment> \<open>with its serial number\<close>
  reply :: "'h zccp_msg"
  client_identifier :: "cstr option"

record 'h s_client_t = "'h client_t" +
  hashkey :: cstr
  client_routing_id :: frame
  unique_id :: "32 word"
  log_prefix :: cstr
  mailbox :: "(nat \<times> 'h zccp_msg) list"
  state :: state_t
  event :: event_t
  next_event :: event_t
  exception :: event_t
  expiry_timer :: int
  wakeup_timer :: int
  wakeup_event :: event_t

datatype timer_fn =
    s_client_handle_timeout_fn ptr
  | s_client_handle_wakeup_fn ptr
  | s_watch_server_config_fn

datatype srv_socket = srv_pipe | srv_router

datatype srv_reader_fn = s_server_api_message_fn | s_server_client_message_fn

record ('h, 'r, 'c) s_server_t = "('h, 'r) server_t" +
  port :: int
  clients :: "cstr \<rightharpoonup> ptr"
  config :: "nat \<times> 'c"                          \<comment> \<open>with the number of the object\<close>
  client_id :: "32 word"
  timeout :: "64 word"
  verbose :: bool
  loop :: "timer_fn timer list"                           \<comment> \<open>the timers of the reactor\<close>
  heap :: "ptr \<rightharpoonup> 'h s_client_t"
  next_ptr :: ptr
  next_serial :: nat
  out :: "zmsg list"
  pipe_out :: "zmsg list"
  walks :: nat
  endpoints :: "cstr list"                       \<comment> \<open>what the router socket is bound to\<close>
  notices :: "cstr option list"                  \<comment> \<open>what a configuration file had printed\<close>
  srv_readers :: "(srv_socket \<times> srv_reader_fn) list"  \<comment> \<open>the sockets the reactor polls\<close>
  srv_log_prefix :: cstr

section \<open>Access to the heap\<close>

definition get_client :: "('h, 'r, 'c) s_server_t \<Rightarrow> ptr \<Rightarrow> 'h s_client_t result" where
  "get_client s p = of_option Use_after_free (heap s p)"

definition put_client :: "ptr \<Rightarrow> 'h s_client_t \<Rightarrow> ('h, 'r, 'c) s_server_t \<Rightarrow> ('h, 'r, 'c) s_server_t" where
  "put_client p c s = s\<lparr>heap := (heap s)(p \<mapsto> c)\<rparr>"

definition with_client :: "ptr \<Rightarrow> ('h s_client_t \<Rightarrow> 'h s_client_t)
    \<Rightarrow> ('h, 'r, 'c) s_server_t \<Rightarrow> ('h, 'r, 'c) s_server_t result" where
  "with_client p f s = rbind (get_client s p) (\<lambda>c. Inr (put_client p (f c) s))"

text \<open>
  Reading through a borrowed pointer: a null pointer yields \<open>None\<close>; the owner must still be
  allocated, and still hold the request that was current when the pointer was taken.
\<close>

definition read_borrow :: "('h, 'r, 'c) s_server_t \<Rightarrow> 'a borrow option \<Rightarrow> 'a option result" where
  "read_borrow s b =
     (case b of
        None \<Rightarrow> Inr None
      | Some b \<Rightarrow> rbind (get_client s (owner b)) (\<lambda>c.
          if token b = None \<or> token b = map_option fst (request c) then Inr (pointee b)
          else Inl Use_after_free))"

lemma get_client_simps [simp]:
  "heap s p = Some c \<Longrightarrow> get_client s p = Inr c"
  "get_client (put_client p c s) p = Inr c"
  by (simp_all add: get_client_def put_client_def)

lemma get_client_Inr: "get_client s p = Inr c \<longleftrightarrow> heap s p = Some c"
  by (simp add: get_client_def of_option_Inr_iff)

lemma with_client_live [simp]: "heap s p = Some c \<Longrightarrow> with_client p f s = Inr (put_client p (f c) s)"
  by (simp add: with_client_def)

lemma put_client_put [simp]: "put_client p c (put_client p d s) = put_client p c s"
  by (simp add: put_client_def)

lemma put_client_same: "heap s p = Some c \<Longrightarrow> put_client p c s = s"
  by (simp add: put_client_def map_upd_triv)

lemma put_client_fields [simp]:
  "heap (put_client p c s) = (heap s)(p \<mapsto> c)"
  "patterns (put_client p c s) = patterns s"
  "srv_config (put_client p c s) = srv_config s"
  "srv_sender (put_client p c s) = srv_sender s"
  "srv_address (put_client p c s) = srv_address s"
  "srv_headers (put_client p c s) = srv_headers s"
  "srv_readers (put_client p c s) = srv_readers s"
  "srv_content (put_client p c s) = srv_content s"
  "port (put_client p c s) = port s"
  "clients (put_client p c s) = clients s"
  "config (put_client p c s) = config s"
  "client_id (put_client p c s) = client_id s"
  "timeout (put_client p c s) = timeout s"
  "verbose (put_client p c s) = verbose s"
  "loop (put_client p c s) = loop s"
  "next_ptr (put_client p c s) = next_ptr s"
  "next_serial (put_client p c s) = next_serial s"
  "out (put_client p c s) = out s"
  "pipe_out (put_client p c s) = pipe_out s"
  "walks (put_client p c s) = walks s"
  by (simp_all add: put_client_def)

end
