(* ===== verification/Server_Actions.thy ===== *)
theory Server_Actions
  imports Server_State
begin

text \<open>
  The actions of the broker, \<^verbatim>\<open>src/zccp_server.c\<close>: subscription patterns, the constructors and
  destructors that the engine calls, and the four actions of the state machine.

  \<open>forward_to_subscribers\<close> calls the engine back (\<open>engine_send_event\<close>) while it traverses the
  patterns; the engine is its argument \<open>send\<close>.  A call that changes the list of patterns, or starts
  another traversal of it, is the fault \<open>List_changed\<close>: the list has a single cursor, so the traversal
  would go on at an unrelated place.  The locale \<open>delivery\<close> states what the action needs from the
  engine, and what it does on that ground.
\<close>

type_synonym ('h, 'r, 'c) action = "('h, 'r, 'c) s_server_t \<Rightarrow> ('h, 'r, 'c) s_server_t result"

section \<open>Patterns\<close>

definition s_pattern_new :: "('h, 'r) czmq \<Rightarrow> cstr \<Rightarrow> ptr \<Rightarrow> 'r pattern_t" where
  "s_pattern_new Z expr client =
     \<lparr>pat_expression = expr, rex = rex_new Z expr, pat_clients = [client]\<rparr>"

section \<open>Initialisation and termination\<close>

definition server_initialize :: "('h, 'r, 'c) s_server_t \<Rightarrow> ('h, 'r, 'c) s_server_t" where
  "server_initialize self = self\<lparr>patterns := []\<rparr>"

definition server_terminate :: "('h, 'r, 'c) s_server_t \<Rightarrow> ('h, 'r, 'c) s_server_t" where
  "server_terminate self = self\<lparr>patterns := []\<rparr>"

definition server_method :: "('h, 'r, 'c) s_server_t \<Rightarrow> cstr \<Rightarrow> zmsg \<Rightarrow> zmsg option" where
  "server_method self method msg = None"

definition client_initialize :: "'h s_client_t \<Rightarrow> 'h s_client_t" where
  "client_initialize self = self"

text \<open>\<open>zlist_remove\<close> takes out the first item equal to its argument.\<close>

definition client_terminate :: "ptr \<Rightarrow> ('h, 'r, 'c) s_server_t \<Rightarrow> ('h, 'r, 'c) s_server_t" where
  "client_terminate self s = s\<lparr>
     patterns := map (\<lambda>pattern. pattern\<lparr>pat_clients := remove1 self (pat_clients pattern)\<rparr>) (patterns s),
     walks := walks s + 1\<rparr>"

section \<open>Actions\<close>

definition current_request :: "'h s_client_t \<Rightarrow> 'h zccp_msg result" where
  "current_request c = of_option Assertion_failed (map_option snd (request c))"

definition register_new_client :: "ptr \<Rightarrow> ('h, 'r, 'c) action" where
  "register_new_client self s =
     rbind (get_client s self) (\<lambda>c.
     rbind (current_request c) (\<lambda>m.
     rbind (of_option Null_pointer (zccp_msg_identifier m)) (\<lambda>identifier.
     Inr (put_client self (c\<lparr>client_identifier := Some identifier\<rparr>) s))))"

text \<open>The loop over the patterns: \<open>None\<close> when no pattern has the expression.\<close>

fun add_subscriber :: "cstr \<Rightarrow> ptr \<Rightarrow> 'r pattern_t list \<Rightarrow> 'r pattern_t list option" where
  "add_subscriber expr self [] = None"
| "add_subscriber expr self (pattern # ps) =
     (if pat_expression pattern = expr then
        Some ((if self \<in> set (pat_clients pattern) then pattern
               else pattern\<lparr>pat_clients := pat_clients pattern @ [self]\<rparr>) # ps)
      else map_option ((#) pattern) (add_subscriber expr self ps))"

definition store_new_subscription :: "('h, 'r) czmq \<Rightarrow> ptr \<Rightarrow> ('h, 'r, 'c) action" where
  "store_new_subscription Z self s =
     rbind (get_client s self) (\<lambda>c.
     rbind (current_request c) (\<lambda>m.
     rbind (of_option Null_pointer (zccp_msg_expression m)) (\<lambda>expression.
     Inr (s\<lparr>walks := walks s + 1,
            patterns := (case add_subscriber expression self (patterns s) of
               None \<Rightarrow> patterns s @ [s_pattern_new Z expression self]
             | Some ps \<Rightarrow> ps)\<rparr>))))"

fun forward_to_clients :: "(ptr \<Rightarrow> event_t \<Rightarrow> ('h, 'r, 'c) action) \<Rightarrow> ptr \<Rightarrow> ptr list \<Rightarrow> ('h, 'r, 'c) action" where
  "forward_to_clients send self [] s = Inr s"
| "forward_to_clients send self (client # cs) s =
     rbind (if client \<noteq> self then send client forward_event s else Inr s) (\<lambda>s'.
       if patterns s' = patterns s \<and> walks s' = walks s then forward_to_clients send self cs s'
       else Inl List_changed)"

fun forward_to_patterns :: "('h, 'r) czmq \<Rightarrow> (ptr \<Rightarrow> event_t \<Rightarrow> ('h, 'r, 'c) action) \<Rightarrow> ptr
    \<Rightarrow> 'r pattern_t list \<Rightarrow> ('h, 'r, 'c) action" where
  "forward_to_patterns Z send self [] s = Inr s"
| "forward_to_patterns Z send self (pattern # ps) s =
     rbind (get_client s self) (\<lambda>c.
     rbind (current_request c) (\<lambda>m.
     rbind (of_option Null_pointer (zccp_msg_address m)) (\<lambda>address.
     rbind (if rex_matches Z (rex pattern) address
            then forward_to_clients send self (pat_clients pattern) s else Inr s) (\<lambda>s.
     forward_to_patterns Z send self ps s))))"

definition forward_to_subscribers :: "('h, 'r) czmq \<Rightarrow> (ptr \<Rightarrow> event_t \<Rightarrow> ('h, 'r, 'c) action) \<Rightarrow> ptr
    \<Rightarrow> ('h, 'r, 'c) action" where
  "forward_to_subscribers Z send self s =
     rbind (get_client s self) (\<lambda>c.
     rbind (current_request c) (\<lambda>m.
     let s = s\<lparr>srv_sender := Some \<lparr>owner = self, token = None, pointee = client_identifier c\<rparr>,
           srv_address := Some \<lparr>owner = self, token = map_option fst (request c),
                                    pointee = zccp_msg_address m\<rparr>,
               srv_content := Some \<lparr>owner = self, token = map_option fst (request c),
                                    pointee = zccp_msg_content m\<rparr>,
               walks := walks s + 1\<rparr>
     in forward_to_patterns Z send self (patterns s) s))"

definition get_content_to_publish :: "('h, 'r) czmq \<Rightarrow> ptr \<Rightarrow> ('h, 'r, 'c) action" where
  "get_content_to_publish Z self s =
     rbind (get_client s self) (\<lambda>c.
     rbind (read_borrow s (srv_content s)) (\<lambda>content.
     rbind (read_borrow s (srv_sender s)) (\<lambda>sender.
     rbind (zccp_msg_set_sender Z (reply c) sender) (\<lambda>m.
     rbind (read_borrow s (srv_address s)) (\<lambda>address.
     rbind (zccp_msg_set_address Z m address) (\<lambda>m.
     let m = zccp_msg_set_headers m (map_option (zh_dup (hash Z)) (srv_headers s));
         m = zccp_msg_set_content m content
     in Inr (put_client self (c\<lparr>reply := m\<rparr>) s)))))))"

end
