(* ===== verification/Server_Engine.thy ===== *)
theory Server_Engine
  imports Server_Actions
begin

text \<open>
  The generated engine of the broker, \<^verbatim>\<open>src/zccp_server_engine.inc\<close>: its internal API, the life of a
  client context, the state machine \<open>s_client_execute\<close> and the two callbacks for client messages and
  expired timers.

  The \<open>while\<close> loop of \<open>s_client_execute\<close> runs on fuel, because it calls itself for other clients
  through \<open>engine_send_event\<close>; every turn of the loop, and every nested call, has one unit less.
\<close>

section \<open>The internal API\<close>

definition engine_set_next_event :: "ptr \<Rightarrow> event_t \<Rightarrow> ('h, 'r, 'c) action" where
  "engine_set_next_event client ev = with_client client (\<lambda>c. c\<lparr>next_event := ev\<rparr>)"

definition engine_set_exception :: "ptr \<Rightarrow> event_t \<Rightarrow> ('h, 'r, 'c) action" where
  "engine_set_exception client ev = with_client client (\<lambda>c. c\<lparr>exception := ev\<rparr>)"

definition engine_set_wakeup_event :: "('h, 'r) czmq \<Rightarrow> ptr \<Rightarrow> 64 word \<Rightarrow> event_t \<Rightarrow> ('h, 'r, 'c) action" where
  "engine_set_wakeup_event Z client delay ev s =
     rbind (get_client s client) (\<lambda>c.
     let (i, ts) = zloop_timer Z delay 1 (s_client_handle_wakeup_fn client) (end_timer (wakeup_timer c) (loop s))
     in Inr (put_client client (c\<lparr>wakeup_timer := i, wakeup_event := ev\<rparr>) (s\<lparr>loop := ts\<rparr>)))"

text \<open>\<open>rc\<close> is the result of \<open>zloop_reader\<close>; \<open>None\<close> is the null handler, which ends the polling.\<close>

definition engine_handle_socket :: "int \<Rightarrow> srv_socket \<Rightarrow> srv_reader_fn option \<Rightarrow> ('h, 'r, 'c) action" where
  "engine_handle_socket rc sock handler s =
     (case handler of
        Some h \<Rightarrow> if rc = 0 then Inr (s\<lparr>srv_readers := srv_readers s @ [(sock, h)]\<rparr>) else Inl Assertion_failed
      | None \<Rightarrow> Inr (s\<lparr>srv_readers := filter (\<lambda>(k, h). k \<noteq> sock) (srv_readers s)\<rparr>))"

text \<open>
  \<open>snprintf\<close> with the format \<open>%6d:%-33s\<close> and room for 39 characters and the final NUL; the buffer has 41.
\<close>

definition pad_left :: "nat \<Rightarrow> cstr \<Rightarrow> cstr" where
  "pad_left n s = replicate (n - length s) 32 @ s"

definition pad_right :: "nat \<Rightarrow> cstr \<Rightarrow> cstr" where
  "pad_right n s = s @ replicate (n - length s) 32"

definition engine_set_log_prefix :: "cstr \<Rightarrow> 'h s_client_t \<Rightarrow> 'h s_client_t" where
  "engine_set_log_prefix str self =
     self\<lparr>log_prefix := take 39 (pad_left 6 (decimal (sint (unique_id self))) @ [58] @ pad_right 33 str)\<rparr>"

definition engine_set_monitor :: "('h, 'r) czmq \<Rightarrow> 64 word \<Rightarrow> timer_fn \<Rightarrow> ('h, 'r, 'c) action" where
  "engine_set_monitor Z interval monitor s =
     (let (rc, ts) = zloop_timer Z interval 0 monitor (loop s)
      in if rc \<ge> 0 then Inr (s\<lparr>loop := ts\<rparr>) else Inl Assertion_failed)"

section \<open>Requests\<close>

definition s_protocol_event :: "'h zccp_msg \<Rightarrow> event_t" where
  "s_protocol_event m =
     (if zccp_msg_id m = ZCCP_MSG_HELLO then hello_event
      else if zccp_msg_id m = ZCCP_MSG_SUBSCRIBE then subscribe_event
      else if zccp_msg_id m = ZCCP_MSG_PUBLISH then publish_event
      else if zccp_msg_id m = ZCCP_MSG_DIRECT then direct_event
      else if zccp_msg_id m = ZCCP_MSG_GOODBYE then goodbye_event
      else terminate_event)"

definition event_is_valid :: "state_t \<Rightarrow> bool" where
  "event_is_valid st =
     (if st = start_state then True else if st = connected_state then True
      else if st = external_state then True else False)"

text \<open>
  The loop over the mailbox: the first request that the state accepts, and the mailbox without it.
\<close>

fun first_valid :: "state_t \<Rightarrow> (nat \<times> 'h zccp_msg) list
    \<Rightarrow> ((nat \<times> 'h zccp_msg) \<times> (nat \<times> 'h zccp_msg) list) option" where
  "first_valid st [] = None"
| "first_valid st (m # ms) =
     (if event_is_valid st then Some (m, ms)
      else map_option (map_prod id ((#) m)) (first_valid st ms))"

definition s_client_filter_mailbox :: "ptr \<Rightarrow> ('h, 'r, 'c) s_server_t
    \<Rightarrow> (event_t \<times> ('h, 'r, 'c) s_server_t) result" where
  "s_client_filter_mailbox self s =
     rbind (get_client s self) (\<lambda>c.
       case first_valid (state c) (mailbox c) of
         None \<Rightarrow> Inr (NULL_event, s)
       | Some (m, ms) \<Rightarrow>
           Inr (s_protocol_event (snd m), put_client self (c\<lparr>mailbox := ms, request := Some m\<rparr>) s))"

section \<open>Client contexts\<close>

definition fresh_reply :: "frame \<Rightarrow> 'h zccp_msg" where
  "fresh_reply rid = zccp_msg_set_routing_id (zccp_msg_new 0) rid"

definition s_client_new :: "('h, 'r) czmq \<Rightarrow> frame \<Rightarrow> ('h, 'r, 'c) s_server_t
    \<Rightarrow> ptr \<times> ('h, 'r, 'c) s_server_t" where
  "s_client_new Z rid server =
     (let self = \<lparr>request = None, reply = fresh_reply rid, client_identifier = None,
                  hashkey = strhex Z rid, client_routing_id = rid, unique_id = client_id server, log_prefix = [],
                  mailbox = [], state = start_state, event = NULL_event, next_event = NULL_event,
                  exception = NULL_event, expiry_timer = 0, wakeup_timer = 0, wakeup_event = NULL_event\<rparr>;
          p = next_ptr server
      in (p, put_client p (client_initialize (engine_set_log_prefix (srv_log_prefix server) self))
               (server\<lparr>client_id := client_id server + 1, next_ptr := p + 1\<rparr>)))"

definition s_client_destroy :: "ptr \<Rightarrow> ('h, 'r, 'c) action" where
  "s_client_destroy self s =
     rbind (get_client s self) (\<lambda>c.
     let s = s\<lparr>loop := end_timer (expiry_timer c) (end_timer (wakeup_timer c) (loop s))\<rparr>;
         s = client_terminate self s
     in Inr (s\<lparr>heap := (heap s)(self := None)\<rparr>))"

definition s_client_free :: "ptr \<Rightarrow> ('h, 'r, 'c) action" where
  "s_client_free argument = s_client_destroy argument"

text \<open>\<open>zhash_delete\<close> on the table of clients, which calls the free function of the item.\<close>

definition zhash_delete_client :: "cstr \<Rightarrow> ('h, 'r, 'c) action" where
  "zhash_delete_client key s =
     (case clients s key of
        None \<Rightarrow> Inr s
      | Some p \<Rightarrow> s_client_free p (s\<lparr>clients := (clients s)(key := None)\<rparr>))"

section \<open>The state machine\<close>

text \<open>\<open>if (!self->exception) action\<close>\<close>

definition unless_exception :: "ptr \<Rightarrow> ('h, 'r, 'c) action \<Rightarrow> ('h, 'r, 'c) action" where
  "unless_exception self action s =
     rbind (get_client s self) (\<lambda>c. if exception c = NULL_event then action s else Inr s)"

definition send_reply :: "('h, 'r) czmq \<Rightarrow> int \<Rightarrow> ptr \<Rightarrow> ('h, 'r, 'c) action" where
  "send_reply Z i self s =
     rbind (get_client s self) (\<lambda>c.
     rbind (zccp_msg_send Z (zccp_msg_set_id (reply c) i) True) (\<lambda>wire.
     Inr (put_client self (c\<lparr>reply := fresh_reply (client_routing_id c)\<rparr>) (s\<lparr>out := out s @ [wire]\<rparr>))))"

definition set_state :: "state_t \<Rightarrow> ptr \<Rightarrow> ('h, 'r, 'c) action" where
  "set_state st self = with_client self (\<lambda>c. c\<lparr>state := st\<rparr>)"

definition terminate :: "ptr \<Rightarrow> ('h, 'r, 'c) action" where
  "terminate self = unless_exception self (with_client self (\<lambda>c. c\<lparr>next_event := terminate_event\<rparr>))"

definition reply_and_terminate :: "('h, 'r) czmq \<Rightarrow> int \<Rightarrow> ptr \<Rightarrow> ('h, 'r, 'c) action" where
  "reply_and_terminate Z i self s =
     rbind (unless_exception self (send_reply Z i self) s) (terminate self)"

definition in_start_state :: "('h, 'r) czmq \<Rightarrow> ptr \<Rightarrow> event_t \<Rightarrow> ('h, 'r, 'c) action" where
  "in_start_state Z self ev s =
     (if ev = hello_event then
        rbind (unless_exception self (register_new_client self) s) (\<lambda>s.
        rbind (unless_exception self (send_reply Z ZCCP_MSG_HELLO_OK self) s) (\<lambda>s.
        unless_exception self (set_state connected_state self) s))
      else if ev = goodbye_event then reply_and_terminate Z ZCCP_MSG_GOODBYE_OK self s
      else if ev = expired_event then terminate self s
      else reply_and_terminate Z ZCCP_MSG_INVALID self s)"

definition in_connected_state :: "('h, 'r) czmq \<Rightarrow> (ptr \<Rightarrow> event_t \<Rightarrow> ('h, 'r, 'c) action)
    \<Rightarrow> ptr \<Rightarrow> event_t \<Rightarrow> ('h, 'r, 'c) action" where
  "in_connected_state Z send self ev s =
     (if ev = subscribe_event then
        rbind (unless_exception self (store_new_subscription Z self) s) (\<lambda>s.
        unless_exception self (send_reply Z ZCCP_MSG_SUBSCRIBE_OK self) s)
      else if ev = publish_event then unless_exception self (forward_to_subscribers Z send self) s
      else if ev = direct_event then Inr s
      else if ev = forward_event then
        rbind (unless_exception self (get_content_to_publish Z self) s) (\<lambda>s.
        unless_exception self (send_reply Z ZCCP_MSG_DELIVER self) s)
      else if ev = goodbye_event then reply_and_terminate Z ZCCP_MSG_GOODBYE_OK self s
      else if ev = expired_event then terminate self s
      else reply_and_terminate Z ZCCP_MSG_INVALID self s)"

definition in_external_state :: "('h, 'r) czmq \<Rightarrow> ptr \<Rightarrow> event_t \<Rightarrow> ('h, 'r, 'c) action" where
  "in_external_state Z self ev s =
     (if ev = goodbye_event then reply_and_terminate Z ZCCP_MSG_GOODBYE_OK self s
      else if ev = expired_event then terminate self s
      else reply_and_terminate Z ZCCP_MSG_INVALID self s)"

text \<open>\<open>if (self->server->verbose) zsys_debug (\<dots>, table [i])\<close>\<close>

definition trace :: "string list \<Rightarrow> int \<Rightarrow> ('h, 'r, 'c) action" where
  "trace table i s = (if verbose s then rbind (name_at table i) (\<lambda>_. Inr s) else Inr s)"

definition s_client_dispatch :: "('h, 'r) czmq \<Rightarrow> (ptr \<Rightarrow> event_t \<Rightarrow> ('h, 'r, 'c) action) \<Rightarrow> ptr
    \<Rightarrow> state_t \<Rightarrow> event_t \<Rightarrow> ('h, 'r, 'c) action" where
  "s_client_dispatch Z send self st ev s = (case st of
      start_state \<Rightarrow> in_start_state Z self ev s
    | connected_state \<Rightarrow> in_connected_state Z send self ev s
    | external_state \<Rightarrow> in_external_state Z self ev s)"

text \<open>
  The end of a turn: an exception replaces the next event, termination deletes the client, and
  otherwise the mailbox may give the next event.  The result says whether the loop goes on (\<open>False\<close>
  for its \<open>break\<close>).
\<close>

definition s_client_finish :: "ptr \<Rightarrow> ('h, 'r, 'c) s_server_t \<Rightarrow> (bool \<times> ('h, 'r, 'c) s_server_t) result" where
  "s_client_finish self s =
     rbind (get_client s self) (\<lambda>c.
     rbind (if exception c \<noteq> NULL_event then
              rbind (trace s_event_name (event_index (exception c)) s)
                (with_client self (\<lambda>c. c\<lparr>next_event := exception c\<rparr>))
            else Inr s) (\<lambda>s.
     rbind (get_client s self) (\<lambda>c.
     if next_event c = terminate_event then
       rbind (zhash_delete_client (hashkey c) s) (\<lambda>s. Inr (False, s))
     else
       rbind (trace s_state_name (state_index (state c)) s) (\<lambda>s.
       if next_event c = NULL_event then
         rbind (s_client_filter_mailbox self s) (\<lambda>(ev, s).
         rbind (with_client self (\<lambda>c. c\<lparr>next_event := ev\<rparr>) s) (\<lambda>s. Inr (True, s)))
       else Inr (True, s)))))"

definition s_client_turn :: "('h, 'r) czmq \<Rightarrow> (ptr \<Rightarrow> event_t \<Rightarrow> ('h, 'r, 'c) action) \<Rightarrow> ptr
    \<Rightarrow> ('h, 'r, 'c) s_server_t \<Rightarrow> (bool \<times> ('h, 'r, 'c) s_server_t) result" where
  "s_client_turn Z send self s =
     rbind (with_client self (\<lambda>c. c\<lparr>event := next_event c, next_event := NULL_event, exception := NULL_event\<rparr>) s) (\<lambda>s.
     rbind (get_client s self) (\<lambda>c.
     rbind (trace s_state_name (state_index (state c)) s) (\<lambda>s.
     rbind (trace s_event_name (event_index (event c)) s) (\<lambda>s.
     rbind (s_client_dispatch Z send self (state c) (event c) s)
       (s_client_finish self)))))"

definition s_client_enter :: "ptr \<Rightarrow> event_t \<Rightarrow> ('h, 'r, 'c) action" where
  "s_client_enter self ev s =
     rbind (get_client s self) (\<lambda>c.
     Inr (put_client self (c\<lparr>next_event := ev, wakeup_timer := 0\<rparr>)
            (s\<lparr>loop := end_timer (wakeup_timer c) (loop s)\<rparr>)))"

primrec s_client_loop :: "('h, 'r) czmq \<Rightarrow> nat \<Rightarrow> ptr \<Rightarrow> ('h, 'r, 'c) action" where
  "s_client_loop Z 0 = (\<lambda>self s. Inl Fuel_exhausted)"
| "s_client_loop Z (Suc n) = (\<lambda>self s.
     rbind (get_client s self) (\<lambda>c.
     if next_event c = NULL_event then Inr s
     else rbind (s_client_turn Z (\<lambda>q ev s. rbind (s_client_enter q ev s) (s_client_loop Z n q)) self s)
            (\<lambda>(more, s). if more then s_client_loop Z n self s else Inr s)))"

definition s_client_execute :: "('h, 'r) czmq \<Rightarrow> nat \<Rightarrow> ptr \<Rightarrow> event_t \<Rightarrow> ('h, 'r, 'c) action" where
  "s_client_execute Z n self ev s = rbind (s_client_enter self ev s) (s_client_loop Z n self)"

definition engine_send_event :: "('h, 'r) czmq \<Rightarrow> nat \<Rightarrow> ptr \<Rightarrow> event_t \<Rightarrow> ('h, 'r, 'c) action" where
  "engine_send_event Z n client ev = s_client_execute Z n client ev"

lemma s_client_loop_Suc:
  fixes s :: "('h, 'r, 'c) s_server_t"
  shows "s_client_loop Z (Suc n) self s =
     rbind (get_client s self) (\<lambda>c.
     if next_event c = NULL_event then Inr s
     else rbind (s_client_turn Z (engine_send_event Z n) self s)
            (\<lambda>(more, s). if more then s_client_loop Z n self s else Inr s))"
proof -
  have "(\<lambda>q ev (s :: ('h, 'r, 'c) s_server_t). rbind (s_client_enter q ev s) (s_client_loop Z n q)) = engine_send_event Z n"
    by (intro ext) (simp add: engine_send_event_def s_client_execute_def)
  then show ?thesis unfolding s_client_loop.simps by (rule ssubst) (rule refl)
qed

declare s_client_loop.simps(2) [simp del]

text \<open>
  \<open>engine_broadcast_event\<close> visits the clients in the order of \<open>zhash_keys\<close>, a copy of the keys.
\<close>

fun broadcast_to_keys :: "('h, 'r) czmq \<Rightarrow> nat \<Rightarrow> ptr \<Rightarrow> event_t \<Rightarrow> cstr list \<Rightarrow> ('h, 'r, 'c) action" where
  "broadcast_to_keys Z n client ev [] s = Inr s"
| "broadcast_to_keys Z n client ev (key # keys) s =
     rbind (of_option Null_pointer (clients s key)) (\<lambda>target.
     rbind (if target \<noteq> client then s_client_execute Z n target ev s else Inr s)
       (broadcast_to_keys Z n client ev keys))"

definition engine_broadcast_event :: "('h, 'r) czmq \<Rightarrow> (cstr set \<Rightarrow> cstr list) \<Rightarrow> nat \<Rightarrow> ptr \<Rightarrow> event_t
    \<Rightarrow> ('h, 'r, 'c) action" where
  "engine_broadcast_event Z zhash_keys n client ev s =
     broadcast_to_keys Z n client ev (zhash_keys (dom (clients s))) s"

section \<open>The callbacks of the reactor\<close>

definition s_client_handle_timeout :: "('h, 'r) czmq \<Rightarrow> nat \<Rightarrow> ptr \<Rightarrow> ('h, 'r, 'c) s_server_t
    \<Rightarrow> (int \<times> ('h, 'r, 'c) s_server_t) result" where
  "s_client_handle_timeout Z n self s =
     rbind (s_client_execute Z n self expired_event s) (\<lambda>s. Inr (0, s))"

definition s_client_handle_wakeup :: "('h, 'r) czmq \<Rightarrow> nat \<Rightarrow> ptr \<Rightarrow> ('h, 'r, 'c) s_server_t
    \<Rightarrow> (int \<times> ('h, 'r, 'c) s_server_t) result" where
  "s_client_handle_wakeup Z n self s =
     rbind (get_client s self) (\<lambda>c.
     rbind (s_client_execute Z n self (wakeup_event c) s) (\<lambda>s. Inr (0, s)))"

text \<open>The context of the sender of a message, created on its first message.\<close>

definition find_client :: "('h, 'r) czmq \<Rightarrow> frame \<Rightarrow> ('h, 'r, 'c) s_server_t
    \<Rightarrow> ptr \<times> ('h, 'r, 'c) s_server_t" where
  "find_client Z rid s =
     (case clients s (strhex Z rid) of
        Some p \<Rightarrow> (p, s)
      | None \<Rightarrow> let (p, s) = s_client_new Z rid s
                in (p, s\<lparr>clients := (clients s)(strhex Z rid \<mapsto> p)\<rparr>))"

definition s_server_client_message :: "('h, 'r) czmq \<Rightarrow> nat \<Rightarrow> zmsg option \<Rightarrow> ('h, 'r, 'c) s_server_t
    \<Rightarrow> (int \<times> ('h, 'r, 'c) s_server_t) result" where
  "s_server_client_message Z n input s =
     (case zccp_msg_recv (hash Z) True input of
        None \<Rightarrow> Inr (-1, s)
      | Some msg \<Rightarrow>
          rbind (of_option Null_pointer (zccp_msg_routing_id msg)) (\<lambda>rid.
          let (client, s) = find_client Z rid s in
          rbind (get_client s client) (\<lambda>c.
          let (i, ts) = zloop_timer Z (timeout s) 1 (s_client_handle_timeout_fn client)
                          (end_timer (expiry_timer c) (loop s));
              s = put_client client (c\<lparr>expiry_timer := i, mailbox := mailbox c @ [(next_serial s, msg)]\<rparr>)
                    (s\<lparr>loop := ts, next_serial := next_serial s + 1\<rparr>)
          in rbind (s_client_filter_mailbox client s) (\<lambda>(ev, s).
             if ev \<noteq> NULL_event then
               rbind (s_client_execute Z n client ev s) (\<lambda>s. Inr (0, s))
             else Inr (0, s)))))"

end
