(* ===== verification/Zccp_Print.thy ===== *)
theory Zccp_Print
  imports Zccp_Codec
begin

text \<open>
  Printing a message (\<open>zccp_msg_print\<close> of \<^verbatim>\<open>src/zccp_msg.c\<close>).  The output is a list of lines: those
  handed to \<open>zsys_debug\<close>, with the directive \<open>%s\<close> expanded, and those that \<open>zmsg_print\<close> writes for a
  content, which are the library's: the function \<open>D\<close> is a parameter, and nothing is assumed of it.
  \<open>zsys_debug\<close> ends each line by a line break and does not escape those within it (\<open>log_text\<close>); the time
  that it writes before a line is left out.  The lemmas lead to the fact that the text tells the
  command but for its content, if no string has a line break and no header name an equals sign.
\<close>

section \<open>The printed lines\<close>

definition print_string :: "string \<Rightarrow> cstr option \<Rightarrow> cstr list" where
  "print_string name s = (case s of
      Some s \<Rightarrow> [lit (''    '' @ name @ ''='') @ [39] @ s @ [39]]
    | None \<Rightarrow> [lit (''    '' @ name @ ''='')])"

definition print_item :: "cstr \<times> cstr \<Rightarrow> cstr" where
  "print_item = (\<lambda>(name, item). lit ''        '' @ name @ lit ''='' @ item)"

definition print_headers :: "'h zhash_ops \<Rightarrow> 'h option \<Rightarrow> cstr list" where
  "print_headers H hs = lit ''    headers='' # (case hs of
      Some h \<Rightarrow> map print_item (zh_items H h)
    | None \<Rightarrow> [lit ''(NULL)''])"

definition print_content :: "(zmsg \<Rightarrow> cstr list) \<Rightarrow> zmsg option \<Rightarrow> cstr list" where
  "print_content D msg = lit ''    content='' # (case msg of
      Some frames \<Rightarrow> D frames
    | None \<Rightarrow> [lit ''(NULL)''])"

definition zccp_msg_print :: "'h zhash_ops \<Rightarrow> (zmsg \<Rightarrow> cstr list) \<Rightarrow> 'h zccp_msg \<Rightarrow> cstr list" where
  "zccp_msg_print H D self =
     (if msg_id self = ZCCP_MSG_HELLO then
        [lit ''ZCCP_MSG_HELLO:''] @ print_string ''identifier'' (identifier_field self)
          @ print_headers H (headers self)
      else if msg_id self = ZCCP_MSG_HELLO_OK then
        [lit ''ZCCP_MSG_HELLO_OK:''] @ print_headers H (headers self)
      else if msg_id self = ZCCP_MSG_SUBSCRIBE then
        [lit ''ZCCP_MSG_SUBSCRIBE:''] @ print_string ''expression'' (expression self)
          @ print_headers H (headers self)
      else if msg_id self = ZCCP_MSG_SUBSCRIBE_OK then [lit ''ZCCP_MSG_SUBSCRIBE_OK:'']
      else if msg_id self = ZCCP_MSG_PUBLISH then
        [lit ''ZCCP_MSG_PUBLISH:''] @ print_string ''address'' (address self)
          @ print_headers H (headers self) @ print_content D (content self)
      else if msg_id self = ZCCP_MSG_DIRECT then
        [lit ''ZCCP_MSG_DIRECT:''] @ print_string ''address'' (address self)
          @ print_headers H (headers self) @ print_content D (content self)
      else if msg_id self = ZCCP_MSG_DELIVER then
        [lit ''ZCCP_MSG_DELIVER:''] @ print_string ''sender'' (sender self)
          @ print_string ''address'' (address self)
          @ print_headers H (headers self) @ print_content D (content self)
      else if msg_id self = ZCCP_MSG_GOODBYE then [lit ''ZCCP_MSG_GOODBYE:'']
      else if msg_id self = ZCCP_MSG_GOODBYE_OK then
        [lit ''ZCCP_MSG_GOODBYE_OK:''] @ print_headers H (headers self)
      else if msg_id self = ZCCP_MSG_PING then [lit ''ZCCP_MSG_PING:'']
      else if msg_id self = ZCCP_MSG_PING_OK then [lit ''ZCCP_MSG_PING_OK:'']
      else if msg_id self = ZCCP_MSG_INVALID then [lit ''ZCCP_MSG_INVALID:'']
      else [])"

section \<open>The text tells the command\<close>

definition log_text :: "cstr list \<Rightarrow> cstr" where
  "log_text ls = concat (map (\<lambda>l. l @ [10]) ls)"

lemma log_text_simps [simp]: "log_text [] = []" "log_text (l # ls) = l @ 10 # log_text ls"
  by (simp_all add: log_text_def)

text \<open>The command without its content.\<close>

fun bare :: "command \<Rightarrow> command" where
  "bare (Publish a hs ms) = Publish a hs []"
| "bare (Direct a hs ms) = Direct a hs []"
| "bare (Deliver s a hs ms) = Deliver s a hs []"
| "bare c = c"

text \<open>Strings without line breaks, and header names without equals signs.\<close>

definition one_line :: "cstr option \<Rightarrow> bool" where
  "one_line s \<longleftrightarrow> (case s of None \<Rightarrow> True | Some s \<Rightarrow> 10 \<notin> set s)"

definition plain_items :: "(cstr \<times> cstr) list \<Rightarrow> bool" where
  "plain_items es \<longleftrightarrow> (\<forall>(n, v) \<in> set es. 61 \<notin> set n \<and> 10 \<notin> set n \<and> 10 \<notin> set v)"

definition legible :: "'h zhash_ops \<Rightarrow> 'h zccp_msg \<Rightarrow> bool" where
  "legible H m \<longleftrightarrow> one_line (identifier_field m) \<and> one_line (expression m) \<and> one_line (address m)
     \<and> one_line (sender m) \<and> plain_items (entries_of H (headers m))"

lemma lit_simps: "lit (a @ b) = lit a @ lit b" "lit [] = []" "lit (c # a) = of_char c # lit a"
  by (simp_all add: lit_def)

lemma of_char_octet_eq: "(of_char c :: byte) = of_char d \<Longrightarrow> c = d"
proof -
  assume a: "(of_char c :: byte) = of_char d"
  have "unat (of_char x :: byte) = of_char x" for x
    by (cases x) (simp add: of_char_def unat_of_nat)
  then show ?thesis using a by (metis of_char_eq_iff)
qed

lemma lit_eq_iff: "lit a = lit b \<longleftrightarrow> a = b"
proof -
  have "inj (of_char :: char \<Rightarrow> byte)" by (rule injI) (rule of_char_octet_eq)
  then show ?thesis by (simp add: lit_def inj_map_eq_map)
qed

lemma split_at_eq:
  "x \<notin> set a \<Longrightarrow> x \<notin> set c \<Longrightarrow> a @ x # b = c @ x # d \<Longrightarrow> a = c \<and> b = d"
proof (induction a arbitrary: c)
  case Nil
  then show ?case by (cases c) auto
next
  case (Cons y a)
  then show ?case by (cases c) auto
qed

text \<open>Lines of the text are recognised one by one.\<close>

lemma line_eq:
  "10 \<notin> set l \<Longrightarrow> 10 \<notin> set l' \<Longrightarrow> l @ 10 # t = l' @ 10 # t' \<longleftrightarrow> l = l' \<and> t = (t' :: cstr)"
  using split_at_eq [of 10 l l' t t'] by blast

lemma print_string_eq:
  assumes "one_line s" and "one_line s'" and "10 \<notin> set (lit n)"
    and "log_text (print_string n s @ ls) = log_text (print_string n s' @ ls')"
  shows "s = s' \<and> log_text ls = log_text ls'"
proof -
  have lines: "print_string n x = [hd (print_string n x)]" "one_line x \<Longrightarrow> 10 \<notin> set (hd (print_string n x))" for x
    using assms(3) by (auto simp: print_string_def one_line_def lit_simps split: option.splits)
  from assms(4) have "hd (print_string n s) @ 10 # log_text ls = hd (print_string n s') @ 10 # log_text ls'"
    by (subst (asm) lines(1) [of s], subst (asm) lines(1) [of s']) simp
  then have "hd (print_string n s) = hd (print_string n s')" "log_text ls = log_text ls'"
    using line_eq [OF lines(2) [OF assms(1)] lines(2) [OF assms(2)]] by blast+
  then show ?thesis by (auto simp: print_string_def lit_simps split: option.splits)
qed

lemma print_item_line: "plain_items [e] \<Longrightarrow> 10 \<notin> set (print_item e)"
  by (auto simp: print_item_def plain_items_def lit_simps split: prod.splits)

lemma print_item_eq:
  assumes "plain_items [e]" and "plain_items [e']" and "print_item e = print_item e'"
  shows "e = e'"
  using assms split_at_eq [of 61 "fst e" "fst e'" "snd e" "snd e'"]
  by (cases e; cases e') (simp add: print_item_def plain_items_def lit_simps)

text \<open>What may follow the headers: nothing, or a content.\<close>

definition after_headers :: "cstr list \<Rightarrow> bool" where
  "after_headers ls \<longleftrightarrow> ls = [] \<or> hd ls = lit ''    content=''"

lemma after_headers_simps [simp]: "after_headers []" "after_headers (print_content D c)"
  by (simp_all add: after_headers_def print_content_def)

lemma item_not_after:
  assumes "plain_items [e]" and "after_headers ls"
  shows "print_item e @ 10 # t \<noteq> log_text ls"
proof
  assume eq: "print_item e @ 10 # t = log_text ls"
  then obtain ls1 where "ls = lit ''    content='' # ls1" using assms(2) by (cases ls) (auto simp: after_headers_def)
  with eq have "print_item e @ 10 # t = lit ''    content='' @ 10 # log_text ls1" by simp
  then show False by (cases e) (simp add: print_item_def lit_simps)
qed

lemma print_items_eq:
  assumes "after_headers ls" and "after_headers ls'" and "plain_items es" and "plain_items es'"
    and "log_text (map print_item es @ ls) = log_text (map print_item es' @ ls')"
  shows "es = es' \<and> log_text ls = log_text ls'"
  using assms(3-5)
proof (induction es arbitrary: es')
  case Nil
  show ?case
  proof (cases es')
    case Nil
    then show ?thesis using Nil.prems(3) by simp
  next
    case (Cons e' es1)
    then have "plain_items [e']" using Nil.prems(2) by (simp add: plain_items_def)
    from item_not_after [OF this assms(1), of "log_text (map print_item es1 @ ls')"] show ?thesis
      using Nil.prems(3) Cons by simp
  qed
next
  case (Cons e es)
  have e: "plain_items [e]" "plain_items es" using Cons.prems(1) by (simp_all add: plain_items_def)
  show ?case
  proof (cases es')
    case Nil
    then show ?thesis using Cons.prems(3) item_not_after [OF e(1) assms(2)] by simp
  next
    case (Cons e' es1)
    then have e': "plain_items [e']" "plain_items es1" using Cons.prems(2) by (simp_all add: plain_items_def)
    have "print_item e = print_item e'" "log_text (map print_item es @ ls) = log_text (map print_item es1 @ ls')"
      using Cons.prems(3) line_eq [OF print_item_line [OF e(1)] print_item_line [OF e'(1)]] by (simp_all add: Cons)
    then show ?thesis using print_item_eq [OF e(1) e'(1)] Cons.IH [OF e(2) e'(2)] by (simp add: Cons)
  qed
qed

lemma null_not_items:
  assumes "after_headers ls" and "plain_items es"
  shows "lit ''(NULL)'' @ 10 # t \<noteq> log_text (map print_item es @ ls)"
proof (cases es)
  case Nil
  show ?thesis
  proof
    assume eq: "lit ''(NULL)'' @ 10 # t = log_text (map print_item es @ ls)"
    then obtain ls1 where "ls = lit ''    content='' # ls1"
      using assms(1) Nil by (cases ls) (auto simp: after_headers_def)
    with eq Nil show False by (simp add: lit_simps)
  qed
next
  case (Cons e es1)
  then show ?thesis by (cases e) (simp add: print_item_def lit_simps)
qed

lemma print_headers_eq:
  assumes "after_headers ls" and "after_headers ls'"
    and "plain_items (entries_of H h)" and "plain_items (entries_of H h')"
    and "log_text (print_headers H h @ ls) = log_text (print_headers H h' @ ls')"
  shows "entries_of H h = entries_of H h' \<and> log_text ls = log_text ls'"
proof (cases h)
  case None
  then show ?thesis using assms(5) null_not_items [OF assms(2,4)]
    by (cases h') (auto simp: print_headers_def entries_of_def)
next
  case (Some d)
  note h = Some
  show ?thesis
  proof (cases h')
    case None
    then show ?thesis using h assms(5) null_not_items [OF assms(1,3), symmetric]
      by (auto simp: print_headers_def entries_of_def)
  next
    case (Some d')
    then show ?thesis
      using h assms(5) print_items_eq [OF assms(1-4)] by (auto simp: print_headers_def entries_of_def)
  qed
qed

text \<open>The names of the two tables agree: the first line is the name that \<open>zccp_msg_command\<close> gives.\<close>

lemma print_first_line:
  assumes "1 \<le> msg_id m" and "msg_id m \<le> 12"
  shows "\<exists>ls. zccp_msg_print H D m = lit (''ZCCP_MSG_'' @ zccp_msg_command m @ '':'') # ls"
    and "10 \<notin> set (lit (''ZCCP_MSG_'' @ zccp_msg_command m @ '':''))"
proof -
  have id: "1 \<le> msg_id m \<and> msg_id m \<le> 12" using assms by simp
  then show "\<exists>ls. zccp_msg_print H D m = lit (''ZCCP_MSG_'' @ zccp_msg_command m @ '':'') # ls"
    unfolding known_id_iff by (elim disjE) (simp_all add: zccp_msg_print_def zccp_msg_command_def)
  show "10 \<notin> set (lit (''ZCCP_MSG_'' @ zccp_msg_command m @ '':''))"
    using id unfolding known_id_iff by (elim disjE) (simp_all add: zccp_msg_command_def lit_simps)
qed

lemma print_command:
  assumes "1 \<le> msg_id m \<and> msg_id m \<le> 12" and "1 \<le> msg_id m' \<and> msg_id m' \<le> 12"
    and "log_text (zccp_msg_print H D m) = log_text (zccp_msg_print H D m')"
  shows "msg_id m = msg_id m'"
proof -
  obtain ls ls' where ls: "zccp_msg_print H D m = lit (''ZCCP_MSG_'' @ zccp_msg_command m @ '':'') # ls"
      "zccp_msg_print H D m' = lit (''ZCCP_MSG_'' @ zccp_msg_command m' @ '':'') # ls'"
    using assms(1,2) print_first_line(1) by metis
  have "lit (''ZCCP_MSG_'' @ zccp_msg_command m @ '':'') = lit (''ZCCP_MSG_'' @ zccp_msg_command m' @ '':'')"
    using assms ls line_eq [OF print_first_line(2) print_first_line(2), of m m' "log_text ls" "log_text ls'"] by simp
  then have "zccp_msg_command m = zccp_msg_command m'" by (simp add: lit_eq_iff)
  then show ?thesis using assms(1,2) unfolding known_id_iff
    by (elim disjE) (simp_all add: zccp_msg_command_def)
qed

context zhash_api
begin

lemma dict_of_entries: "dict_of H h = map_of (entries_of H h)"
  by (cases h) (simp_all add: entries_of_def items_lookup)

lemma print_shows_command:
  assumes "1 \<le> msg_id m \<and> msg_id m \<le> 12" and "1 \<le> msg_id m' \<and> msg_id m' \<le> 12"
    and "legible H m" and "legible H m'" and "log_text (zccp_msg_print H D m) = log_text (zccp_msg_print H D m')"
  shows "map_option bare (command_of H m) = map_option bare (command_of H m')"
    and "msg_id m \<in> {ZCCP_MSG_PUBLISH, ZCCP_MSG_DIRECT, ZCCP_MSG_DELIVER} \<Longrightarrow>
      log_text (print_content D (content m)) = log_text (print_content D (content m'))"
proof -
  have i: "msg_id m' = msg_id m" using print_command [OF assms(1,2,5)] by simp
  have plain: "one_line (identifier_field m)" "one_line (expression m)" "one_line (address m)" "one_line (sender m)"
      "plain_items (entries_of H (headers m))" "one_line (identifier_field m')" "one_line (expression m')"
      "one_line (address m')" "one_line (sender m')" "plain_items (entries_of H (headers m'))"
    using assms(3,4) by (simp_all add: legible_def)
  note headers = print_headers_eq [OF _ _ plain(5,10)]
  have alone: "entries_of H (headers m) = entries_of H (headers m')"
    if "log_text (print_headers H (headers m)) = log_text (print_headers H (headers m'))"
    using headers [of "[]" "[]"] that by simp
  have names: "10 \<notin> set (lit ''identifier'')" "10 \<notin> set (lit ''expression'')" "10 \<notin> set (lit ''address'')"
      "10 \<notin> set (lit ''sender'')" by (simp_all add: lit_simps)
  note strings = print_string_eq [OF plain(1,6) names(1)] print_string_eq [OF plain(2,7) names(2)]
    print_string_eq [OF plain(3,8) names(3)] print_string_eq [OF plain(4,9) names(4)]
  have "map_option bare (command_of H m) = map_option bare (command_of H m')
      \<and> (msg_id m \<in> {5, 6, 7} \<longrightarrow> log_text (print_content D (content m)) = log_text (print_content D (content m')))"
    using assms(1,5) i unfolding known_id_iff
    by (elim disjE) (auto simp: command_of_def zccp_msg_print_def dict_of_entries
        dest!: strings dest: alone headers [OF after_headers_simps(2) after_headers_simps(2)])
  then show "map_option bare (command_of H m) = map_option bare (command_of H m')"
    and "msg_id m \<in> {ZCCP_MSG_PUBLISH, ZCCP_MSG_DIRECT, ZCCP_MSG_DELIVER} \<Longrightarrow>
      log_text (print_content D (content m)) = log_text (print_content D (content m'))" by auto
qed

end

end
