(* ===== verification/Codec_Selftest.thy ===== *)
theory Codec_Selftest
  imports Zccp_Print Engine_Base
begin

text \<open>
  The self test of the message class (\<open>zccp_msg_test\<close> of \<^verbatim>\<open>src/zccp_msg.c\<close>), as a program over the model:
  every assertion it makes, for the messages that it sends from a \<open>DEALER\<close> socket to a \<open>ROUTER\<close> socket.
  The transport between the two hands over the messages in order and puts the identifier \<open>rid\<close> of the
  dealer in front of each.  The test is run symbolically: the last lemmas show that it passes with every
  library and every identifier.
\<close>

section \<open>The steps of a test\<close>

definition c_assert :: "bool \<Rightarrow> unit result" where
  "c_assert b = (if b then Inr () else Inl Assertion_failed)"

definition assert_streq :: "cstr option \<Rightarrow> cstr \<Rightarrow> unit result" where
  "assert_streq s t = (case s of None \<Rightarrow> Inl Null_pointer | Some s \<Rightarrow> c_assert (s = t))"

definition life :: cstr where
  "life = lit ''Life is short but Now lasts for ever''"

text \<open>Check that \<open>zccp_msg_dup\<close> works on an empty message.\<close>

definition check_dup :: "('h, 'r) czmq \<Rightarrow> 'h zccp_msg \<Rightarrow> unit result" where
  "check_dup Z self = c_assert (zccp_msg_dup (hash Z) (Some self) \<noteq> None)"

text \<open>\<open>zccp_msg_headers_insert (self, key, "%d", value)\<close>\<close>

definition headers_insert_decimal :: "('h, 'r) czmq \<Rightarrow> 'h zccp_msg \<Rightarrow> cstr \<Rightarrow> int \<Rightarrow> 'h zccp_msg" where
  "headers_insert_decimal Z self key value =
     (let h = (case headers self of None \<Rightarrow> zh_new (hash Z) | Some h \<Rightarrow> h)
      in self\<lparr>headers := Some (zh_update (hash Z) h key (decimal value))\<rparr>)"

definition insert_name_and_age :: "('h, 'r) czmq \<Rightarrow> 'h zccp_msg \<Rightarrow> 'h zccp_msg result" where
  "insert_name_and_age Z self =
     rbind (zccp_msg_headers_insert Z self (lit ''Name'') (Some (lit ''Brutus''))) (\<lambda>self.
     Inr (headers_insert_decimal Z self (lit ''Age'') 43))"

definition check_name_and_age :: "('h, 'r) czmq \<Rightarrow> 'h zccp_msg \<Rightarrow> unit result" where
  "check_name_and_age Z self =
     rbind (zccp_msg_headers_size (hash Z) self) (\<lambda>n.
     rbind (c_assert (n = 2)) (\<lambda>_.
     rbind (assert_streq (zccp_msg_headers_string (hash Z) self (lit ''Name'') (Some (lit ''?''))) (lit ''Brutus'')) (\<lambda>_.
     c_assert (zccp_msg_headers_number (hash Z) self (lit ''Age'') 0 = 43))))"

text \<open>A content of one frame, added through the pointer that \<open>zccp_msg_content\<close> returns.\<close>

definition put_hello_world :: "'h zccp_msg \<Rightarrow> 'h zccp_msg result" where
  "put_hello_world self =
     (let self = zccp_msg_set_content self (Some [])
      in case zccp_msg_content self of
           None \<Rightarrow> Inl Null_pointer
         | Some frames \<Rightarrow> Inr (self\<lparr>content := Some (frames @ [lit ''Hello, World''])\<rparr>))"

definition check_content_size :: "'h zccp_msg \<Rightarrow> unit result" where
  "check_content_size self = (case zccp_msg_content self of
      None \<Rightarrow> Inl Null_pointer
    | Some frames \<Rightarrow> c_assert (length frames = 1))"

text \<open>Send twice from the same object.\<close>

definition send_twice :: "('h, 'r) czmq \<Rightarrow> frame \<Rightarrow> 'h zccp_msg \<Rightarrow> zmsg list \<Rightarrow> zmsg list result" where
  "send_twice Z rid self input =
     rbind (zccp_msg_send_again Z self False) (\<lambda>wire.
     rbind (zccp_msg_send Z self False) (\<lambda>wire'.
     Inr (input @ [rid # wire, rid # wire'])))"

fun receive_each :: "('h, 'r) czmq \<Rightarrow> ('h zccp_msg \<Rightarrow> unit result) \<Rightarrow> nat \<Rightarrow> zmsg list \<Rightarrow> zmsg list result" where
  "receive_each Z check 0 input = Inr input"
| "receive_each Z check (Suc n) [] = Inl Blocked"
| "receive_each Z check (Suc n) (msg # input) =
     rbind (of_option Assertion_failed (zccp_msg_recv (hash Z) True (Some msg))) (\<lambda>self.
     rbind (c_assert (zccp_msg_routing_id self \<noteq> None)) (\<lambda>_.
     rbind (check self) (\<lambda>_.
     receive_each Z check n input)))"

section \<open>One test per command\<close>

definition test_bare :: "('h, 'r) czmq \<Rightarrow> frame \<Rightarrow> int \<Rightarrow> zmsg list \<Rightarrow> zmsg list result" where
  "test_bare Z rid i input =
     (let self = zccp_msg_new i in
      rbind (check_dup Z self) (\<lambda>_.
      rbind (send_twice Z rid self input) (\<lambda>input.
      receive_each Z (\<lambda>self. Inr ()) 2 input)))"

definition test_hello :: "('h, 'r) czmq \<Rightarrow> frame \<Rightarrow> zmsg list \<Rightarrow> zmsg list result" where
  "test_hello Z rid input =
     (let self = zccp_msg_new ZCCP_MSG_HELLO in
      rbind (check_dup Z self) (\<lambda>_.
      rbind (zccp_msg_set_identifier Z self (Some life)) (\<lambda>self.
      rbind (insert_name_and_age Z self) (\<lambda>self.
      rbind (send_twice Z rid self input) (\<lambda>input.
      receive_each Z (\<lambda>self.
        rbind (assert_streq (zccp_msg_identifier self) life) (\<lambda>_.
        check_name_and_age Z self)) 2 input)))))"

definition test_hello_ok :: "('h, 'r) czmq \<Rightarrow> frame \<Rightarrow> zmsg list \<Rightarrow> zmsg list result" where
  "test_hello_ok Z rid input =
     (let self = zccp_msg_new ZCCP_MSG_HELLO_OK in
      rbind (check_dup Z self) (\<lambda>_.
      rbind (insert_name_and_age Z self) (\<lambda>self.
      rbind (send_twice Z rid self input) (\<lambda>input.
      receive_each Z (\<lambda>self.
        check_name_and_age Z self) 2 input))))"

definition test_subscribe :: "('h, 'r) czmq \<Rightarrow> frame \<Rightarrow> zmsg list \<Rightarrow> zmsg list result" where
  "test_subscribe Z rid input =
     (let self = zccp_msg_new ZCCP_MSG_SUBSCRIBE in
      rbind (check_dup Z self) (\<lambda>_.
      rbind (zccp_msg_set_expression Z self (Some life)) (\<lambda>self.
      rbind (insert_name_and_age Z self) (\<lambda>self.
      rbind (send_twice Z rid self input) (\<lambda>input.
      receive_each Z (\<lambda>self.
        rbind (assert_streq (zccp_msg_expression self) life) (\<lambda>_.
        check_name_and_age Z self)) 2 input)))))"

definition test_subscribe_ok :: "('h, 'r) czmq \<Rightarrow> frame \<Rightarrow> zmsg list \<Rightarrow> zmsg list result" where
  "test_subscribe_ok Z rid input = test_bare Z rid ZCCP_MSG_SUBSCRIBE_OK input"

definition test_publish :: "('h, 'r) czmq \<Rightarrow> frame \<Rightarrow> zmsg list \<Rightarrow> zmsg list result" where
  "test_publish Z rid input =
     (let self = zccp_msg_new ZCCP_MSG_PUBLISH in
      rbind (check_dup Z self) (\<lambda>_.
      rbind (zccp_msg_set_address Z self (Some life)) (\<lambda>self.
      rbind (insert_name_and_age Z self) (\<lambda>self.
      rbind (put_hello_world self) (\<lambda>self.
      rbind (send_twice Z rid self input) (\<lambda>input.
      receive_each Z (\<lambda>self.
        rbind (assert_streq (zccp_msg_address self) life) (\<lambda>_.
        rbind (check_name_and_age Z self) (\<lambda>_.
        check_content_size self))) 2 input))))))"

definition test_direct :: "('h, 'r) czmq \<Rightarrow> frame \<Rightarrow> zmsg list \<Rightarrow> zmsg list result" where
  "test_direct Z rid input =
     (let self = zccp_msg_new ZCCP_MSG_DIRECT in
      rbind (check_dup Z self) (\<lambda>_.
      rbind (zccp_msg_set_address Z self (Some life)) (\<lambda>self.
      rbind (insert_name_and_age Z self) (\<lambda>self.
      rbind (put_hello_world self) (\<lambda>self.
      rbind (send_twice Z rid self input) (\<lambda>input.
      receive_each Z (\<lambda>self.
        rbind (assert_streq (zccp_msg_address self) life) (\<lambda>_.
        rbind (check_name_and_age Z self) (\<lambda>_.
        check_content_size self))) 2 input))))))"

definition test_deliver :: "('h, 'r) czmq \<Rightarrow> frame \<Rightarrow> zmsg list \<Rightarrow> zmsg list result" where
  "test_deliver Z rid input =
     (let self = zccp_msg_new ZCCP_MSG_DELIVER in
      rbind (check_dup Z self) (\<lambda>_.
      rbind (zccp_msg_set_sender Z self (Some life)) (\<lambda>self.
      rbind (zccp_msg_set_address Z self (Some life)) (\<lambda>self.
      rbind (insert_name_and_age Z self) (\<lambda>self.
      rbind (put_hello_world self) (\<lambda>self.
      rbind (send_twice Z rid self input) (\<lambda>input.
      receive_each Z (\<lambda>self.
        rbind (assert_streq (zccp_msg_sender self) life) (\<lambda>_.
        rbind (assert_streq (zccp_msg_address self) life) (\<lambda>_.
        rbind (check_name_and_age Z self) (\<lambda>_.
        check_content_size self)))) 2 input)))))))"

definition test_goodbye :: "('h, 'r) czmq \<Rightarrow> frame \<Rightarrow> zmsg list \<Rightarrow> zmsg list result" where
  "test_goodbye Z rid input = test_bare Z rid ZCCP_MSG_GOODBYE input"

definition test_goodbye_ok :: "('h, 'r) czmq \<Rightarrow> frame \<Rightarrow> zmsg list \<Rightarrow> zmsg list result" where
  "test_goodbye_ok Z rid input =
     (let self = zccp_msg_new ZCCP_MSG_GOODBYE_OK in
      rbind (check_dup Z self) (\<lambda>_.
      rbind (insert_name_and_age Z self) (\<lambda>self.
      rbind (send_twice Z rid self input) (\<lambda>input.
      receive_each Z (\<lambda>self.
        check_name_and_age Z self) 2 input))))"

definition test_ping :: "('h, 'r) czmq \<Rightarrow> frame \<Rightarrow> zmsg list \<Rightarrow> zmsg list result" where
  "test_ping Z rid input = test_bare Z rid ZCCP_MSG_PING input"

definition test_ping_ok :: "('h, 'r) czmq \<Rightarrow> frame \<Rightarrow> zmsg list \<Rightarrow> zmsg list result" where
  "test_ping_ok Z rid input = test_bare Z rid ZCCP_MSG_PING_OK input"

definition test_invalid :: "('h, 'r) czmq \<Rightarrow> frame \<Rightarrow> zmsg list \<Rightarrow> zmsg list result" where
  "test_invalid Z rid input = test_bare Z rid ZCCP_MSG_INVALID input"

definition zccp_msg_test :: "('h, 'r) czmq \<Rightarrow> frame \<Rightarrow> int result" where
  "zccp_msg_test Z rid =
     rbind (test_hello Z rid []) (\<lambda>input.
     rbind (test_hello_ok Z rid input) (\<lambda>input.
     rbind (test_subscribe Z rid input) (\<lambda>input.
     rbind (test_subscribe_ok Z rid input) (\<lambda>input.
     rbind (test_publish Z rid input) (\<lambda>input.
     rbind (test_direct Z rid input) (\<lambda>input.
     rbind (test_deliver Z rid input) (\<lambda>input.
     rbind (test_goodbye Z rid input) (\<lambda>input.
     rbind (test_goodbye_ok Z rid input) (\<lambda>input.
     rbind (test_ping Z rid input) (\<lambda>input.
     rbind (test_ping_ok Z rid input) (\<lambda>input.
     rbind (test_invalid Z rid input) (\<lambda>input.
     Inr 0))))))))))))"

section \<open>The test passes\<close>

text \<open>What is received for a message \<open>self\<close>, sent itself or as a copy.\<close>

definition arrived :: "'h zhash_ops \<Rightarrow> frame \<Rightarrow> 'h zccp_msg \<Rightarrow> 'h zccp_msg \<Rightarrow> bool" where
  "arrived H rid self m \<longleftrightarrow> (\<exists>copy. (copy = self \<or> zccp_msg_dup H (Some self) = Some copy)
     \<and> m = (received H copy (encode_content copy))\<lparr>routing_id := Some rid\<rparr>)"

context zhash_api
begin

lemma send_received:
  assumes "hash Z = H" and "msg_ok self" and "fields_fit H self" and "1 \<le> msg_id self \<and> msg_id self \<le> 12"
    and "routing_id self = None"
  shows "\<exists>wire. zccp_msg_send Z self False = Inr wire \<and> zccp_msg_recv H True (Some (rid # wire))
    = Some ((received H self (encode_content self))\<lparr>routing_id := Some rid\<rparr>)"
proof -
  have "self\<lparr>routing_id := None\<rparr> = self" using assms(5) by simp
  then show ?thesis
    using encode_is_grammar [of Z self] decode_encoded [OF assms(3,4)] assms(1-4) zhash_api_axioms
    by (auto simp: zccp_msg_send_def zccp_msg_recv_def)
qed

text \<open>The commands with a dictionary.\<close>

abbreviation dict_ids :: "int set" where
  "dict_ids \<equiv> {ZCCP_MSG_HELLO, ZCCP_MSG_HELLO_OK, ZCCP_MSG_SUBSCRIBE, ZCCP_MSG_PUBLISH, ZCCP_MSG_DIRECT,
     ZCCP_MSG_DELIVER, ZCCP_MSG_GOODBYE_OK}"

lemma dup_fields:
  assumes "zccp_msg_dup H (Some self) = Some copy"
  shows "msg_id self = ZCCP_MSG_HELLO \<Longrightarrow> identifier_field copy = identifier_field self"
    and "msg_id self = ZCCP_MSG_SUBSCRIBE \<Longrightarrow> expression copy = expression self"
    and "msg_id self \<in> {ZCCP_MSG_PUBLISH, ZCCP_MSG_DIRECT, ZCCP_MSG_DELIVER} \<Longrightarrow>
      address copy = address self \<and> content copy = content self"
    and "msg_id self = ZCCP_MSG_DELIVER \<Longrightarrow> sender copy = sender self"
    and "msg_id self \<in> dict_ids \<Longrightarrow> headers copy = map_option (zh_dup H) (headers self)"
  using assms by (auto simp: zccp_msg_dup_def zccp_msg_new_def Let_def)

lemma dup_sendable:
  assumes "msg_ok self" and "fields_fit H self" and "zccp_msg_dup H (Some self) = Some copy"
  shows "msg_ok copy" and "fields_fit H copy" and "msg_id copy = msg_id self" and "routing_id copy = routing_id self"
proof -
  show "msg_ok copy" by (rule msg_ok_dup [OF assms(3)])
  show "msg_id copy = msg_id self" "routing_id copy = routing_id self"
    using command_of_dup [OF assms(3)] by simp_all
  note id = \<open>msg_id copy = msg_id self\<close> and same = dup_fields [OF assms(3)]
  have "dict_fits H (headers copy)" if "msg_id self \<in> dict_ids"
    using that assms(2) same(5) dict_fits_dup [OF zhash_api_axioms, of "headers self"]
    by (simp add: fields_fit_def)
  then show "fields_fit H copy"
    using assms(2) same(1-4) unfolding fields_fit_def id by simp
qed

lemma received_twice:
  assumes "hash Z = H" and "msg_ok self" and "fields_fit H self" and "1 \<le> msg_id self \<and> msg_id self \<le> 12"
    and "routing_id self = None" and check: "\<And>m. arrived H rid self m \<Longrightarrow> check m = Inr ()"
  shows "rbind (send_twice Z rid self []) (receive_each Z check 2) = Inr []"
proof -
  obtain copy where copy: "zccp_msg_dup H (Some self) = Some copy" by (auto simp: zccp_msg_dup_def Let_def)
  note ok = dup_sendable [OF assms(2,3) copy]
  from send_received [OF assms(1-5), of rid] obtain w where w: "zccp_msg_send Z self False = Inr w"
      "zccp_msg_recv H True (Some (rid # w)) = Some ((received H self (encode_content self))\<lparr>routing_id := Some rid\<rparr>)"
    by blast
  from send_received [OF assms(1) ok(1,2), of rid] ok(3,4) assms(4,5) obtain v where v: "zccp_msg_send Z copy False = Inr v"
      "zccp_msg_recv H True (Some (rid # v)) = Some ((received H copy (encode_content copy))\<lparr>routing_id := Some rid\<rparr>)"
    by auto
  have "check ((received H self (encode_content self))\<lparr>routing_id := Some rid\<rparr>) = Inr ()"
      "check ((received H copy (encode_content copy))\<lparr>routing_id := Some rid\<rparr>) = Inr ()"
    using copy by (auto intro!: check simp: arrived_def)
  then show ?thesis
    using w v copy assms(1)
    by (simp add: send_twice_def zccp_msg_send_again_def numeral_2_eq_2 c_assert_def zccp_msg_routing_id_def)
qed

text \<open>The fields of a message received.\<close>

lemma dict_received:
  "zh_lookup H (dict_new H (entries_of H h)) = dict_of H h"
  "zh_size H (dict_new H (entries_of H h)) = card (dom (dict_of H h))"
  by (simp_all add: dict_of_received size_card)

lemma received_fields:
  "msg_id m = ZCCP_MSG_HELLO \<Longrightarrow> identifier_field (received H m msg) = Some (text_of (identifier_field m))"
  "msg_id m = ZCCP_MSG_SUBSCRIBE \<Longrightarrow> expression (received H m msg) = Some (text_of (expression m))"
  "msg_id m \<in> {ZCCP_MSG_PUBLISH, ZCCP_MSG_DIRECT, ZCCP_MSG_DELIVER} \<Longrightarrow>
     address (received H m msg) = Some (text_of (address m)) \<and> content (received H m msg) = Some msg"
  "msg_id m = ZCCP_MSG_DELIVER \<Longrightarrow> sender (received H m msg) = Some (text_of (sender m))"
  "msg_id m \<in> dict_ids \<Longrightarrow> headers (received H m msg) = Some (dict_new H (entries_of H (headers m)))"
  by (auto simp: received_def Let_def)

lemma arrived_fields:
  assumes "arrived H rid self m"
  shows "msg_id self = ZCCP_MSG_HELLO \<Longrightarrow> identifier_field m = Some (text_of (identifier_field self))"
    and "msg_id self = ZCCP_MSG_SUBSCRIBE \<Longrightarrow> expression m = Some (text_of (expression self))"
    and "msg_id self \<in> {ZCCP_MSG_PUBLISH, ZCCP_MSG_DIRECT, ZCCP_MSG_DELIVER} \<Longrightarrow>
      address m = Some (text_of (address self)) \<and> content m = Some (frames_of (content self))"
    and "msg_id self = ZCCP_MSG_DELIVER \<Longrightarrow> sender m = Some (text_of (sender self))"
    and "msg_id self \<in> dict_ids \<Longrightarrow> \<exists>h. headers m = Some h \<and> zh_lookup H h = dict_of H (headers self)
        \<and> zh_size H h = card (dom (dict_of H (headers self)))"
proof -
  obtain copy where m: "m = (received H copy (encode_content copy))\<lparr>routing_id := Some rid\<rparr>"
    and copy: "copy = self \<or> zccp_msg_dup H (Some self) = Some copy"
    using assms by (auto simp: arrived_def)
  have id: "msg_id copy = msg_id self" using copy command_of_dup [of self copy] by auto
  note same = dup_fields [of self copy] and got = received_fields [of copy "encode_content copy"]
  show "identifier_field m = Some (text_of (identifier_field self))" if "msg_id self = ZCCP_MSG_HELLO"
    using copy that id same(1) got(1) by (auto simp: m)
  show "expression m = Some (text_of (expression self))" if "msg_id self = ZCCP_MSG_SUBSCRIBE"
    using copy that id same(2) got(2) by (auto simp: m)
  show "address m = Some (text_of (address self)) \<and> content m = Some (frames_of (content self))"
    if i: "msg_id self \<in> {ZCCP_MSG_PUBLISH, ZCCP_MSG_DIRECT, ZCCP_MSG_DELIVER}"
  proof -
    have "encode_content copy = frames_of (content copy)"
      using i id by (auto simp: encode_content_frames)
    then show ?thesis using copy i id same(3) got(3) by (auto simp: m)
  qed
  show "sender m = Some (text_of (sender self))" if "msg_id self = ZCCP_MSG_DELIVER"
    using copy that id same(4) got(4) by (auto simp: m)
  show "\<exists>h. headers m = Some h \<and> zh_lookup H h = dict_of H (headers self)
      \<and> zh_size H h = card (dom (dict_of H (headers self)))" if i: "msg_id self \<in> dict_ids"
  proof -
    have "headers copy = headers self \<or> headers copy = map_option (zh_dup H) (headers self)"
      using copy same(5) i by blast
    then have "dict_of H (headers copy) = dict_of H (headers self)" using dict_of_dup by auto
    then show ?thesis using got(5) i id dict_received [of "headers copy"] by (simp add: m)
  qed
qed

end

text \<open>The two headers of the test.\<close>

definition two_headers :: "cstr \<rightharpoonup> cstr" where
  "two_headers = [lit ''Name'' \<mapsto> lit ''Brutus'', lit ''Age'' \<mapsto> decimal 43]"

lemma decimal_43: "decimal 43 = [52, 51]"
  by (simp add: decimal_def digits.simps)

lemma two_headers_facts:
  "two_headers (lit ''Name'') = Some (lit ''Brutus'')" "two_headers (lit ''Age'') = Some (decimal 43)"
  "dom two_headers = {lit ''Name'', lit ''Age''}" "card (dom two_headers) = 2"
  by (auto simp: two_headers_def lit_eq_iff split: if_splits)

lemma two_headers_fit: "two_headers k = Some v \<Longrightarrow> entry_fits (k, v)"
  by (auto simp: two_headers_def entry_fits_def sized_fits_def wf_cstr_def decimal_43 lit_simps split: if_splits)

lemma life_fits: "sized_fits 1 life" "sized_fits (Suc 0) life"
  by (simp_all add: sized_fits_def wf_cstr_def life_def lit_simps)

context czmq_api
begin

lemma format_life: "format_string Z (Some life) = Inr life"
  by (simp add: format_string_def vprintf_plain life_def lit_simps)

lemma insert_two:
  assumes "headers self = None"
  shows "\<exists>h. insert_name_and_age Z self = Inr (self\<lparr>headers := Some h\<rparr>) \<and> zh_lookup (hash Z) h = two_headers"
proof -
  have "vprintf Z (lit ''Brutus'') = Some (lit ''Brutus'')" by (rule vprintf_plain) (simp add: lit_simps)
  then have "insert_name_and_age Z self = Inr (self\<lparr>headers := Some (zh_update (hash Z)
      (zh_update (hash Z) (zh_new (hash Z)) (lit ''Name'') (lit ''Brutus'')) (lit ''Age'') (decimal 43))\<rparr>)"
    using assms by (simp add: insert_name_and_age_def zccp_msg_headers_insert_def
        format_string_def Let_def headers_insert_decimal_def)
  moreover have "zh_lookup (hash Z) (zh_update (hash Z)
      (zh_update (hash Z) (zh_new (hash Z)) (lit ''Name'') (lit ''Brutus'')) (lit ''Age'') (decimal 43)) = two_headers"
    by (simp only: lookup_update lookup_new two_headers_def)
  ultimately show ?thesis by blast
qed

lemma two_fit:
  assumes "zh_lookup (hash Z) h = two_headers"
  shows "dict_fits (hash Z) (Some h)"
proof -
  have "length (zh_items (hash Z) h) = 2"
    using size_card [of h] size_items [of h] by (simp add: assms two_headers_facts(4))
  then show ?thesis
    using two_headers_fit by (auto simp: dict_fits_def entries_of_def items_iff assms)
qed

lemma check_two:
  assumes "headers m = Some h" and "zh_lookup (hash Z) h = two_headers" and "zh_size (hash Z) h = 2"
  shows "check_name_and_age Z m = Inr ()"
  using assms two_headers_facts(1,2)
  by (simp add: check_name_and_age_def zccp_msg_headers_size_def zccp_msg_headers_string_def
      zccp_msg_headers_number_def c_assert_def assert_streq_def atol_decimal)

lemma checked_two:
  assumes "arrived (hash Z) rid self m" and "msg_id self \<in> dict_ids" and "dict_of (hash Z) (headers self) = two_headers"
  shows "check_name_and_age Z m = Inr ()"
  using arrived_fields(5) [OF assms(1,2)] check_two [of m] by (auto simp: assms(3) two_headers_facts(4))

lemma bare_passes:
  assumes "i \<in> {ZCCP_MSG_SUBSCRIBE_OK, ZCCP_MSG_GOODBYE, ZCCP_MSG_PING, ZCCP_MSG_PING_OK, ZCCP_MSG_INVALID}"
  shows "test_bare Z rid i [] = Inr []"
  using assms received_twice [of Z "zccp_msg_new i" rid "\<lambda>_. Inr ()"]
  by (auto simp: test_bare_def check_dup_def c_assert_def zccp_msg_dup_def Let_def fields_fit_def zccp_msg_new_def
      msg_ok_def)

text \<open>A message with the two headers passes, when \<open>f\<close> is what is done to it before it is sent.\<close>

lemma headers_pass:
  assumes "headers s = None" and "msg_id s \<in> dict_ids"
    and f: "\<And>h. headers (f (s\<lparr>headers := Some h\<rparr>)) = Some h \<and> msg_ok (f (s\<lparr>headers := Some h\<rparr>))
      \<and> routing_id (f (s\<lparr>headers := Some h\<rparr>)) = None \<and> msg_id (f (s\<lparr>headers := Some h\<rparr>)) = msg_id s"
    and fit: "\<And>h. dict_fits (hash Z) (Some h) \<Longrightarrow> fields_fit (hash Z) (f (s\<lparr>headers := Some h\<rparr>))"
    and check: "\<And>h m. arrived (hash Z) rid (f (s\<lparr>headers := Some h\<rparr>)) m \<Longrightarrow> check_name_and_age Z m = Inr ()
      \<Longrightarrow> check m = Inr ()"
  shows "rbind (insert_name_and_age Z s) (\<lambda>self. rbind (send_twice Z rid (f self) []) (receive_each Z check 2))
    = Inr []"
proof -
  obtain h where h: "insert_name_and_age Z s = Inr (s\<lparr>headers := Some h\<rparr>)" "zh_lookup (hash Z) h = two_headers"
    using insert_two [OF assms(1)] by blast
  let ?m = "f (s\<lparr>headers := Some h\<rparr>)"
  have ids: "msg_id ?m \<in> dict_ids" using f [of h] assms(2) by simp
  then have "1 \<le> msg_id ?m \<and> msg_id ?m \<le> 12" by auto
  moreover have "check m = Inr ()" if "arrived (hash Z) rid ?m m" for m
    using check [OF that checked_two [OF that ids]] f [of h] h(2) by simp
  ultimately have "rbind (send_twice Z rid ?m []) (receive_each Z check 2) = Inr []"
    using f [of h] fit [OF two_fit [OF h(2)]] by (intro received_twice) auto
  then show ?thesis by (simp add: h(1))
qed

lemma put_hello: "put_hello_world s = Inr (s\<lparr>content := Some [lit ''Hello, World'']\<rparr>)"
  by (simp add: put_hello_world_def zccp_msg_set_content_def zccp_msg_content_def)

lemma dup_checked: "check_dup Z s = Inr ()"
  by (simp add: check_dup_def c_assert_def zccp_msg_dup_def Let_def)

lemmas test_defs = check_content_size_def assert_streq_def c_assert_def zccp_msg_new_def dup_checked put_hello
  setter_defs format_life fields_fit_def opt_fits_def life_fits msg_ok_def zccp_msg_identifier_def
  zccp_msg_expression_def zccp_msg_address_def zccp_msg_sender_def zccp_msg_content_def

lemma hello_ok_passes: "test_hello_ok Z rid [] = Inr []"
  using headers_pass [of "zccp_msg_new ZCCP_MSG_HELLO_OK" "\<lambda>m. m" rid "check_name_and_age Z"]
  by (simp add: test_hello_ok_def test_defs)

lemma goodbye_ok_passes: "test_goodbye_ok Z rid [] = Inr []"
  using headers_pass [of "zccp_msg_new ZCCP_MSG_GOODBYE_OK" "\<lambda>m. m" rid "check_name_and_age Z"]
  by (simp add: test_goodbye_ok_def test_defs)

lemma hello_passes: "test_hello Z rid [] = Inr []"
  using headers_pass [of "(zccp_msg_new ZCCP_MSG_HELLO)\<lparr>identifier_field := Some life\<rparr>" "\<lambda>m. m" rid
      "\<lambda>self. rbind (assert_streq (zccp_msg_identifier self) life) (\<lambda>_. check_name_and_age Z self)"]
    arrived_fields(1) [of rid]
  by (simp add: test_hello_def test_defs)

lemma subscribe_passes: "test_subscribe Z rid [] = Inr []"
  using headers_pass [of "(zccp_msg_new ZCCP_MSG_SUBSCRIBE)\<lparr>expression := Some life\<rparr>" "\<lambda>m. m" rid
      "\<lambda>self. rbind (assert_streq (zccp_msg_expression self) life) (\<lambda>_. check_name_and_age Z self)"]
    arrived_fields(2) [of rid]
  by (simp add: test_subscribe_def test_defs)

lemma publish_passes: "test_publish Z rid [] = Inr []"
  using headers_pass [of "(zccp_msg_new ZCCP_MSG_PUBLISH)\<lparr>address := Some life\<rparr>"
      "\<lambda>m. m\<lparr>content := Some [lit ''Hello, World'']\<rparr>" rid
      "\<lambda>self. rbind (assert_streq (zccp_msg_address self) life) (\<lambda>_.
        rbind (check_name_and_age Z self) (\<lambda>_. check_content_size self))"]
    arrived_fields(3) [of rid]
  by (simp add: test_publish_def test_defs)

lemma direct_passes: "test_direct Z rid [] = Inr []"
  using headers_pass [of "(zccp_msg_new ZCCP_MSG_DIRECT)\<lparr>address := Some life\<rparr>"
      "\<lambda>m. m\<lparr>content := Some [lit ''Hello, World'']\<rparr>" rid
      "\<lambda>self. rbind (assert_streq (zccp_msg_address self) life) (\<lambda>_.
        rbind (check_name_and_age Z self) (\<lambda>_. check_content_size self))"]
    arrived_fields(3) [of rid]
  by (simp add: test_direct_def test_defs)

lemma deliver_passes: "test_deliver Z rid [] = Inr []"
  using headers_pass [of "(zccp_msg_new ZCCP_MSG_DELIVER)\<lparr>sender := Some life, address := Some life\<rparr>"
      "\<lambda>m. m\<lparr>content := Some [lit ''Hello, World'']\<rparr>" rid
      "\<lambda>self. rbind (assert_streq (zccp_msg_sender self) life) (\<lambda>_.
        rbind (assert_streq (zccp_msg_address self) life) (\<lambda>_.
        rbind (check_name_and_age Z self) (\<lambda>_. check_content_size self)))"]
    arrived_fields(3,4) [of rid]
  by (simp add: test_deliver_def test_defs)

lemma bare_tests_pass:
  "test_subscribe_ok Z rid [] = Inr []" "test_goodbye Z rid [] = Inr []" "test_ping Z rid [] = Inr []"
  "test_ping_ok Z rid [] = Inr []" "test_invalid Z rid [] = Inr []"
  by (simp_all add: test_subscribe_ok_def test_goodbye_def test_ping_def test_ping_ok_def test_invalid_def bare_passes
      del: One_nat_def)

lemma all_pass: "zccp_msg_test Z rid = Inr 0"
  by (simp add: zccp_msg_test_def bare_tests_pass hello_passes hello_ok_passes subscribe_passes publish_passes
      direct_passes deliver_passes goodbye_ok_passes)

end

end
