(* ===== verification/Codec_Claims.thy ===== *)
theory Codec_Claims
  imports Codec_Selftest
begin

text \<open>
  The properties of the codec: what \<open>zccp_msg_encode\<close> writes, what \<open>zccp_msg_decode\<close> accepts, and that
  the two agree.  Every witness runs on the concrete library \<open>ref_czmq\<close>.
\<close>

section \<open>A sample message\<close>

definition sample :: "(cstr \<times> cstr) list zccp_msg" where
  "sample = (zccp_msg_new ZCCP_MSG_PUBLISH)
     \<lparr>address := Some [99, 112, 117], headers := Some [([107], [118])], content := Some [[57, 53], []]\<rparr>"

lemma sample_simps [simp]:
  "msg_id sample = 5" "address sample = Some [99, 112, 117]" "headers sample = Some [([107], [118])]"
  "content sample = Some [[57, 53], []]" "routing_id sample = None" "msg_ok sample"
  by (simp_all add: sample_def zccp_msg_new_def msg_ok_def)

lemma ref_hash [simp]: "hash ref_czmq = alist_zhash"
  by (simp add: ref_czmq_def)

lemma alist_ops [simp]:
  "zh_items alist_zhash h = AList.clearjunk h"
  "zh_lookup alist_zhash h = map_of h"
  "zh_size alist_zhash h = length (AList.clearjunk h)"
  "zh_dup alist_zhash h = h"
  "zh_new alist_zhash = []"
  "zh_insert alist_zhash = alist_insert"
  by (simp_all add: alist_zhash_def)

lemma sample_fits [simp]: "fields_fit alist_zhash sample"
  by (simp add: fields_fit_def opt_fits_def dict_fits_def entries_of_def entry_fits_def
      sized_fits_def wf_cstr_def)

section \<open>Reading back what was just written\<close>

definition reread :: "(reader \<Rightarrow> ('a \<times> reader) option) \<Rightarrow> writer option \<Rightarrow> 'a option" where
  "reread get w = do { w \<leftarrow> w; (x, r) \<leftarrow> get (open_frame (w_data w)); Some x }"

lemma reread_octets:
  assumes "put_octets bs \<lparr>w_data = buf, w_needle = 0\<rparr> = w" and "length bs \<le> length buf"
    and "\<And>r. reader_ok r \<Longrightarrow> rest r = bs @ drop (length bs) buf \<Longrightarrow> get r = Some (x, advance (length bs) r)"
  shows "reread get w = Some x"
proof -
  have w: "w = Some \<lparr>w_data = bs @ drop (length bs) buf, w_needle = length bs\<rparr>"
    using assms(1,2) by (simp add: put_octets_def)
  have "get (open_frame (bs @ drop (length bs) buf))
      = Some (x, advance (length bs) (open_frame (bs @ drop (length bs) buf)))"
    by (rule assms(3)) (simp_all add: reader_ok_def rest_def open_frame_def)
  then show ?thesis by (simp add: reread_def w)
qed

lemma net_number_ucast:
  "256 ^ k = (2 :: nat) ^ LENGTH('n) \<Longrightarrow>
     net_number k (unat (ucast (x :: 64 word) :: 'n::len word)) = net_number k (unat x)"
  using net_number_mod [of k k "unat x"] by (simp add: unsigned_ucast_eq take_bit_eq_mod)

lemma number_width:
  "256 ^ 1 = (2 :: nat) ^ LENGTH(8)" "256 ^ 2 = (2 :: nat) ^ LENGTH(16)" "256 ^ 4 = (2 :: nat) ^ LENGTH(32)"
  by simp_all

section \<open>Properties\<close>

text \<open>
  C8: encoding a message and decoding the result yields the command of the message: the same
  identifier, strings, dictionary and content frames (a missing string being the empty one, a missing
  content one empty frame).  The strings of the message must fit their length fields.
\<close>

theorem codec_roundtrip:
  assumes "zhash_api (hash Z)" and "msg_ok m" and "fields_fit (hash Z) m"
    and "1 \<le> msg_id m \<and> msg_id m \<le> 12"
  shows "\<exists>msg m'. zccp_msg_encode Z m = Inr msg \<and> zccp_msg_decode (hash Z) (Some msg) = Some m'
    \<and> command_of (hash Z) m' = command_of (hash Z) m \<and> command_of (hash Z) m \<noteq> None"
  using zhash_api.encode_decode [OF assms(1) refl assms(2,3,4)] assms(4)
  by (auto simp: command_of_None_iff)

theorem codec_roundtrip_witness:
  "\<exists>msg m'. zccp_msg_encode ref_czmq sample = Inr msg
    \<and> zccp_msg_decode alist_zhash (Some msg) = Some m'
    \<and> command_of alist_zhash m' = Some (Publish [99, 112, 117] [[107] \<mapsto> [118]] [[57, 53], []])"
proof -
  have "command_of alist_zhash sample = Some (Publish [99, 112, 117] [[107] \<mapsto> [118]] [[57, 53], []])"
    by (simp add: command_of_def)
  then show ?thesis
    using codec_roundtrip [of ref_czmq sample] ref_lib.zhash_api_axioms by simp
qed



text \<open>
  \<open>zccp_msg_encode\<close> stops on its assertion exactly for the identifiers outside the protocol.
\<close>

theorem encode_fault_iff:
  assumes "zhash_api (hash Z)" and "msg_ok m"
  shows "zccp_msg_encode Z m = Inl e \<longleftrightarrow> e = Assertion_failed \<and> \<not> (1 \<le> msg_id m \<and> msg_id m \<le> 12)"
  using encode_is_grammar [OF assms] encode_unknown [of m Z]
  by (cases "1 \<le> msg_id m \<and> msg_id m \<le> 12") auto

theorem encode_fault_iff_witness:
  "zccp_msg_encode ref_czmq (zccp_msg_new 13) = Inl Assertion_failed"
  using encode_fault_iff [of ref_czmq "zccp_msg_new 13" Assertion_failed] ref_lib.zhash_api_axioms
  by (simp add: zccp_msg_new_def msg_ok_def)

text \<open>
  C16: whatever \<open>zccp_msg_decode\<close> accepts starts with the signature, carries a known identifier, has
  strings and entries that fit their length fields (so fewer than 256 octets in every string field,
  none of them zero) and can be encoded again.  The dictionary has fewer entries than the frame has
  octets, whatever count the frame announces.
\<close>

theorem decode_sound:
  assumes "zhash_api (hash Z)" and "zccp_msg_decode (hash Z) (Some msg) = Some m"
  shows "\<exists>frame content. msg = frame # content \<and> take 2 frame = [0xAA, 0xAA]
    \<and> msg_id m = uint (frame ! 2) \<and> fields_fit (hash Z) m \<and> routing_id m = None
    \<and> (\<forall>h. headers m = Some h \<longrightarrow> 7 + zh_size (hash Z) h \<le> length frame)
    \<and> zccp_msg_encode Z m = Inr (frame_octets (hash Z) m # encode_content m)"
proof -
  from assms(2) obtain frame content r where msg: "msg = frame # content"
    and sig: "take 2 frame = [0xAA, 0xAA]"
    and fields: "decode_fields (hash Z) (zccp_msg_new (uint (frame ! 2))) content r = Some m"
    and ok: "reader_ok r" and at: "r_needle r = 3" "r_ceiling r = length frame"
    by (rule zhash_api.decode_some [OF assms(1)])
  note fit = zhash_api.decode_fields_fit [OF assms(1) ok fields]
  then have "zccp_msg_encode Z m = Inr (frame_octets (hash Z) m # encode_content m)"
    by (intro encode_is_grammar [OF assms(1)]) auto
  with msg sig fit at show ?thesis by (intro exI) auto
qed

lemma sample_decode:
  "zccp_msg_decode alist_zhash (Some (frame_octets alist_zhash sample # [[57, 53], []]))
     = Some (received alist_zhash sample [[57, 53], []])"
  by (rule decode_encoded) simp_all

theorem decode_sound_witness:
  "fields_fit alist_zhash (received alist_zhash sample [[57, 53], []])"
  using decode_sound [of ref_czmq, unfolded ref_hash, OF alist_hash.zhash_api_axioms sample_decode]
  by blast

text \<open>
  What the decoder rejects: \<open>zccp_msg_decode\<close> returns the null message for a null message, a message
  without frames, a first frame shorter than three octets, another signature, and an identifier outside the protocol.
\<close>

theorem decode_rejects:
  assumes "zhash_api H"
    and "msg_p = None \<or> msg_p = Some [] \<or>
      (\<exists>frame content. msg_p = Some (frame # content) \<and>
         (length frame < 3 \<or> take 2 frame \<noteq> [0xAA, 0xAA] \<or> frame ! 2 = 0 \<or> 12 < frame ! 2))"
  shows "zccp_msg_decode H msg_p = None"
proof (rule ccontr)
  assume "zccp_msg_decode H msg_p \<noteq> None"
  then obtain m msg where p: "msg_p = Some msg" and dec: "zccp_msg_decode H (Some msg) = Some m"
    by (cases msg_p) (auto simp: zccp_msg_decode_def)
  from dec obtain frame content r where msg: "msg = frame # content" "length frame \<ge> 3"
      "take 2 frame = [0xAA, 0xAA]"
    and fields: "decode_fields H (zccp_msg_new (uint (frame ! 2))) content r = Some m" and ok: "reader_ok r"
    by (rule zhash_api.decode_some [OF assms(1)])
  have "1 \<le> uint (frame ! 2) \<and> uint (frame ! 2) \<le> 12"
    using zhash_api.decode_fields_fit [OF assms(1) ok fields] by simp
  then have "frame ! 2 \<noteq> 0" and "\<not> 12 < frame ! 2"
    by (auto simp: word_less_def)
  with assms(2) p msg show False by auto
qed

theorem decode_rejects_witness: "zccp_msg_decode alist_zhash (Some [[0xAA, 0xAA, 13], [1]]) = None"
  by (rule decode_rejects [OF alist_hash.zhash_api_axioms]) simp

text \<open>
  A dictionary on the wire that repeats a name yields the value of its first occurrence, since
  \<open>zhash_insert\<close> leaves a known name alone; every other name yields its value.
\<close>

theorem decode_first_entry_wins:
  assumes "zhash_api H" and "\<forall>e \<in> set es. entry_fits e" and "length es < 2 ^ 32"
  shows "\<exists>m. zccp_msg_decode H (Some [[0xAA, 0xAA, 2] @ dictionary_octets es]) = Some m
    \<and> command_of H m = Some (Hello_ok (map_of es))"
proof -
  have open_f: "\<exists>r. zccp_msg_decode H (Some (([0xAA, 0xAA, 2] @ dictionary_octets es) # []))
      = decode_fields H (zccp_msg_new (uint (2 :: byte))) [] r \<and> reader_ok r
        \<and> rest r = dictionary_octets es"
    by (rule decode_open) (rule refl)
  then obtain r where d: "zccp_msg_decode H (Some [[0xAA, 0xAA, 2] @ dictionary_octets es])
      = decode_fields H (zccp_msg_new 2) [] r" and ok: "reader_ok r" and rest: "rest r = dictionary_octets es @ []"
    by auto
  have "get_headers H r = Some (dict_new H es, advance (length (dictionary_octets es)) r)"
    by (rule get_headers_octets [OF ok _ assms(3) rest]) (use assms(2) in blast)
  then show ?thesis
    unfolding d
    by (simp add: decode_fields_def zccp_msg_new_def command_of_def zhash_api.lookup_dict_new [OF assms(1)])
qed

theorem decode_first_entry_wins_witness:
  "\<exists>m. zccp_msg_decode alist_zhash (Some [[0xAA, 0xAA, 2] @ dictionary_octets [([107], [1]), ([107], [2])]]) = Some m
    \<and> command_of alist_zhash m = Some (Hello_ok [[107] \<mapsto> [1]])"
  using decode_first_entry_wins [OF alist_hash.zhash_api_axioms, of "[([107], [1]), ([107], [2])]"]
  by (simp add: entry_fits_def sized_fits_def wf_cstr_def)

text \<open>
  C37: a string is sent with the low octet of its length but with all of its characters.  Reading it
  back yields the characters counted by that octet, and the others are left to be read as the next
  field: strings of 256 characters and more do not survive.
\<close>

theorem oversize_string:
  assumes "wf_cstr s"
  shows "\<exists>w r. put_string s \<lparr>w_data = replicate (1 + length s) junk, w_needle = 0\<rparr> = Some w
    \<and> get_string (open_frame (w_data w)) = Some (take (length s mod 256) s, r)
    \<and> rest r = drop (length s mod 256) s"
proof -
  let ?w = "\<lparr>w_data = sized_octets 1 s, w_needle = 1 + length s\<rparr>"
  let ?n = "length s mod 256"
  have put: "put_string s \<lparr>w_data = replicate (1 + length s) junk, w_needle = 0\<rparr> = Some ?w"
    by (simp add: put_string_octets put_octets_fill)
  have "sized_octets 1 s = sized_octets 1 (take ?n s) @ drop ?n s"
    using net_number_mod [of 1 1 "length s"] by (simp add: sized_octets_def min_def)
  then have rest: "rest (open_frame (w_data ?w)) = sized_octets 1 (take ?n s) @ drop ?n s"
    by (simp add: rest_def open_frame_def)
  have fits: "sized_fits 1 (take ?n s)"
    using assms by (auto simp: sized_fits_def wf_cstr_def min_def dest: in_set_takeD)
  have ok: "reader_ok (open_frame (w_data ?w))" by (simp add: reader_ok_def open_frame_def)
  have "get_string (open_frame (w_data ?w))
      = Some (take ?n s, advance (length (sized_octets 1 (take ?n s))) (open_frame (w_data ?w)))"
    by (rule string.field.get_octets_of [OF ok fits rest])
  moreover have "rest (advance (length (sized_octets 1 (take ?n s))) (open_frame (w_data ?w))) = drop ?n s"
    unfolding rest_advance rest by (simp del: length_sized_octets)
  ultimately show ?thesis using put by blast
qed

theorem oversize_string_witness:
  "\<exists>w r. put_string (replicate 300 65) \<lparr>w_data = replicate (1 + 300) 0, w_needle = 0\<rparr> = Some w
    \<and> get_string (open_frame (w_data w)) = Some (replicate 44 65, r)"
proof -
  have "wf_cstr (replicate 300 65)" by (simp add: wf_cstr_def)
  from oversize_string [OF this, of 0] show ?thesis by (auto simp: min_def)
qed

text \<open>
  A number written by a \<open>PUT_NUMBER\<close> macro and read back by the \<open>GET_NUMBER\<close> macro of the same
  width is the number modulo that width; the octets are in network byte order, and the rest of the
  frame is not touched.
\<close>

theorem number_roundtrip:
  fixes x :: "64 word"
  assumes "8 \<le> length buf"
  shows "reread get_number1 (put_number1 x \<lparr>w_data = buf, w_needle = 0\<rparr>) = Some (ucast x)
    \<and> reread get_number2 (put_number2 x \<lparr>w_data = buf, w_needle = 0\<rparr>) = Some (ucast x)
    \<and> reread get_number4 (put_number4 x \<lparr>w_data = buf, w_needle = 0\<rparr>) = Some (ucast x)
    \<and> reread get_number8 (put_number8 x \<lparr>w_data = buf, w_needle = 0\<rparr>) = Some x"
proof -
  note oct = reread_octets [OF refl]
  have 1: "reread get_number1 (put_number1 x \<lparr>w_data = buf, w_needle = 0\<rparr>) = Some (ucast x)"
    unfolding put_number1_net net_number_ucast [of 1 x, where 'n = 8, symmetric, OF number_width(1)]
    by (rule oct) (use assms number1.get_octets_of [OF _ TrueI] in auto)
  have 2: "reread get_number2 (put_number2 x \<lparr>w_data = buf, w_needle = 0\<rparr>) = Some (ucast x)"
    unfolding put_number2_net net_number_ucast [of 2 x, where 'n = 16, symmetric, OF number_width(2)]
    by (rule oct) (use assms number2.get_octets_of [OF _ TrueI] in auto)
  have 4: "reread get_number4 (put_number4 x \<lparr>w_data = buf, w_needle = 0\<rparr>) = Some (ucast x)"
    unfolding put_number4_net net_number_ucast [of 4 x, where 'n = 32, symmetric, OF number_width(3)]
    by (rule oct) (use assms number4.get_octets_of [OF _ TrueI] in auto)
  have 8: "reread get_number8 (put_number8 x \<lparr>w_data = buf, w_needle = 0\<rparr>) = Some x"
    unfolding put_number8_net
    by (rule oct) (use assms number8.get_octets_of [OF _ TrueI] in auto)
  from 1 2 4 8 show ?thesis by blast
qed

theorem number_roundtrip_witness:
  "reread get_number4 (put_number4 (0x1FFFFFFFF :: 64 word) \<lparr>w_data = replicate 8 0, w_needle = 0\<rparr>)
     = Some 0xFFFFFFFF"
  using number_roundtrip [of "replicate 8 0" "0x1FFFFFFFF"] by simp

text \<open>
  \<open>zccp_msg_dup\<close> makes a message that stands for the same command, with the same routing
  identifier, and that can be encoded without touching the original.
\<close>

theorem dup_same_command:
  assumes "zhash_api (hash Z)"
  shows "\<exists>copy. zccp_msg_dup (hash Z) (Some m) = Some copy \<and> command_of (hash Z) copy = command_of (hash Z) m
    \<and> routing_id copy = routing_id m \<and> msg_id copy = msg_id m \<and> msg_ok copy"
proof -
  obtain copy where c: "zccp_msg_dup (hash Z) (Some m) = Some copy" by (simp add: zccp_msg_dup_def Let_def)
  show ?thesis
    using zhash_api.command_of_dup [OF assms c] msg_ok_dup [OF c] c by blast
qed

theorem dup_same_command_witness:
  "\<exists>copy. zccp_msg_dup alist_zhash (Some sample) = Some copy
    \<and> command_of alist_zhash copy = command_of alist_zhash sample"
  using dup_same_command [of ref_czmq sample] ref_lib.zhash_api_axioms by auto

text \<open>
  C29: what is sent on a \<open>ROUTER\<close> socket is received on a \<open>ROUTER\<close> socket with the same routing
  identifier and the same command; on other sockets, with the same command and no identifier.
\<close>

theorem send_recv:
  assumes "zhash_api (hash Z)" and "msg_ok m" and "fields_fit (hash Z) m"
    and "1 \<le> msg_id m \<and> msg_id m \<le> 12" and "router \<longrightarrow> routing_id m = Some peer"
  shows "\<exists>wire m'. zccp_msg_send Z m router = Inr wire
    \<and> zccp_msg_recv (hash Z) router (Some wire) = Some m'
    \<and> command_of (hash Z) m' = command_of (hash Z) m
    \<and> routing_id m' = (if router then Some peer else None)"
proof -
  let ?m = "m\<lparr>routing_id := None\<rparr>"
  have "msg_ok ?m" "fields_fit (hash Z) ?m" "command_of (hash Z) ?m = command_of (hash Z) m"
    using assms(2,3) by (simp_all add: msg_ok_def fields_fit_def command_of_def)
  then obtain msg m' where enc: "zccp_msg_encode Z ?m = Inr msg"
    and dec: "zccp_msg_decode (hash Z) (Some msg) = Some m'"
    and cmd: "command_of (hash Z) m' = command_of (hash Z) m"
    using zhash_api.encode_decode [OF assms(1) refl, of ?m] assms(4) by auto
  have "msg \<noteq> []" using dec by (auto simp: zccp_msg_decode_def)
  moreover have "routing_id m' = None" using zhash_api.decode_fit [OF assms(1) dec] by simp
  moreover have "command_of (hash Z) (m'\<lparr>routing_id := rid\<rparr>) = command_of (hash Z) m'" for rid
    by (simp add: command_of_def)
  ultimately show ?thesis
    using enc dec cmd assms(5) by (auto simp: zccp_msg_send_def zccp_msg_recv_def)
qed

theorem send_recv_witness:
  "\<exists>wire m'. zccp_msg_send ref_czmq (sample\<lparr>routing_id := Some [1, 2]\<rparr>) True = Inr wire
    \<and> zccp_msg_recv alist_zhash True (Some wire) = Some m' \<and> routing_id m' = Some [1, 2]"
proof -
  have "msg_ok (sample\<lparr>routing_id := Some [1, 2]\<rparr>)"
      "fields_fit alist_zhash (sample\<lparr>routing_id := Some [1, 2]\<rparr>)"
    using sample_fits sample_simps(6) by (simp_all add: msg_ok_def fields_fit_def)
  then show ?thesis
    using send_recv [of ref_czmq "sample\<lparr>routing_id := Some [1, 2]\<rparr>" True "[1, 2]"] ref_lib.zhash_api_axioms
    by auto
qed

text \<open>
  C26: each of the twelve one-step encoders builds a message that stands for its command with the
  given fields, when the strings hold no percent sign and fit their length fields.
\<close>

theorem one_step_encoders:
  assumes "czmq_api Z" and "percent \<notin> set s" and "percent \<notin> set a"
    and "sized_fits 1 s" and "sized_fits 1 a" and "dict_fits (hash Z) h"
  shows "stands_for Z (zccp_msg_encode_hello Z (Some s) h) (Hello s (dict_of (hash Z) h))
    \<and> stands_for Z (zccp_msg_encode_hello_ok Z h) (Hello_ok (dict_of (hash Z) h))
    \<and> stands_for Z (zccp_msg_encode_subscribe Z (Some s) h) (Subscribe s (dict_of (hash Z) h))
    \<and> stands_for Z (zccp_msg_encode_subscribe_ok Z) Subscribe_ok
    \<and> stands_for Z (zccp_msg_encode_publish Z (Some a) h c) (Publish a (dict_of (hash Z) h) (frames_of c))
    \<and> stands_for Z (zccp_msg_encode_direct Z (Some a) h c) (Direct a (dict_of (hash Z) h) (frames_of c))
    \<and> stands_for Z (zccp_msg_encode_deliver Z (Some s) (Some a) h c)
        (Deliver s a (dict_of (hash Z) h) (frames_of c))
    \<and> stands_for Z (zccp_msg_encode_goodbye Z) Goodbye
    \<and> stands_for Z (zccp_msg_encode_goodbye_ok Z h) (Goodbye_ok (dict_of (hash Z) h))
    \<and> stands_for Z (zccp_msg_encode_ping Z) Ping
    \<and> stands_for Z (zccp_msg_encode_ping_ok Z) Ping_ok
    \<and> stands_for Z (zccp_msg_encode_invalid Z) Invalid"
proof -
  have H: "zhash_api (hash Z)" using assms(1) by (simp add: czmq_api_def)
  have fmt: "format_string Z (Some s) = Inr s" "format_string Z (Some a) = Inr a"
    using czmq_api.vprintf_plain [OF assms(1)] assms(2,3) by (simp_all add: format_string_def)
  note simps = fmt with_headers_def zccp_msg_set_headers_def zccp_msg_set_content_def
    zccp_msg_set_identifier_def zccp_msg_set_expression_def zccp_msg_set_address_def
    zccp_msg_set_sender_def zccp_msg_new_def msg_ok_def command_of_def fields_fit_def opt_fits_def
    assms(4-6) dict_fits_dup [OF H assms(6)] zhash_api.dict_of_dup [OF H] Let_def
  show ?thesis
    unfolding zccp_msg_encode_hello_def zccp_msg_encode_hello_ok_def zccp_msg_encode_subscribe_def
      zccp_msg_encode_subscribe_ok_def zccp_msg_encode_publish_def zccp_msg_encode_direct_def
      zccp_msg_encode_deliver_def zccp_msg_encode_goodbye_def zccp_msg_encode_goodbye_ok_def
      zccp_msg_encode_ping_def zccp_msg_encode_ping_ok_def zccp_msg_encode_invalid_def
    by (intro conjI; simp add: zccp_msg_set_identifier_def zccp_msg_set_expression_def
        zccp_msg_set_address_def zccp_msg_set_sender_def fmt del: One_nat_def;
        rule stands_for_encode [OF H]; simp add: simps del: One_nat_def)
qed

theorem one_step_encoders_witness:
  "stands_for ref_czmq (zccp_msg_encode_deliver ref_czmq (Some [97]) (Some [98]) None None)
     (Deliver [97] [98] Map.empty [[]])"
  using one_step_encoders [of ref_czmq "[97]" "[98]" None None, OF ref_lib.czmq_api_axioms]
  by (simp add: sized_fits_def wf_cstr_def dict_fits_def entries_of_def)

text \<open>
  The string arguments of the one-step functions are formats.  The address of a PUBLISH is sent
  as \<open>zsys_vprintf\<close> renders it, so that a doubled percent sign becomes a single one, and the call has no
  defined behaviour when the address holds a directive that needs an argument.
\<close>

theorem publish_address_is_format:
  assumes "czmq_api Z" and "dict_fits (hash Z) h" and "\<forall>b. vprintf Z a = Some b \<longrightarrow> sized_fits 1 b"
  shows "(case vprintf Z a of
      None \<Rightarrow> zccp_msg_encode_publish Z (Some a) h c = Inl Format_undefined
    | Some b \<Rightarrow> stands_for Z (zccp_msg_encode_publish Z (Some a) h c)
                 (Publish b (dict_of (hash Z) h) (frames_of c)))"
proof (cases "vprintf Z a")
  case None
  then show ?thesis
    by (simp add: zccp_msg_encode_publish_def zccp_msg_set_address_def format_string_def)
next
  case (Some b)
  have H: "zhash_api (hash Z)" using assms(1) by (simp add: czmq_api_def)
  have "zccp_msg_encode_publish Z (Some a) h c = zccp_msg_encode Z
      (zccp_msg_set_content (with_headers Z h ((zccp_msg_new ZCCP_MSG_PUBLISH)\<lparr>address := Some b\<rparr>)) c)"
    by (simp add: zccp_msg_encode_publish_def zccp_msg_set_address_def format_string_def Some)
  moreover have "stands_for Z \<dots> (Publish b (dict_of (hash Z) h) (frames_of c))"
    by (rule stands_for_encode [OF H])
      (use assms(2,3) Some in \<open>simp_all add: with_headers_def zccp_msg_set_headers_def
        zccp_msg_set_content_def zccp_msg_new_def msg_ok_def command_of_def fields_fit_def opt_fits_def
        dict_fits_dup [OF H] zhash_api.dict_of_dup [OF H] del: One_nat_def\<close>)
  ultimately show ?thesis by (simp add: Some)
qed

theorem publish_address_is_format_witness:
  "stands_for ref_czmq (zccp_msg_encode_publish ref_czmq (Some [57, 37, 37]) None None)
       (Publish [57, 37] Map.empty [[]])
    \<and> zccp_msg_encode_publish ref_czmq (Some [37, 115]) None None = Inl Format_undefined"
proof -
  have v: "vprintf ref_czmq [57, 37, 37] = Some [57, 37]" "vprintf ref_czmq [37, 115] = None"
    by (simp_all add: ref_czmq_def)
  have d: "dict_fits (hash ref_czmq) (None :: (cstr \<times> cstr) list option)"
    by (simp add: dict_fits_def entries_of_def)
  show ?thesis
    using publish_address_is_format [OF ref_lib.czmq_api_axioms d, of "[57, 37, 37]" None]
      publish_address_is_format [OF ref_lib.czmq_api_axioms d, of "[37, 115]" None]
    by (simp add: v sized_fits_def wf_cstr_def)
qed

text \<open>
  C30: the printed text tells the command but for its content, whatever \<open>zmsg_print\<close> writes for a content.
  When two messages with identifiers of the protocol print the same text, where strings and headers have
  no line break and header names no equals sign, they stand for commands with the same name, the same
  strings and the same headers as a map; and what the text shows of their contents is the same.
\<close>

theorem print_reveals_command:
  assumes "zhash_api H" and "1 \<le> msg_id m \<and> msg_id m \<le> 12" and "1 \<le> msg_id m' \<and> msg_id m' \<le> 12"
    and "legible H m" and "legible H m'"
    and "log_text (zccp_msg_print H D m) = log_text (zccp_msg_print H D m')"
  shows "map_option bare (command_of H m) = map_option bare (command_of H m')
    \<and> (msg_id m \<in> {ZCCP_MSG_PUBLISH, ZCCP_MSG_DIRECT, ZCCP_MSG_DELIVER} \<longrightarrow>
        log_text (print_content D (content m)) = log_text (print_content D (content m')))"
  using zhash_api.print_shows_command [OF assms] by simp

text \<open>Two contents of which the library shows the first octet only, under dictionaries that are held differently.\<close>

definition with_note :: "(cstr \<times> cstr) list \<Rightarrow> zmsg \<Rightarrow> (cstr \<times> cstr) list zccp_msg" where
  "with_note h ms = (zccp_msg_new ZCCP_MSG_PUBLISH)\<lparr>address := Some [99], headers := Some h, content := Some ms\<rparr>"

theorem print_reveals_command_witness:
  "map_option bare (command_of alist_zhash (with_note [([110], [49]), ([110], [50])] [[57, 53]]))
    = map_option bare (command_of alist_zhash (with_note [([110], [49])] [[57, 54]]))"
proof -
  have "log_text (zccp_msg_print alist_zhash (map (take 1)) (with_note [([110], [49]), ([110], [50])] [[57, 53]]))
      = log_text (zccp_msg_print alist_zhash (map (take 1)) (with_note [([110], [49])] [[57, 54]]))"
    by (simp add: with_note_def zccp_msg_new_def zccp_msg_print_def print_headers_def print_content_def alist_zhash_def)
  from print_reveals_command [OF alist_hash.zhash_api_axioms _ _ _ _ this] show ?thesis
    by (simp add: with_note_def zccp_msg_new_def legible_def one_line_def plain_items_def entries_of_def alist_zhash_def)
qed

text \<open>
  C28: the self test of the message class passes, with every library that satisfies the laws, whatever
  identifier the transport gives to the sending socket.
\<close>

theorem message_selftest_passes:
  assumes "czmq_api Z"
  shows "zccp_msg_test Z rid = Inr 0"
  by (rule czmq_api.all_pass [OF assms])

theorem message_selftest_passes_witness: "zccp_msg_test ref_czmq [0, 107, 139] = Inr 0"
  by (rule message_selftest_passes [OF ref_lib.czmq_api_axioms])

end
