(* ===== verification/Server_Runs.thy ===== *)
theory Server_Runs
  imports Server_Engine Codec_Claims
begin

text \<open>
  Runs of the state machine in closed form.  From a state in which the client context is at rest
  (empty mailbox, no wakeup alarm, fresh reply) every event takes one turn of the loop, or two for the
  clients that a PUBLISH is forwarded to, so that three units of fuel are enough; the lemmas
  give the resulting state as an expression.

  The interface between \<open>forward_to_subscribers\<close> and the engine is the locale \<open>delivery\<close>; the engine's
  \<open>engine_send_event\<close> is its interpretation.
\<close>

section \<open>Normal forms of states\<close>

lemma put_client_updates [simp]:
  "(put_client p c s)\<lparr>out := x1\<rparr> = put_client p c (s\<lparr>out := x1\<rparr>)"
  "(put_client p c s)\<lparr>loop := x2\<rparr> = put_client p c (s\<lparr>loop := x2\<rparr>)"
  "(put_client p c s)\<lparr>patterns := x3\<rparr> = put_client p c (s\<lparr>patterns := x3\<rparr>)"
  "(put_client p c s)\<lparr>walks := x4\<rparr> = put_client p c (s\<lparr>walks := x4\<rparr>)"
  "(put_client p c s)\<lparr>srv_sender := x5\<rparr> = put_client p c (s\<lparr>srv_sender := x5\<rparr>)"
  "(put_client p c s)\<lparr>srv_address := x6\<rparr> = put_client p c (s\<lparr>srv_address := x6\<rparr>)"
  "(put_client p c s)\<lparr>srv_content := x7\<rparr> = put_client p c (s\<lparr>srv_content := x7\<rparr>)"
  "(put_client p c s)\<lparr>clients := x8\<rparr> = put_client p c (s\<lparr>clients := x8\<rparr>)"
  "(put_client p c s)\<lparr>next_serial := x9\<rparr> = put_client p c (s\<lparr>next_serial := x9\<rparr>)"
  "(put_client p c s)\<lparr>heap := x10\<rparr> = s\<lparr>heap := x10\<rparr>"
  by (simp_all add: put_client_def)

text \<open>
  Logging is harmless unless a verbose server logs the termination event, which has no name.
\<close>

definition traceable :: "('h, 'r, 'c) s_server_t \<Rightarrow> event_t \<Rightarrow> bool" where
  "traceable s ev \<longleftrightarrow> (verbose s \<longrightarrow> ev \<noteq> terminate_event)"

lemma trace_state [simp]: "trace s_state_name (state_index st) s = Inr s"
  using name_of_state [of st] by (auto simp: trace_def)

lemma trace_event [simp]: "traceable s ev \<Longrightarrow> trace s_event_name (event_index ev) s = Inr s"
  using name_of_event [of ev] by (auto simp: trace_def traceable_def)

lemma traceable_put [simp]: "traceable (put_client p c s) = traceable s"
  by (simp add: traceable_def fun_eq_iff)

lemma traceable_named [simp]: "ev \<noteq> terminate_event \<Longrightarrow> traceable s ev"
  by (simp add: traceable_def)

lemma loop_same [simp]: "s\<lparr>loop := loop s\<rparr> = s"
  by simp

text \<open>A client context between two events.\<close>

definition at_rest :: "'h s_client_t \<Rightarrow> bool" where
  "at_rest c \<longleftrightarrow> mailbox c = [] \<and> wakeup_timer c = 0 \<and> reply c = fresh_reply (client_routing_id c)
     \<and> next_event c = NULL_event \<and> exception c = NULL_event"

definition after_event :: "event_t \<Rightarrow> 'h s_client_t \<Rightarrow> 'h s_client_t" where
  "after_event ev c = c\<lparr>event := ev, next_event := NULL_event, exception := NULL_event\<rparr>"

lemma after_event_fields [simp]:
  "request (after_event ev c) = request c"
  "reply (after_event ev c) = reply c"
  "client_identifier (after_event ev c) = client_identifier c"
  "hashkey (after_event ev c) = hashkey c"
  "client_routing_id (after_event ev c) = client_routing_id c"
  "unique_id (after_event ev c) = unique_id c"
  "log_prefix (after_event ev c) = log_prefix c"
  "mailbox (after_event ev c) = mailbox c"
  "state (after_event ev c) = state c"
  "event (after_event ev c) = ev"
  "next_event (after_event ev c) = NULL_event"
  "exception (after_event ev c) = NULL_event"
  "expiry_timer (after_event ev c) = expiry_timer c"
  "wakeup_timer (after_event ev c) = wakeup_timer c"
  "wakeup_event (after_event ev c) = wakeup_event c"
  by (simp_all add: after_event_def)

text \<open>The state without a client: what \<open>terminate\<close> leads to.\<close>

definition without_client :: "ptr \<Rightarrow> ('h, 'r, 'c) s_server_t \<Rightarrow> ('h, 'r, 'c) s_server_t" where
  "without_client p s = (case heap s p of None \<Rightarrow> s | Some c \<Rightarrow>
     (client_terminate p s)\<lparr>clients := (clients s)(hashkey c := None),
        loop := end_timer (expiry_timer c) (end_timer (wakeup_timer c) (loop s)),
        heap := (heap s)(p := None)\<rparr>)"

lemma delete_client:
  assumes "heap s p = Some c" and "clients s (hashkey c) = Some p"
  shows "zhash_delete_client (hashkey c) s = Inr (without_client p s)"
  using assms
  by (simp add: zhash_delete_client_def s_client_free_def s_client_destroy_def without_client_def
      client_terminate_def get_client_def Let_def)

lemma without_client_put:
  assumes "heap s p = Some d" and "hashkey c = hashkey d" and "expiry_timer c = expiry_timer d"
    and "wakeup_timer c = wakeup_timer d"
  shows "without_client p (put_client p c s) = without_client p s"
  using assms by (simp add: without_client_def client_terminate_def put_client_def)

section \<open>Entering the machine and one turn of it\<close>

lemma enter_at_rest:
  assumes "heap s p = Some c" and "at_rest c"
  shows "s_client_enter p ev s = Inr (put_client p (c\<lparr>next_event := ev\<rparr>) s)"
proof -
  have e: "c\<lparr>next_event := ev, wakeup_timer := 0\<rparr> = c\<lparr>next_event := ev\<rparr>"
    using assms(2) by (cases c) (simp add: at_rest_def)
  have "s_client_enter p ev s = Inr (put_client p (c\<lparr>next_event := ev, wakeup_timer := 0\<rparr>) s)"
    using assms by (simp add: s_client_enter_def at_rest_def)
  then show ?thesis unfolding e .
qed

lemma turn:
  assumes "heap s p = Some c" and "next_event c = ev" and "traceable s ev"
  shows "s_client_turn Z send p s = rbind (s_client_dispatch Z send p (state c) ev (put_client p (after_event ev c) s))
    (s_client_finish p)"
  using assms by (simp add: s_client_turn_def after_event_def)

lemma finish_stays:
  assumes "heap s p = Some c" and "mailbox c = []" and "next_event c = NULL_event"
    and "exception c = NULL_event"
  shows "s_client_finish p s = Inr (True, s)"
proof -
  have "put_client p (c\<lparr>next_event := NULL_event\<rparr>) s = s"
    using assms(1,3) by (cases c) (simp add: put_client_same)
  then show ?thesis using assms
    by (simp add: s_client_finish_def s_client_filter_mailbox_def)
qed

lemma finish_terminates:
  assumes "heap s p = Some c" and "next_event c = terminate_event"
    and "exception c = NULL_event" and "clients s (hashkey c) = Some p"
  shows "s_client_finish p s = Inr (False, without_client p s)"
  using assms by (simp add: s_client_finish_def delete_client)

lemma loop_null [simp]:
  "heap s p = Some c \<Longrightarrow> next_event c = NULL_event \<Longrightarrow> s_client_loop Z (Suc n) p s = Inr s"
  by (simp add: s_client_loop_Suc)

lemma execute_at_rest:
  assumes "heap s p = Some c" and "at_rest c" and "traceable s ev" and "ev \<noteq> NULL_event"
  shows "s_client_execute Z (Suc n) p ev s =
    rbind (rbind (s_client_dispatch Z (engine_send_event Z n) p (state c) ev (put_client p (after_event ev c) s))
            (s_client_finish p)) (\<lambda>(more, s). if more then s_client_loop Z n p s else Inr s)"
proof -
  have e: "after_event ev (c\<lparr>next_event := ev\<rparr>) = after_event ev c" by (simp add: after_event_def)
  have t: "s_client_turn Z (engine_send_event Z n) p (put_client p (c\<lparr>next_event := ev\<rparr>) s)
      = rbind (s_client_dispatch Z (engine_send_event Z n) p (state c) ev (put_client p (after_event ev c) s))
          (s_client_finish p)"
    using turn [of "put_client p (c\<lparr>next_event := ev\<rparr>) s" p "c\<lparr>next_event := ev\<rparr>" ev Z "engine_send_event Z n"]
      assms(3) by (simp add: e)
  show ?thesis
    by (simp add: s_client_execute_def enter_at_rest [OF assms(1,2)] s_client_loop_Suc t assms(4))
qed

text \<open>
  A run whose handler ends with no next event stops, since the mailbox is empty; a run whose handler
  asks for termination deletes the client.
\<close>

lemma execute_stays:
  assumes "heap s p = Some c" and "at_rest c" and "traceable s ev" and "ev \<noteq> NULL_event"
    and "s_client_dispatch Z (engine_send_event Z (Suc n)) p (state c) ev (put_client p (after_event ev c) s) = Inr s'"
    and "heap s' p = Some c'" and "mailbox c' = []" and "next_event c' = NULL_event"
    and "exception c' = NULL_event"
  shows "s_client_execute Z (Suc (Suc n)) p ev s = Inr s'"
  using assms(6,8) finish_stays [OF assms(6-9)]
  by (simp add: execute_at_rest [OF assms(1-4)] assms(5))

lemma execute_terminates:
  assumes "heap s p = Some c" and "at_rest c" and "traceable s ev" and "ev \<noteq> NULL_event"
    and "s_client_dispatch Z (engine_send_event Z n) p (state c) ev (put_client p (after_event ev c) s) = Inr s'"
    and "heap s' p = Some c'" and "next_event c' = terminate_event"
    and "exception c' = NULL_event" and "clients s' (hashkey c') = Some p"
  shows "s_client_execute Z (Suc n) p ev s = Inr (without_client p s')"
  using finish_terminates [OF assms(6-9)]
  by (simp add: execute_at_rest [OF assms(1-4)] assms(5))

lemma execute_fault:
  assumes "heap s p = Some c" and "at_rest c" and "traceable s ev" and "ev \<noteq> NULL_event"
    and "s_client_dispatch Z (engine_send_event Z n) p (state c) ev (put_client p (after_event ev c) s) = Inl e"
  shows "s_client_execute Z (Suc n) p ev s = Inl e"
  by (simp add: execute_at_rest [OF assms(1-4)] assms(5))

section \<open>Events that concern one client\<close>

abbreviation reply_wire :: "('h, 'r) czmq \<Rightarrow> int \<Rightarrow> frame \<Rightarrow> zmsg result" where
  "reply_wire Z i rid \<equiv> zccp_msg_send Z (zccp_msg_set_id (fresh_reply rid) i) True"

definition settled :: "event_t \<Rightarrow> 'h s_client_t \<Rightarrow> 'h s_client_t" where
  "settled ev c = (after_event ev c)\<lparr>reply := fresh_reply (client_routing_id c)\<rparr>"

lemma without_client_out [simp]: "without_client p (s\<lparr>out := ws\<rparr>) = (without_client p s)\<lparr>out := ws\<rparr>"
  by (simp add: without_client_def client_terminate_def split: option.split)

lemma execute_hello:
  assumes "heap s p = Some c" and "at_rest c" and "state c = start_state"
    and "request c = Some (k, m)" and "zccp_msg_identifier m = Some i"
    and "reply_wire Z ZCCP_MSG_HELLO_OK (client_routing_id c) = Inr wire"
  shows "s_client_execute Z (Suc (Suc n)) p hello_event s =
    Inr (put_client p ((after_event hello_event c)\<lparr>client_identifier := Some i,
      reply := fresh_reply (client_routing_id c), state := connected_state\<rparr>)
           (s\<lparr>out := out s @ [wire]\<rparr>))"
  by (rule execute_stays [OF assms(1,2), where c' = "(after_event hello_event c)\<lparr>client_identifier := Some i,
      reply := fresh_reply (client_routing_id c), state := connected_state\<rparr>"])
    (use assms in \<open>simp_all add: at_rest_def s_client_dispatch_def in_start_state_def unless_exception_def
       register_new_client_def current_request_def send_reply_def set_state_def settled_def after_event_def\<close>)

text \<open>The events on which a state answers and drops the client.\<close>

fun parting_reply :: "state_t \<Rightarrow> event_t \<Rightarrow> int option" where
  "parting_reply start_state ev =
     (if ev = goodbye_event then Some ZCCP_MSG_GOODBYE_OK
      else if ev = hello_event \<or> ev = expired_event then None else Some ZCCP_MSG_INVALID)"
| "parting_reply connected_state ev =
     (if ev = goodbye_event then Some ZCCP_MSG_GOODBYE_OK
      else if ev \<in> {subscribe_event, publish_event, direct_event, forward_event, expired_event} then None
      else Some ZCCP_MSG_INVALID)"
| "parting_reply external_state ev =
     (if ev = goodbye_event then Some ZCCP_MSG_GOODBYE_OK
      else if ev = expired_event then None else Some ZCCP_MSG_INVALID)"

lemma dispatch_parting:
  "parting_reply st ev = Some i \<Longrightarrow> s_client_dispatch Z send p st ev = reply_and_terminate Z i p"
  by (cases st; intro ext)
    (auto simp: s_client_dispatch_def in_start_state_def in_connected_state_def in_external_state_def
      split: if_splits)

lemma dispatch_expired: "s_client_dispatch Z send p st expired_event = terminate p"
  by (cases st; intro ext)
    (auto simp: s_client_dispatch_def in_start_state_def in_connected_state_def in_external_state_def)

lemma execute_parting:
  assumes "heap s p = Some c" and "at_rest c" and "traceable s ev" and "clients s (hashkey c) = Some p"
    and "parting_reply (state c) ev = Some i" and "ev \<noteq> NULL_event"
    and "reply_wire Z i (client_routing_id c) = Inr wire"
  shows "s_client_execute Z (Suc n) p ev s = Inr ((without_client p s)\<lparr>out := out s @ [wire]\<rparr>)"
proof -
  let ?c = "(settled ev c)\<lparr>next_event := terminate_event\<rparr>"
  have d: "s_client_dispatch Z (engine_send_event Z n) p (state c) ev (put_client p (after_event ev c) s)
      = Inr (put_client p ?c (s\<lparr>out := out s @ [wire]\<rparr>))"
    using assms(2,7) by (simp add: dispatch_parting [OF assms(5)] reply_and_terminate_def unless_exception_def
        send_reply_def terminate_def settled_def at_rest_def)
  have "s_client_execute Z (Suc n) p ev s = Inr (without_client p (put_client p ?c (s\<lparr>out := out s @ [wire]\<rparr>)))"
    by (rule execute_terminates [OF assms(1-3,6) d, where c' = ?c]) (simp_all add: settled_def assms(4))
  also have "without_client p (put_client p ?c (s\<lparr>out := out s @ [wire]\<rparr>)) = without_client p (s\<lparr>out := out s @ [wire]\<rparr>)"
    by (rule without_client_put [where d = c]) (simp_all add: assms(1) settled_def)
  finally show ?thesis by simp
qed

lemma execute_expired:
  assumes "heap s p = Some c" and "at_rest c" and "clients s (hashkey c) = Some p"
  shows "s_client_execute Z (Suc n) p expired_event s = Inr (without_client p s)"
proof -
  let ?c = "(after_event expired_event c)\<lparr>next_event := terminate_event\<rparr>"
  have d: "s_client_dispatch Z (engine_send_event Z n) p (state c) expired_event (put_client p (after_event expired_event c) s)
      = Inr (put_client p ?c s)"
    by (simp add: dispatch_expired terminate_def unless_exception_def)
  have "s_client_execute Z (Suc n) p expired_event s = Inr (without_client p (put_client p ?c s))"
    by (rule execute_terminates [OF assms(1,2) _ _ d, where c' = ?c]) (simp_all add: assms(3))
  also have "without_client p (put_client p ?c s) = without_client p s"
    by (rule without_client_put [where d = c]) (simp_all add: assms(1))
  finally show ?thesis by simp
qed

lemma execute_direct:
  assumes "heap s p = Some c" and "at_rest c" and "state c = connected_state"
  shows "s_client_execute Z (Suc (Suc n)) p direct_event s = Inr (put_client p (after_event direct_event c) s)"
  by (rule execute_stays [OF assms(1,2), where c' = "after_event direct_event c"])
    (use assms in \<open>simp_all add: at_rest_def s_client_dispatch_def in_connected_state_def\<close>)

definition subscribed :: "('h, 'r) czmq \<Rightarrow> cstr \<Rightarrow> ptr \<Rightarrow> 'r pattern_t list \<Rightarrow> 'r pattern_t list" where
  "subscribed Z e p ps = (case add_subscriber e p ps of
     None \<Rightarrow> ps @ [s_pattern_new Z e p] | Some ps \<Rightarrow> ps)"

lemma execute_subscribe:
  assumes "heap s p = Some c" and "at_rest c" and "state c = connected_state"
    and "request c = Some (k, m)" and "zccp_msg_expression m = Some e"
    and "reply_wire Z ZCCP_MSG_SUBSCRIBE_OK (client_routing_id c) = Inr wire"
  shows "s_client_execute Z (Suc (Suc n)) p subscribe_event s =
    Inr (put_client p (settled subscribe_event c)
      (s\<lparr>walks := walks s + 1, patterns := subscribed Z e p (patterns s), out := out s @ [wire]\<rparr>))"
  by (rule execute_stays [OF assms(1,2), where c' = "settled subscribe_event c"])
    (use assms in \<open>simp_all add: at_rest_def s_client_dispatch_def in_connected_state_def unless_exception_def
       store_new_subscription_def current_request_def send_reply_def settled_def subscribed_def
       split: option.split\<close>)

section \<open>Forwarding\<close>

text \<open>
  A delivery: the DELIVER message made from what is being published, for the client with the given
  routing identifier.
\<close>

definition delivery_wire :: "('h, 'r) czmq \<Rightarrow> frame \<Rightarrow> cstr option \<Rightarrow> cstr option \<Rightarrow> 'h option \<Rightarrow> zmsg option
    \<Rightarrow> zmsg result" where
  "delivery_wire Z rid i a hs ms =
     rbind (zccp_msg_set_sender Z (fresh_reply rid) i) (\<lambda>m.
     rbind (zccp_msg_set_address Z m a) (\<lambda>m.
     zccp_msg_send Z (zccp_msg_set_id (zccp_msg_set_content
       (zccp_msg_set_headers m (map_option (zh_dup (hash Z)) hs)) ms) ZCCP_MSG_DELIVER) True))"

definition publishing :: "cstr option \<Rightarrow> cstr option \<Rightarrow> zmsg option \<Rightarrow> ('h, 'r, 'c) s_server_t \<Rightarrow> bool" where
  "publishing i a ms s \<longleftrightarrow> read_borrow s (srv_sender s) = Inr i \<and> read_borrow s (srv_address s) = Inr a
     \<and> read_borrow s (srv_content s) = Inr ms"

definition subscriber :: "('h, 'r, 'c) s_server_t \<Rightarrow> ptr \<Rightarrow> bool" where
  "subscriber s q \<longleftrightarrow> (\<exists>c. heap s q = Some c \<and> at_rest c \<and> state c = connected_state)"

definition delivered :: "ptr \<Rightarrow> zmsg \<Rightarrow> ('h, 'r, 'c) s_server_t \<Rightarrow> ('h, 'r, 'c) s_server_t" where
  "delivered q wire s = (case heap s q of None \<Rightarrow> s
     | Some c \<Rightarrow> put_client q (settled forward_event c) (s\<lparr>out := out s @ [wire]\<rparr>))"

definition rid_of :: "('h, 'r, 'c) s_server_t \<Rightarrow> ptr \<Rightarrow> frame" where
  "rid_of s q = client_routing_id (the (heap s q))"

lemma read_borrow_put:
  assumes "heap s q = Some c" and "request d = request c"
  shows "read_borrow (put_client q d s) b = read_borrow s b"
  using assms by (simp add: read_borrow_def get_client_def split: option.split)

lemma publishing_put:
  assumes "heap s q = Some c" and "request d = request c"
  shows "publishing i a ms (put_client q d s) = publishing i a ms s"
  by (simp add: publishing_def read_borrow_put [OF assms])

lemma execute_forward:
  assumes "heap s q = Some c" and "at_rest c" and "state c = connected_state"
    and "publishing i a ms s"
  shows "s_client_execute Z (Suc (Suc n)) q forward_event s =
    rbind (delivery_wire Z (client_routing_id c) i a (srv_headers s) ms) (\<lambda>w. Inr (delivered q w s))"
proof -
  let ?s = "put_client q (after_event forward_event c) s"
  have get: "get_content_to_publish Z q ?s = rbind (zccp_msg_set_sender Z (reply c) i) (\<lambda>m.
      rbind (zccp_msg_set_address Z m a) (\<lambda>m. Inr (put_client q ((after_event forward_event c)\<lparr>reply :=
        zccp_msg_set_content (zccp_msg_set_headers m (map_option (zh_dup (hash Z)) (srv_headers s))) ms\<rparr>) s)))"
    using publishing_put [OF assms(1), of "after_event forward_event c" i a ms] assms(4)
    by (simp add: get_content_to_publish_def publishing_def Let_def)
  have d: "s_client_dispatch Z (engine_send_event Z (Suc n)) q (state c) forward_event ?s =
      rbind (delivery_wire Z (client_routing_id c) i a (srv_headers s) ms) (\<lambda>w. Inr (delivered q w s))"
    using assms(1,2)
    by (simp add: s_client_dispatch_def assms(3) in_connected_state_def unless_exception_def get
        delivery_wire_def send_reply_def rbind_assoc delivered_def settled_def at_rest_def)
  show ?thesis
  proof (cases "delivery_wire Z (client_routing_id c) i a (srv_headers s) ms")
    case (Inl e)
    then show ?thesis using execute_fault [OF assms(1,2) _ _ d [unfolded Inl rbind_simps]] by simp
  next
    case (Inr w)
    have s': "delivered q w s = put_client q (settled forward_event c) (s\<lparr>out := out s @ [w]\<rparr>)"
      by (simp add: delivered_def assms(1))
    have "s_client_execute Z (Suc (Suc n)) q forward_event s = Inr (delivered q w s)"
      by (rule execute_stays [OF assms(1,2) _ _ d [unfolded Inr rbind_simps], where c' = "settled forward_event c"])
        (use assms(2) in \<open>simp_all add: s' settled_def at_rest_def\<close>)
    then show ?thesis by (simp add: Inr)
  qed
qed

text \<open>
  The state up to what a delivery changes: the messages sent, and the event field of the receiver.
\<close>

definition core :: "('h, 'r, 'c) s_server_t \<Rightarrow> ('h, 'r, 'c) s_server_t" where
  "core s = s\<lparr>out := [], heap := (\<lambda>p. map_option (\<lambda>c. c\<lparr>event := NULL_event\<rparr>) (heap s p))\<rparr>"

lemma core_fields [simp]:
  "patterns (core s) = patterns s" "srv_sender (core s) = srv_sender s"
  "srv_address (core s) = srv_address s" "srv_headers (core s) = srv_headers s" "srv_readers (core s) = srv_readers s"
  "srv_content (core s) = srv_content s" "srv_config (core s) = srv_config s"
  "port (core s) = port s" "clients (core s) = clients s" "config (core s) = config s"
  "client_id (core s) = client_id s" "timeout (core s) = timeout s" "verbose (core s) = verbose s"
  "loop (core s) = loop s" "next_ptr (core s) = next_ptr s" "next_serial (core s) = next_serial s"
  "pipe_out (core s) = pipe_out s" "walks (core s) = walks s"
  by (simp_all add: core_def)

lemma core_heap: "heap (core s) p = map_option (\<lambda>c. c\<lparr>event := NULL_event\<rparr>) (heap s p)"
  by (simp add: core_def)

lemma at_rest_event [simp]: "at_rest (c\<lparr>event := ev\<rparr>) = at_rest c"
  by (simp add: at_rest_def)

lemma core_read_borrow: "read_borrow (core s) b = read_borrow s b"
proof (cases b)
  case (Some x)
  then show ?thesis by (cases "heap s (owner x)") (simp_all add: read_borrow_def get_client_def core_heap)
qed (simp add: read_borrow_def)

lemma core_subscriber: "subscriber (core s) q = subscriber s q"
  by (cases "heap s q") (simp_all add: subscriber_def core_heap)

lemma core_rid_of: "rid_of (core s) q = rid_of s q"
  by (cases "heap s q") (simp_all add: rid_of_def core_heap)

lemma core_publishing: "publishing i a ms (core s) = publishing i a ms s"
  by (simp add: publishing_def core_read_borrow)

lemma same_core:
  assumes "core s' = core s"
  shows "patterns s' = patterns s" "walks s' = walks s" "verbose s' = verbose s"
    "srv_headers s' = srv_headers s" "srv_readers s' = srv_readers s" "clients s' = clients s" "loop s' = loop s"
    "next_ptr s' = next_ptr s" "subscriber s' q = subscriber s q"
    "rid_of s' q = rid_of s q" "publishing i a ms s' = publishing i a ms s"
  using arg_cong [OF assms, of patterns] arg_cong [OF assms, of walks] arg_cong [OF assms, of verbose]
    arg_cong [OF assms, of srv_headers] arg_cong [OF assms, of srv_readers] arg_cong [OF assms, of clients] arg_cong [OF assms, of loop]
    arg_cong [OF assms, of next_ptr] arg_cong [OF assms, of "\<lambda>s. subscriber s q"]
    arg_cong [OF assms, of "\<lambda>s. rid_of s q"] arg_cong [OF assms, of "publishing i a ms"]
  by (simp_all only: core_fields core_subscriber core_rid_of core_publishing)

lemma same_core_heap:
  assumes "core s' = core s" and "heap s p = Some c"
  obtains c' where "heap s' p = Some c'" and "c'\<lparr>event := NULL_event\<rparr> = c\<lparr>event := NULL_event\<rparr>"
  using assms core_heap [of s p] core_heap [of s' p] by (cases "heap s' p") auto

lemma settled_at_rest:
  assumes "at_rest c"
  shows "(settled ev c)\<lparr>event := e\<rparr> = c\<lparr>event := e\<rparr>"
  using assms by (cases c) (simp add: settled_def after_event_def at_rest_def)

lemma delivered_out: "heap s q = Some c \<Longrightarrow> out (delivered q w s) = out s @ [w]"
  by (simp add: delivered_def)

lemma core_delivered:
  assumes "heap s q = Some c" and "at_rest c"
  shows "core (delivered q w s) = core s"
  using assms
  by (auto simp: core_def delivered_def put_client_def fun_eq_iff settled_at_rest)

text \<open>The pointers to which a message with the given address is forwarded, in the order of delivery.\<close>

definition recipients_for :: "('h, 'r) czmq \<Rightarrow> cstr \<Rightarrow> ptr \<Rightarrow> 'r pattern_t list \<Rightarrow> ptr list" where
  "recipients_for Z addr p ps = concat (map (\<lambda>pat. if rex_matches Z (rex pat) addr
      then filter (\<lambda>q. q \<noteq> p) (pat_clients pat) else []) ps)"

lemma recipients_for_simps [simp]:
  "recipients_for Z addr p [] = []"
  "recipients_for Z addr p (pat # ps) = (if rex_matches Z (rex pat) addr
     then filter (\<lambda>q. q \<noteq> p) (pat_clients pat) else []) @ recipients_for Z addr p ps"
  by (simp_all add: recipients_for_def)

text \<open>
  What \<open>forward_to_subscribers\<close> needs from the engine: sending \<open>forward_event\<close> to a subscriber delivers
  what is being published, and changes nothing else.
\<close>

locale delivery =
  fixes send :: "ptr \<Rightarrow> event_t \<Rightarrow> ('h, 'r, 'c) action" and Z :: "('h, 'r) czmq"
  assumes deliver: "heap s q = Some c \<Longrightarrow> at_rest c \<Longrightarrow> state c = connected_state
    \<Longrightarrow> publishing i a ms s \<Longrightarrow> send q forward_event s =
      rbind (delivery_wire Z (client_routing_id c) i a (srv_headers s) ms) (\<lambda>w. Inr (delivered q w s))"
begin

lemma send_ok:
  assumes "subscriber s q" and "publishing i a ms s"
    and "\<And>rid. delivery_wire Z rid i a (srv_headers s) ms = Inr (rid # body)"
  shows "\<exists>s'. send q forward_event s = Inr s' \<and> core s' = core s \<and> out s' = out s @ [rid_of s q # body]"
proof -
  from assms(1) obtain c where c: "heap s q = Some c" "at_rest c" "state c = connected_state"
    by (auto simp: subscriber_def)
  from deliver [OF this assms(2)] show ?thesis
    using core_delivered [OF c(1,2)] delivered_out [OF c(1)] by (simp add: assms(3) rid_of_def c(1))
qed

lemma send_fails:
  assumes "subscriber s q" and "publishing i a ms s"
    and "\<And>rid. delivery_wire Z rid i a (srv_headers s) ms = Inl e"
  shows "send q forward_event s = Inl e"
  using assms deliver by (auto simp: subscriber_def)

lemma forward_to_clients_ok:
  assumes "\<And>q. q \<in> set cs \<Longrightarrow> q \<noteq> p \<Longrightarrow> subscriber s q" and "publishing i a ms s"
    and "\<And>rid. delivery_wire Z rid i a (srv_headers s) ms = Inr (rid # body)"
  shows "\<exists>s'. forward_to_clients send p cs s = Inr s' \<and> core s' = core s
    \<and> out s' = out s @ map (\<lambda>q. rid_of s q # body) (filter (\<lambda>q. q \<noteq> p) cs)"
  using assms
proof (induction cs arbitrary: s)
  case Nil
  then show ?case by simp
next
  case (Cons q cs)
  show ?case
  proof (cases "q = p")
    case True
    then show ?thesis using Cons by simp
  next
    case False
    then obtain s1 where s1: "send q forward_event s = Inr s1" "core s1 = core s"
        "out s1 = out s @ [rid_of s q # body]"
      using send_ok [OF _ Cons.prems(2,3)] Cons.prems(1) [of q] by auto
    note same = same_core [OF s1(2)]
    obtain s2 where "forward_to_clients send p cs s1 = Inr s2" "core s2 = core s1"
        "out s2 = out s1 @ map (\<lambda>q. rid_of s1 q # body) (filter (\<lambda>q. q \<noteq> p) cs)"
      using Cons.IH [of s1] Cons.prems by (auto simp: same)
    then show ?thesis using False s1 by (simp add: same)
  qed
qed

lemma forward_to_clients_fails:
  assumes "\<And>q. q \<in> set cs \<Longrightarrow> q \<noteq> p \<Longrightarrow> subscriber s q" and "publishing i a ms s"
    and "\<And>rid. delivery_wire Z rid i a (srv_headers s) ms = Inl e"
  shows "forward_to_clients send p cs s = (if filter (\<lambda>q. q \<noteq> p) cs = [] then Inr s else Inl e)"
  using assms
proof (induction cs)
  case (Cons q cs)
  then show ?case using send_fails [OF _ Cons.prems(2,3)] by (cases "q = p") auto
qed simp

lemma forward_to_patterns_ok:
  assumes "\<And>pat q. pat \<in> set ps \<Longrightarrow> q \<in> set (pat_clients pat) \<Longrightarrow> q \<noteq> p \<Longrightarrow> subscriber s q"
    and "publishing i a ms s"
    and "\<And>rid. delivery_wire Z rid i a (srv_headers s) ms = Inr (rid # body)"
    and "heap s p = Some c" and "request c = Some (k, m)" and "zccp_msg_address m = Some addr"
  shows "\<exists>s'. forward_to_patterns Z send p ps s = Inr s' \<and> core s' = core s
    \<and> out s' = out s @ map (\<lambda>q. rid_of s q # body) (recipients_for Z addr p ps)"
  using assms
proof (induction ps arbitrary: s c)
  case Nil
  then show ?case by simp
next
  case (Cons pat ps)
  let ?cs = "if rex_matches Z (rex pat) addr then pat_clients pat else []"
  have "\<exists>s1. forward_to_clients send p ?cs s = Inr s1 \<and> core s1 = core s
      \<and> out s1 = out s @ map (\<lambda>q. rid_of s q # body) (filter (\<lambda>q. q \<noteq> p) ?cs)"
    by (rule forward_to_clients_ok) (use Cons.prems in \<open>auto split: if_splits\<close>)
  then obtain s1 where s1: "(if rex_matches Z (rex pat) addr then forward_to_clients send p (pat_clients pat) s
        else Inr s) = Inr s1" "core s1 = core s"
      "out s1 = out s @ map (\<lambda>q. rid_of s q # body) (filter (\<lambda>q. q \<noteq> p) ?cs)"
    by (auto split: if_splits)
  note same = same_core [OF s1(2)]
  obtain c1 where c1: "heap s1 p = Some c1" "c1\<lparr>event := NULL_event\<rparr> = c\<lparr>event := NULL_event\<rparr>"
    by (rule same_core_heap [OF s1(2) Cons.prems(4)])
  have "request c1 = Some (k, m)"
    using arg_cong [OF c1(2), of request] Cons.prems(5) by simp
  with Cons.IH [of s1 c1] Cons.prems c1(1) obtain s2
    where "forward_to_patterns Z send p ps s1 = Inr s2" "core s2 = core s1"
      "out s2 = out s1 @ map (\<lambda>q. rid_of s1 q # body) (recipients_for Z addr p ps)"
    by (auto simp: same)
  then show ?case using Cons.prems(4-6) s1
    by (simp add: current_request_def same)
qed

lemma forward_to_patterns_fails:
  assumes "\<And>pat q. pat \<in> set ps \<Longrightarrow> q \<in> set (pat_clients pat) \<Longrightarrow> q \<noteq> p \<Longrightarrow> subscriber s q"
    and "publishing i a ms s"
    and "\<And>rid. delivery_wire Z rid i a (srv_headers s) ms = Inl e"
    and "heap s p = Some c" and "request c = Some (k, m)" and "zccp_msg_address m = Some addr"
  shows "forward_to_patterns Z send p ps s = (if recipients_for Z addr p ps = [] then Inr s else Inl e)"
  using assms(1)
proof (induction ps)
  case Nil
  show ?case by simp
next
  case (Cons pat ps)
  have "forward_to_clients send p (pat_clients pat) s =
      (if filter (\<lambda>q. q \<noteq> p) (pat_clients pat) = [] then Inr s else Inl e)"
    by (rule forward_to_clients_fails) (use Cons.prems assms(2,3) in auto)
  moreover have "forward_to_patterns Z send p ps s = (if recipients_for Z addr p ps = [] then Inr s else Inl e)"
    by (rule Cons.IH) (use Cons.prems in auto)
  ultimately show ?case using assms(4-6) by (simp add: current_request_def)
qed

end

interpretation engine: delivery "engine_send_event Z (Suc (Suc n))" Z for Z n
  by unfold_locales (simp add: engine_send_event_def execute_forward)

section \<open>The delivered message\<close>

lemma delivery_defined:
  assumes "czmq_api Z" and "vprintf Z i = Some i'" and "vprintf Z a = Some a'"
    and "sized_fits 1 i" and "sized_fits 1 a"
  shows "\<exists>body. (\<forall>rid. delivery_wire Z rid (Some i) (Some a) None ms = Inr (rid # body))
    \<and> stands_for Z (Inr body) (Deliver i' a' Map.empty (frames_of ms))"
proof -
  have H: "zhash_api (hash Z)" using assms(1) by (simp add: czmq_api_def)
  let ?m = "(zccp_msg_new ZCCP_MSG_DELIVER)\<lparr>sender := Some i', address := Some a', content := ms\<rparr>"
  have fits: "sized_fits 1 i'" "sized_fits 1 a'"
    using czmq_api.vprintf_shrinks [OF assms(1,2)] czmq_api.vprintf_shrinks [OF assms(1,3)] assms(4,5)
    by (auto simp: sized_fits_def wf_cstr_def)
  have cmd: "stands_for Z (zccp_msg_encode Z ?m) (Deliver i' a' Map.empty (frames_of ms))"
    by (rule stands_for_encode [OF H])
      (use fits in \<open>simp_all add: msg_ok_def fields_fit_def opt_fits_def dict_fits_def entries_of_def
        command_of_def zccp_msg_new_def del: One_nat_def\<close>)
  then obtain body where body: "zccp_msg_encode Z ?m = Inr body" by (auto simp: stands_for_def)
  have "delivery_wire Z rid (Some i) (Some a) None ms = Inr (rid # body)" for rid
    using body assms(2,3)
    by (simp add: delivery_wire_def zccp_msg_set_sender_def zccp_msg_set_address_def format_string_def
        zccp_msg_set_headers_def zccp_msg_set_content_def zccp_msg_set_id_def fresh_reply_def
        zccp_msg_set_routing_id_def zccp_msg_send_def zccp_msg_new_def)
  with cmd body show ?thesis by auto
qed

lemma delivery_undefined:
  assumes "vprintf Z i = None \<or> vprintf Z a = None"
  shows "delivery_wire Z rid (Some i) (Some a) hs ms = Inl Format_undefined"
  using assms by (cases "vprintf Z i")
    (simp_all add: delivery_wire_def zccp_msg_set_sender_def zccp_msg_set_address_def format_string_def)

section \<open>Publishing\<close>

text \<open>The state in which the traversal starts: the borrowed pointers are set.\<close>

definition publish_begun :: "ptr \<Rightarrow> 'h s_client_t \<Rightarrow> nat \<Rightarrow> 'h zccp_msg \<Rightarrow> ('h, 'r, 'c) s_server_t
    \<Rightarrow> ('h, 'r, 'c) s_server_t" where
  "publish_begun p c k m s = (put_client p (after_event publish_event c) s)
     \<lparr>srv_sender := Some \<lparr>owner = p, token = None, pointee = client_identifier c\<rparr>,
      srv_address := Some \<lparr>owner = p, token = Some k, pointee = zccp_msg_address m\<rparr>,
      srv_content := Some \<lparr>owner = p, token = Some k, pointee = zccp_msg_content m\<rparr>,
      walks := walks s + 1\<rparr>"

lemma publish_begun_fields [simp]:
  "heap (publish_begun p c k m s) = (heap s)(p \<mapsto> after_event publish_event c)"
  "patterns (publish_begun p c k m s) = patterns s" "clients (publish_begun p c k m s) = clients s"
  "verbose (publish_begun p c k m s) = verbose s" "srv_headers (publish_begun p c k m s) = srv_headers s" "srv_readers (publish_begun p c k m s) = srv_readers s"
  "out (publish_begun p c k m s) = out s" "loop (publish_begun p c k m s) = loop s"
  "next_ptr (publish_begun p c k m s) = next_ptr s"
  by (simp_all add: publish_begun_def)

lemma publishing_begun:
  assumes "request c = Some (k, m)"
  shows "publishing (client_identifier c) (zccp_msg_address m) (zccp_msg_content m) (publish_begun p c k m s)"
  using assms by (simp add: publishing_def read_borrow_def publish_begun_def)

lemma dispatch_publish:
  assumes "heap s p = Some c" and "state c = connected_state" and "request c = Some (k, m)"
  shows "s_client_dispatch Z send p (state c) publish_event (put_client p (after_event publish_event c) s)
    = forward_to_patterns Z send p (patterns s) (publish_begun p c k m s)"
  using assms by (simp add: s_client_dispatch_def in_connected_state_def unless_exception_def
      forward_to_subscribers_def current_request_def publish_begun_def)

lemma subscriber_begun:
  assumes "heap s p = Some c" and "subscriber s q" and "q \<noteq> p"
  shows "subscriber (publish_begun p c k m s) q"
  using assms by (auto simp: subscriber_def)

lemma execute_publish:
  assumes "heap s p = Some c" and "at_rest c" and "state c = connected_state"
    and "request c = Some (k, m)" and "zccp_msg_address m = Some addr"
    and "\<And>pat q. pat \<in> set (patterns s) \<Longrightarrow> q \<in> set (pat_clients pat) \<Longrightarrow> subscriber s q"
    and "\<And>rid. delivery_wire Z rid (client_identifier c) (Some addr) (srv_headers s) (zccp_msg_content m)
      = Inr (rid # body)"
  shows "\<exists>s'. s_client_execute Z (Suc (Suc (Suc n))) p publish_event s = Inr s'
    \<and> core s' = core (publish_begun p c k m s)
    \<and> out s' = out s @ map (\<lambda>q. rid_of s q # body) (recipients_for Z addr p (patterns s))"
proof -
  let ?s = "publish_begun p c k m s"
  have "\<exists>s'. forward_to_patterns Z (engine_send_event Z (Suc (Suc n))) p (patterns s) ?s = Inr s'
      \<and> core s' = core ?s
      \<and> out s' = out ?s @ map (\<lambda>q. rid_of ?s q # body) (recipients_for Z addr p (patterns s))"
  proof (rule engine.forward_to_patterns_ok)
    show "publishing (client_identifier c) (Some addr) (zccp_msg_content m) ?s"
      using publishing_begun [OF assms(4)] assms(5) by simp
    show "heap ?s p = Some (after_event publish_event c)" by simp
  qed (use assms subscriber_begun [OF assms(1)] in auto)
  then obtain s' where s': "forward_to_patterns Z (engine_send_event Z (Suc (Suc n))) p (patterns s) ?s = Inr s'"
      "core s' = core ?s" "out s' = out s @ map (\<lambda>q. rid_of ?s q # body) (recipients_for Z addr p (patterns s))"
    by auto
  obtain c' where c': "heap s' p = Some c'" "c'\<lparr>event := NULL_event\<rparr> = (after_event publish_event c)\<lparr>event := NULL_event\<rparr>"
    by (rule same_core_heap [OF s'(2), of p "after_event publish_event c"]) simp
  have "mailbox c' = []" "next_event c' = NULL_event" "exception c' = NULL_event"
    using arg_cong [OF c'(2), of mailbox] arg_cong [OF c'(2), of next_event]
      arg_cong [OF c'(2), of exception] assms(2) by (simp_all add: at_rest_def)
  then have "s_client_execute Z (Suc (Suc (Suc n))) p publish_event s = Inr s'"
    using execute_stays [OF assms(1,2), of publish_event Z "Suc n" s' c'] c'(1) s'(1)
    by (simp add: dispatch_publish [OF assms(1,3,4)])
  moreover have "rid_of ?s q = rid_of s q" for q
    by (simp add: rid_of_def assms(1))
  ultimately show ?thesis using s'(2,3) by auto
qed

lemma execute_publish_undefined:
  assumes "heap s p = Some c" and "at_rest c" and "state c = connected_state"
    and "request c = Some (k, m)" and "zccp_msg_address m = Some addr"
    and "\<And>pat q. pat \<in> set (patterns s) \<Longrightarrow> q \<in> set (pat_clients pat) \<Longrightarrow> subscriber s q"
    and "\<And>rid. delivery_wire Z rid (client_identifier c) (Some addr) (srv_headers s) (zccp_msg_content m)
      = Inl e"
  shows "s_client_execute Z (Suc (Suc (Suc n))) p publish_event s =
    (if recipients_for Z addr p (patterns s) = [] then Inr (publish_begun p c k m s) else Inl e)"
proof -
  let ?s = "publish_begun p c k m s"
  have fwd: "forward_to_patterns Z (engine_send_event Z (Suc (Suc n))) p (patterns s) ?s
      = (if recipients_for Z addr p (patterns s) = [] then Inr ?s else Inl e)"
  proof (rule engine.forward_to_patterns_fails)
    show "publishing (client_identifier c) (Some addr) (zccp_msg_content m) ?s"
      using publishing_begun [OF assms(4)] assms(5) by simp
    show "heap ?s p = Some (after_event publish_event c)" by simp
  qed (use assms subscriber_begun [OF assms(1)] in auto)
  show ?thesis
  proof (cases "recipients_for Z addr p (patterns s) = []")
    case True
    have "s_client_execute Z (Suc (Suc (Suc n))) p publish_event s = Inr ?s"
      by (rule execute_stays [OF assms(1,2), where c' = "after_event publish_event c"])
        (use assms(2) True in \<open>simp_all add: dispatch_publish [OF assms(1,3,4)] fwd at_rest_def\<close>)
    then show ?thesis using True by simp
  next
    case False
    then show ?thesis
      using execute_fault [OF assms(1,2), of publish_event Z "Suc (Suc n)" e]
      by (simp add: dispatch_publish [OF assms(1,3,4)] fwd)
  qed
qed

end
