(* ===== verification/Server_Spec.thy ===== *)
theory Server_Spec
  imports Server_Runs
begin

text \<open>
  The specification of the broker and the invariant of its state.

  \<open>broker\<close> is what clients can observe of the server: the sessions by routing identifier, and for each
  expression the subscribed peers in the order of delivery.  \<open>broker_step\<close> says what a command does to
  it and which commands it sends to whom.  \<open>broker_of\<close> abstracts the state of the server; the
  invariant \<open>server_ok\<close> relates the hash table, the heap, the subscription lists and the timers.
\<close>

section \<open>Specification\<close>

record broker =
  sessions :: "frame \<rightharpoonup> cstr option"             \<comment> \<open>with the identifier, once greeted\<close>
  table :: "(cstr \<times> frame list) list"

definition leave :: "frame \<Rightarrow> broker \<Rightarrow> broker" where
  "leave r B = \<lparr>sessions = (sessions B)(r := None),
     table = map (\<lambda>(e, rs). (e, filter (\<lambda>q. q \<noteq> r) rs)) (table B)\<rparr>"

fun subscribe_table :: "cstr \<Rightarrow> frame \<Rightarrow> (cstr \<times> frame list) list \<Rightarrow> (cstr \<times> frame list) list" where
  "subscribe_table e r [] = [(e, [r])]"
| "subscribe_table e r ((x, rs) # T) =
     (if x = e then (x, if r \<in> set rs then rs else rs @ [r]) # T else (x, rs) # subscribe_table e r T)"

definition recipients :: "('h, 'r) czmq \<Rightarrow> broker \<Rightarrow> frame \<Rightarrow> cstr \<Rightarrow> frame list" where
  "recipients Z B r a = concat (map (\<lambda>(e, rs). if rex_matches Z (rex_new Z e) a
      then filter (\<lambda>q. q \<noteq> r) rs else []) (table B))"

definition broker_step :: "('h, 'r) czmq \<Rightarrow> broker \<Rightarrow> frame \<Rightarrow> command
    \<Rightarrow> (broker \<times> (frame \<times> command) list) result" where
  "broker_step Z B r cmd = (case sessions B r of
     Some (Some ident) \<Rightarrow> (case cmd of
         Subscribe e hs \<Rightarrow> Inr (B\<lparr>table := subscribe_table e r (table B)\<rparr>, [(r, Subscribe_ok)])
       | Publish a hs ms \<Rightarrow>
           if recipients Z B r a = [] then Inr (B, [])
           else rbind (of_option Format_undefined (vprintf Z ident)) (\<lambda>i.
                rbind (of_option Format_undefined (vprintf Z a)) (\<lambda>a'.
                Inr (B, map (\<lambda>q. (q, Deliver i a' Map.empty ms)) (recipients Z B r a))))
       | Direct a hs ms \<Rightarrow> Inr (B, [])
       | Goodbye \<Rightarrow> Inr (leave r B, [(r, Goodbye_ok Map.empty)])
       | _ \<Rightarrow> Inr (leave r B, [(r, Invalid)]))
   | _ \<Rightarrow> (case cmd of
         Hello i hs \<Rightarrow> Inr (B\<lparr>sessions := (sessions B)(r \<mapsto> Some i)\<rparr>, [(r, Hello_ok Map.empty)])
       | Goodbye \<Rightarrow> Inr (leave r B, [(r, Goodbye_ok Map.empty)])
       | _ \<Rightarrow> Inr (leave r B, [(r, Invalid)])))"

text \<open>A message on the router socket that carries a command to a peer.\<close>

definition carries :: "('h, 'r) czmq \<Rightarrow> frame \<times> command \<Rightarrow> zmsg \<Rightarrow> bool" where
  "carries Z = (\<lambda>(r, cmd) wire. \<exists>msg. wire = r # msg \<and> stands_for Z (Inr msg) cmd)"

section \<open>Abstraction\<close>

definition session_of :: "'h s_client_t \<Rightarrow> cstr option" where
  "session_of c = (if state c = connected_state then client_identifier c else None)"

definition sessions_of :: "('h, 'r) czmq \<Rightarrow> ('h, 'r, 'c) s_server_t \<Rightarrow> frame \<rightharpoonup> cstr option" where
  "sessions_of Z s r = Option.bind (clients s (strhex Z r)) (\<lambda>p. map_option session_of (heap s p))"

definition table_of :: "('h, 'r, 'c) s_server_t \<Rightarrow> (cstr \<times> frame list) list" where
  "table_of s = map (\<lambda>pat. (pat_expression pat, map (rid_of s) (pat_clients pat))) (patterns s)"

definition broker_of :: "('h, 'r) czmq \<Rightarrow> ('h, 'r, 'c) s_server_t \<Rightarrow> broker" where
  "broker_of Z s = \<lparr>sessions = sessions_of Z s, table = table_of s\<rparr>"

section \<open>Invariant\<close>

definition context_ok :: "('h, 'r) czmq \<Rightarrow> 'h s_client_t \<Rightarrow> bool" where
  "context_ok Z c \<longleftrightarrow> at_rest c \<and> hashkey c = strhex Z (client_routing_id c) \<and> state c \<noteq> external_state
     \<and> length (log_prefix c) < 40
     \<and> (state c = connected_state \<longrightarrow> (\<exists>i. client_identifier c = Some i \<and> sized_fits 1 i))"

definition clients_ok :: "('h, 'r) czmq \<Rightarrow> ('h, 'r, 'c) s_server_t \<Rightarrow> bool" where
  "clients_ok Z s \<longleftrightarrow> (\<forall>k p. clients s k = Some p \<longrightarrow> (\<exists>c. heap s p = Some c \<and> hashkey c = k))
     \<and> (\<forall>p c. heap s p = Some c \<longrightarrow> clients s (hashkey c) = Some p \<and> p < next_ptr s \<and> context_ok Z c)"

definition patterns_ok :: "('h, 'r) czmq \<Rightarrow> ('h, 'r, 'c) s_server_t \<Rightarrow> bool" where
  "patterns_ok Z s \<longleftrightarrow> distinct (map pat_expression (patterns s))
     \<and> (\<forall>pat \<in> set (patterns s). rex pat = rex_new Z (pat_expression pat) \<and> distinct (pat_clients pat)
          \<and> (\<forall>q \<in> set (pat_clients pat). \<exists>c. heap s q = Some c \<and> state c = connected_state))"

definition timers_ok :: "('h, 'r, 'c) s_server_t \<Rightarrow> bool" where
  "timers_ok s \<longleftrightarrow> distinct (map tm_id (loop s))
     \<and> (\<forall>t \<in> set (loop s). 0 < tm_id t)
     \<and> (\<forall>t \<in> set (loop s). \<forall>p. tm_handler t \<noteq> s_client_handle_wakeup_fn p
          \<and> (tm_handler t = s_client_handle_timeout_fn p \<longrightarrow> (\<exists>c. heap s p = Some c \<and> expiry_timer c = tm_id t)))
     \<and> (\<forall>p c. heap s p = Some c \<longrightarrow> 0 < expiry_timer c \<and>
          (\<exists>t \<in> set (loop s). tm_id t = expiry_timer c \<and> tm_handler t = s_client_handle_timeout_fn p))"

text \<open>Nothing sets the headers of the server, and the two sockets are polled from the start.\<close>

abbreviation main_readers :: "(srv_socket \<times> srv_reader_fn) list" where
  "main_readers \<equiv> [(srv_pipe, s_server_api_message_fn), (srv_router, s_server_client_message_fn)]"

definition steady :: "('h, 'r, 'c) s_server_t \<Rightarrow> bool" where
  "steady s \<longleftrightarrow> srv_headers s = None \<and> srv_readers s = main_readers"

lemma steady_fields [simp]:
  "steady (s\<lparr>patterns := ps\<rparr>) = steady s" "steady (s\<lparr>loop := ts\<rparr>) = steady s"
  by (simp_all add: steady_def)

definition server_ok :: "('h, 'r) czmq \<Rightarrow> ('h, 'r, 'c) s_server_t \<Rightarrow> bool" where
  "server_ok Z s \<longleftrightarrow> clients_ok Z s \<and> patterns_ok Z s \<and> timers_ok s \<and> steady s"

lemmas ok_defs = steady_def server_ok_def clients_ok_def patterns_ok_def timers_ok_def

lemma server_ok_irrelevant [simp]:
  "server_ok Z (s\<lparr>out := x1\<rparr>) = server_ok Z s"
  "server_ok Z (s\<lparr>walks := x2\<rparr>) = server_ok Z s"
  "server_ok Z (s\<lparr>srv_sender := x3\<rparr>) = server_ok Z s"
  "server_ok Z (s\<lparr>srv_address := x4\<rparr>) = server_ok Z s"
  "server_ok Z (s\<lparr>srv_content := x5\<rparr>) = server_ok Z s"
  by (simp_all add: ok_defs)

lemma broker_of_irrelevant [simp]:
  "broker_of Z (s\<lparr>out := x1\<rparr>) = broker_of Z s"
  "broker_of Z (s\<lparr>walks := x2\<rparr>) = broker_of Z s"
  "broker_of Z (s\<lparr>srv_sender := x3\<rparr>) = broker_of Z s"
  "broker_of Z (s\<lparr>srv_address := x4\<rparr>) = broker_of Z s"
  "broker_of Z (s\<lparr>srv_content := x5\<rparr>) = broker_of Z s"
  by (simp_all add: broker_of_def sessions_of_def [abs_def] table_of_def rid_of_def)

lemma put_client_irrelevant [simp]:
  "server_ok Z (put_client p d (s\<lparr>out := x1\<rparr>)) = server_ok Z (put_client p d s)"
  "server_ok Z (put_client p d (s\<lparr>walks := x2\<rparr>)) = server_ok Z (put_client p d s)"
  "broker_of Z (put_client p d (s\<lparr>out := x1\<rparr>)) = broker_of Z (put_client p d s)"
  "broker_of Z (put_client p d (s\<lparr>walks := x2\<rparr>)) = broker_of Z (put_client p d s)"
  by (simp_all flip: put_client_updates)

lemma server_ok_client:
  assumes "server_ok Z s" and "heap s p = Some c"
  shows "clients s (hashkey c) = Some p" "p < next_ptr s" "context_ok Z c" "at_rest c"
    "hashkey c = strhex Z (client_routing_id c)"
proof -
  show *: "clients s (hashkey c) = Some p" "p < next_ptr s" "context_ok Z c"
    using assms by (simp_all add: ok_defs)
  show "at_rest c" "hashkey c = strhex Z (client_routing_id c)"
    using *(3) by (simp_all add: context_ok_def)
qed

lemma server_ok_key:
  assumes "server_ok Z s" and "clients s k = Some p"
  obtains c where "heap s p = Some c" and "hashkey c = k"
  using assms by (auto simp: ok_defs)

lemma server_ok_subscriber:
  assumes "server_ok Z s" and "pat \<in> set (patterns s)" and "q \<in> set (pat_clients pat)"
  shows "subscriber s q"
  using assms server_ok_client(4) [OF assms(1)] by (fastforce simp: subscriber_def ok_defs)

lemma timer_of_client:
  assumes "timers_ok s" and "heap s p = Some c"
  obtains t where "t \<in> set (loop s)" and "tm_id t = expiry_timer c"
    and "tm_handler t = s_client_handle_timeout_fn p" and "0 < expiry_timer c"
  using assms unfolding timers_ok_def by metis

lemma client_of_timer:
  assumes "timers_ok s" and "t \<in> set (loop s)" and "tm_handler t = s_client_handle_timeout_fn p"
  obtains c where "heap s p = Some c" and "expiry_timer c = tm_id t"
  using assms unfolding timers_ok_def by metis

text \<open>Equal cores have the same abstraction, and both satisfy the invariant or neither does.\<close>

lemma context_ok_event [simp]: "context_ok Z (c\<lparr>event := ev\<rparr>) = context_ok Z c"
  by (simp add: context_ok_def)

lemma session_of_event [simp]: "session_of (c\<lparr>event := ev\<rparr>) = session_of c"
  by (simp add: session_of_def)

lemma heap_core_all: "(\<forall>p c. heap (core s) p = Some c \<longrightarrow> P p c) \<longleftrightarrow> (\<forall>p c. heap s p = Some c \<longrightarrow> P p (c\<lparr>event := NULL_event\<rparr>))"
  by (auto simp: core_heap)

lemma heap_core_ex: "(\<exists>c. heap (core s) p = Some c \<and> P c) \<longleftrightarrow> (\<exists>c. heap s p = Some c \<and> P (c\<lparr>event := NULL_event\<rparr>))"
  by (auto simp: core_heap)

lemma server_ok_core: "server_ok Z (core s) = server_ok Z s"
  by (simp add: ok_defs heap_core_all heap_core_ex)

lemma broker_of_core: "broker_of Z (core s) = broker_of Z s"
proof -
  have "sessions_of Z (core s) = sessions_of Z s"
    by (intro ext) (simp add: sessions_of_def core_heap option.map_comp o_def)
  then show ?thesis by (simp add: broker_of_def table_of_def core_rid_of [abs_def])
qed

lemma same_core_ok:
  assumes "core s' = core s"
  shows "server_ok Z s' = server_ok Z s" "broker_of Z s' = broker_of Z s"
  by (metis assms server_ok_core) (metis assms broker_of_core)

section \<open>Elementary changes of the state\<close>

lemma rid_of_client [simp]: "heap s p = Some c \<Longrightarrow> rid_of s p = client_routing_id c"
  by (simp add: rid_of_def)

lemma rid_inj:
  assumes "server_ok Z s" and "heap s p = Some c" and "heap s q = Some d"
    and "client_routing_id c = client_routing_id d"
  shows "p = q"
  using server_ok_client(1,5) [OF assms(1,2)] server_ok_client(1,5) [OF assms(1,3)] assms(4) by simp

text \<open>A client context is updated.\<close>

lemma put_client_ex:
  assumes "heap s p = Some c" and "P c \<longrightarrow> P d" and "\<exists>x. heap s q = Some x \<and> P x"
  shows "\<exists>x. heap (put_client p d s) q = Some x \<and> P x"
  using assms by (cases "q = p") auto

lemma put_client_all:
  assumes "heap (put_client p d s) q = Some x" and "heap s p = Some c"
  obtains "q = p" and "x = d" | "q \<noteq> p" and "heap s q = Some x"
  using assms by (cases "q = p") auto

lemma update_client_ok:
  assumes "server_ok Z s" and "heap s p = Some c" and "context_ok Z d" and "hashkey d = hashkey c"
    and "expiry_timer d = expiry_timer c" and "state c = connected_state \<longrightarrow> state d = connected_state"
  shows "server_ok Z (put_client p d s)"
proof -
  have ok: "clients_ok Z s" "patterns_ok Z s" "timers_ok s" "steady s"
    using assms(1) by (simp_all add: server_ok_def)
  note ex = put_client_ex [OF assms(2)]
  have "clients_ok Z (put_client p d s)"
    unfolding clients_ok_def
  proof (intro conjI allI impI; (elim put_client_all [OF _ assms(2)])?)
    fix k q assume "clients (put_client p d s) k = Some q"
    then show "\<exists>x. heap (put_client p d s) q = Some x \<and> hashkey x = k"
      using ok(1) ex [of "\<lambda>x. hashkey x = k"] assms(4) by (simp add: clients_ok_def)
  qed (use ok(1) assms(2-4) in \<open>auto simp: clients_ok_def\<close>)
  moreover have "patterns_ok Z (put_client p d s)"
    using ok(2) ex [of "\<lambda>x. state x = connected_state"] assms(6) by (simp add: patterns_ok_def)
  moreover have "timers_ok (put_client p d s)"
    unfolding timers_ok_def
  proof (intro conjI ballI allI impI; (elim put_client_all [OF _ assms(2)])?)
    fix t q assume "t \<in> set (loop (put_client p d s))" "tm_handler t = s_client_handle_timeout_fn q"
    then show "\<exists>x. heap (put_client p d s) q = Some x \<and> expiry_timer x = tm_id t"
      using ok(3) ex [of "\<lambda>x. expiry_timer x = tm_id t"] assms(5) by (simp add: timers_ok_def)
  qed (use ok(3) assms(2,5) in \<open>auto simp: timers_ok_def\<close>)
  ultimately show ?thesis using ok(4) by (simp add: server_ok_def steady_def)
qed

lemma update_client_broker:
  assumes "czmq_api Z" and "server_ok Z s" and "heap s p = Some c"
    and "client_routing_id d = client_routing_id c"
  shows "broker_of Z (put_client p d s) =
    (broker_of Z s)\<lparr>sessions := (sessions (broker_of Z s))(client_routing_id c \<mapsto> session_of d)\<rparr>"
proof -
  have "rid_of (put_client p d s) q = rid_of s q" for q
    using assms(3,4) by (simp add: rid_of_def)
  moreover have "sessions_of Z (put_client p d s) r = ((sessions_of Z s)(client_routing_id c \<mapsto> session_of d)) r" for r
  proof (cases "r = client_routing_id c")
    case True
    then show ?thesis
      using server_ok_client(1,5) [OF assms(2,3)] by (simp add: sessions_of_def)
  next
    case False
    then have "clients s (strhex Z r) \<noteq> Some p"
      using server_ok_client(5) [OF assms(2,3)] czmq_api.strhex_eq_iff [OF assms(1)] assms(3)
      by (metis server_ok_key [OF assms(2)] option.inject)
    then show ?thesis using False by (cases "clients s (strhex Z r)") (auto simp: sessions_of_def)
  qed
  ultimately show ?thesis by (simp add: broker_of_def table_of_def [abs_def] fun_eq_iff)
qed

text \<open>A client leaves.\<close>

lemma without_client_fields:
  assumes "heap s p = Some c"
  shows "heap (without_client p s) = (heap s)(p := None)"
    and "clients (without_client p s) = (clients s)(hashkey c := None)"
    and "patterns (without_client p s) = map (\<lambda>pat. pat\<lparr>pat_clients := remove1 p (pat_clients pat)\<rparr>) (patterns s)"
    and "steady (without_client p s) = steady s" and "verbose (without_client p s) = verbose s"
    and "next_ptr (without_client p s) = next_ptr s" and "out (without_client p s) = out s"
  using assms by (simp_all add: without_client_def client_terminate_def steady_def)

lemma without_client_loop:
  assumes "server_ok Z s" and "heap s p = Some c"
  shows "loop (without_client p s) = zloop_timer_end (expiry_timer c) (loop s)"
proof -
  have "wakeup_timer c = 0" using server_ok_client(4) [OF assms] by (simp add: at_rest_def)
  moreover have "0 < expiry_timer c" using assms by (simp add: ok_defs)
  ultimately show ?thesis using assms(2) by (simp add: without_client_def client_terminate_def end_timer_def)
qed

lemma without_client_timers:
  assumes "server_ok Z s" and "heap s p = Some c"
  shows "timers_ok (without_client p s)"
proof -
  have t: "timers_ok s" using assms(1) by (simp add: server_ok_def)
  obtain tm where tm: "tm \<in> set (loop s)" "tm_id tm = expiry_timer c"
      "tm_handler tm = s_client_handle_timeout_fn p"
    by (rule timer_of_client [OF t assms(2)])
  have dist: "distinct (map tm_id (loop s))" using t by (simp add: timers_ok_def)
  have same_id: "t = tm" if "t \<in> set (loop s)" "tm_id t = expiry_timer c" for t
    using dist tm that by (metis (no_types, lifting) distinct_map inj_onD)
  show ?thesis
    unfolding timers_ok_def without_client_loop [OF assms] without_client_fields(1) [OF assms(2)]
  proof (intro conjI ballI allI impI)
    fix t q
    assume *: "t \<in> set (zloop_timer_end (expiry_timer c) (loop s))"
    then show "tm_handler t \<noteq> s_client_handle_wakeup_fn q" using t by (auto simp: timers_ok_def)
    assume h: "tm_handler t = s_client_handle_timeout_fn q"
    obtain d where "heap s q = Some d" "expiry_timer d = tm_id t"
      by (rule client_of_timer [OF t _ h]) (use * in auto)
    with * assms(2) show "\<exists>c. ((heap s)(p := None)) q = Some c \<and> expiry_timer c = tm_id t" by auto
  next
    fix q d
    assume q: "((heap s)(p := None)) q = Some d"
    then have d: "heap s q = Some d" "q \<noteq> p" by (auto split: if_splits)
    obtain t' where t': "t' \<in> set (loop s)" "tm_id t' = expiry_timer d"
        "tm_handler t' = s_client_handle_timeout_fn q" "0 < expiry_timer d"
      by (rule timer_of_client [OF t d(1)])
    show "0 < expiry_timer d" by (rule t'(4))
    have "tm_id t' \<noteq> expiry_timer c" using same_id [of t'] t' tm(3) d(2) by auto
    then show "\<exists>t \<in> set (zloop_timer_end (expiry_timer c) (loop s)). tm_id t = expiry_timer d
        \<and> tm_handler t = s_client_handle_timeout_fn q"
      using t' by auto
  next
    fix t
    assume "t \<in> set (zloop_timer_end (expiry_timer c) (loop s))"
    then show "0 < tm_id t" using t by (auto simp: timers_ok_def)
  qed (simp add: zloop_timer_end_ids dist)
qed

lemma without_client_ok:
  assumes "server_ok Z s" and "heap s p = Some c"
  shows "server_ok Z (without_client p s)"
proof -
  note f = without_client_fields [OF assms(2)]
  have "clients_ok Z (without_client p s)"
    using assms unfolding server_ok_def clients_ok_def f by (auto split: if_splits; metis option.inject)
  moreover have "patterns_ok Z (without_client p s)"
    using assms unfolding server_ok_def patterns_ok_def f
    by (auto simp: comp_def dest: notin_set_remove1)
  ultimately show ?thesis
    using assms(1) without_client_timers [OF assms] by (simp add: server_ok_def f)
qed

lemma live_client:
  assumes "server_ok Z s" and "pat \<in> set (patterns s)" and "q \<in> set (pat_clients pat)"
  obtains c where "heap s q = Some c" and "state c = connected_state"
  using assms unfolding server_ok_def patterns_ok_def by blast

lemma map_remove_client:
  assumes "server_ok Z s" and "heap s p = Some c" and "pat \<in> set (patterns s)"
  shows "map (rid_of (without_client p s)) (remove1 p (pat_clients pat))
    = filter (\<lambda>r. r \<noteq> client_routing_id c) (map (rid_of s) (pat_clients pat))"
proof -
  have d: "distinct (pat_clients pat)" using assms by (simp add: ok_defs)
  have q: "rid_of s q \<noteq> client_routing_id c \<longleftrightarrow> q \<noteq> p" if "q \<in> set (pat_clients pat)" for q
    using live_client [OF assms(1,3) that] rid_inj [OF assms(1,2)] assms(2) by (metis rid_of_client)
  have "filter (\<lambda>r. r \<noteq> client_routing_id c) (map (rid_of s) (pat_clients pat))
      = map (rid_of s) (filter (\<lambda>q. q \<noteq> p) (pat_clients pat))"
    using q by (simp add: filter_map o_def cong: filter_cong)
  also have "filter (\<lambda>q. q \<noteq> p) (pat_clients pat) = remove1 p (pat_clients pat)"
    by (simp add: distinct_remove1_removeAll [OF d] removeAll_filter_not_eq eq_commute)
  also have "map (rid_of s) (remove1 p (pat_clients pat)) = map (rid_of (without_client p s)) (remove1 p (pat_clients pat))"
    using d by (auto simp: rid_of_def without_client_fields(1) [OF assms(2)])
  finally show ?thesis by simp
qed

lemma without_client_broker:
  assumes "czmq_api Z" and "server_ok Z s" and "heap s p = Some c"
  shows "broker_of Z (without_client p s) = leave (client_routing_id c) (broker_of Z s)"
proof -
  note f = without_client_fields [OF assms(3)]
  have "table_of (without_client p s) = table (leave (client_routing_id c) (broker_of Z s))"
    by (simp add: table_of_def f(3) leave_def broker_of_def map_remove_client [OF assms(2,3)] cong: map_cong)
  moreover have "sessions_of Z (without_client p s) r = ((sessions_of Z s)(client_routing_id c := None)) r" for r
  proof (cases "r = client_routing_id c")
    case True
    then show ?thesis
      using server_ok_client(5) [OF assms(2,3)] by (simp add: sessions_of_def f(2))
  next
    case False
    then have ne: "strhex Z r \<noteq> hashkey c"
      using server_ok_client(5) [OF assms(2,3)] czmq_api.strhex_eq_iff [OF assms(1)] by simp
    have "clients s (strhex Z r) \<noteq> Some p"
      using ne assms(3) by (metis server_ok_key [OF assms(2)] option.inject)
    then show ?thesis using False ne
      by (cases "clients s (strhex Z r)") (auto simp: sessions_of_def f(1,2))
  qed
  ultimately show ?thesis by (simp add: broker_of_def leave_def fun_eq_iff)
qed

text \<open>A client subscribes.\<close>

lemma add_subscriber_None: "add_subscriber e p ps = None \<longleftrightarrow> e \<notin> pat_expression ` set ps"
  by (induction ps) auto

lemma subscribed_simps [simp]:
  "subscribed Z e p [] = [s_pattern_new Z e p]"
  "subscribed Z e p (pat # ps) =
     (if pat_expression pat = e then
        (if p \<in> set (pat_clients pat) then pat else pat\<lparr>pat_clients := pat_clients pat @ [p]\<rparr>) # ps
      else pat # subscribed Z e p ps)"
  by (simp_all add: subscribed_def split: option.split)

lemma subscribed_expressions:
  "map pat_expression (subscribed Z e p ps)
     = (if e \<in> pat_expression ` set ps then map pat_expression ps else map pat_expression ps @ [e])"
  by (induction ps) (auto simp: s_pattern_new_def)

lemma subscribed_patterns:
  assumes "\<forall>pat \<in> set ps. P pat" and "P (s_pattern_new Z e p)"
    and "\<And>pat. P pat \<Longrightarrow> p \<notin> set (pat_clients pat) \<Longrightarrow> P (pat\<lparr>pat_clients := pat_clients pat @ [p]\<rparr>)"
  shows "\<forall>pat \<in> set (subscribed Z e p ps). P pat"
  using assms by (induction ps) auto

lemma subscribe_ok:
  assumes "server_ok Z s" and "heap s p = Some c" and "state c = connected_state"
  shows "server_ok Z (s\<lparr>patterns := subscribed Z e p (patterns s)\<rparr>)"
proof -
  let ?P = "\<lambda>pat. rex pat = rex_new Z (pat_expression pat) \<and> distinct (pat_clients pat)
      \<and> (\<forall>q \<in> set (pat_clients pat). \<exists>c. heap s q = Some c \<and> state c = connected_state)"
  have "\<forall>pat \<in> set (subscribed Z e p (patterns s)). ?P pat"
    by (rule subscribed_patterns) (use assms in \<open>auto simp: ok_defs s_pattern_new_def\<close>)
  moreover have "distinct (map pat_expression (subscribed Z e p (patterns s)))"
    using assms(1) by (auto simp: subscribed_expressions ok_defs)
  ultimately have "patterns_ok Z (s\<lparr>patterns := subscribed Z e p (patterns s)\<rparr>)"
    by (simp add: patterns_ok_def)
  then show ?thesis using assms(1) by (simp add: server_ok_def clients_ok_def timers_ok_def)
qed

lemma subscribe_broker:
  assumes "server_ok Z s" and "heap s p = Some c"
  shows "broker_of Z (s\<lparr>patterns := subscribed Z e p (patterns s)\<rparr>) =
    (broker_of Z s)\<lparr>table := subscribe_table e (client_routing_id c) (table (broker_of Z s))\<rparr>"
proof -
  have mem: "client_routing_id c \<in> rid_of s ` set (pat_clients pat) \<longleftrightarrow> p \<in> set (pat_clients pat)"
    if pat: "pat \<in> set (patterns s)" for pat
  proof
    assume "client_routing_id c \<in> rid_of s ` set (pat_clients pat)"
    then obtain q where q: "q \<in> set (pat_clients pat)" "client_routing_id c = rid_of s q" by auto
    obtain d where "heap s q = Some d" by (rule live_client [OF assms(1) pat q(1)])
    with rid_inj [OF assms this] q show "p \<in> set (pat_clients pat)" by simp
  qed (use assms(2) in \<open>auto intro!: image_eqI [of _ _ p]\<close>)
  have "map (\<lambda>pat. (pat_expression pat, map (rid_of s) (pat_clients pat))) (subscribed Z e p ps)
      = subscribe_table e (client_routing_id c) (map (\<lambda>pat. (pat_expression pat, map (rid_of s) (pat_clients pat))) ps)"
    if "set ps \<subseteq> set (patterns s)" for ps
    using that by (induction ps) (auto simp: s_pattern_new_def mem assms(2))
  then have "table_of (s\<lparr>patterns := subscribed Z e p (patterns s)\<rparr>)
      = subscribe_table e (client_routing_id c) (table_of s)"
    by (simp add: table_of_def rid_of_def [abs_def])
  then show ?thesis by (simp add: broker_of_def sessions_of_def [abs_def])
qed

text \<open>The pointers a message is forwarded to are the recipients of the specification.\<close>

lemma recipients_of:
  assumes "server_ok Z s" and "heap s p = Some c"
  shows "map (rid_of s) (recipients_for Z a p (patterns s)) = recipients Z (broker_of Z s) (client_routing_id c) a"
proof -
  have "map (rid_of s) (filter (\<lambda>q. q \<noteq> p) (pat_clients pat))
      = filter (\<lambda>r. r \<noteq> client_routing_id c) (map (rid_of s) (pat_clients pat))"
    if "pat \<in> set (patterns s)" for pat
  proof -
    have "q \<noteq> p \<longleftrightarrow> rid_of s q \<noteq> client_routing_id c" if "q \<in> set (pat_clients pat)" for q
      using live_client [OF assms(1) \<open>pat \<in> _\<close> that] rid_inj [OF assms] assms(2) by (metis rid_of_client)
    then show ?thesis by (simp add: filter_map o_def cong: filter_cong)
  qed
  moreover have "rex pat = rex_new Z (pat_expression pat)" if "pat \<in> set (patterns s)" for pat
    using assms(1) that by (simp add: ok_defs)
  ultimately have "map (rid_of s) (if rex_matches Z (rex pat) a then filter (\<lambda>q. q \<noteq> p) (pat_clients pat) else [])
      = (if rex_matches Z (rex_new Z (pat_expression pat)) a
         then filter (\<lambda>r. r \<noteq> client_routing_id c) (map (rid_of s) (pat_clients pat)) else [])"
    if "pat \<in> set (patterns s)" for pat
    using that by simp
  then show ?thesis
    by (simp add: recipients_for_def recipients_def broker_of_def table_of_def map_concat o_def
        cong: map_cong)
qed

section \<open>A message is accepted\<close>

text \<open>
  The timers while a message is being accepted: the client \<open>p\<close>, if it is new, has none yet.
\<close>

definition timers_pending :: "ptr \<Rightarrow> ('h, 'r, 'c) s_server_t \<Rightarrow> bool" where
  "timers_pending p s \<longleftrightarrow> distinct (map tm_id (loop s))
     \<and> (\<forall>t \<in> set (loop s). 0 < tm_id t)
     \<and> (\<forall>t \<in> set (loop s). \<forall>q. tm_handler t \<noteq> s_client_handle_wakeup_fn q
          \<and> (tm_handler t = s_client_handle_timeout_fn q \<longrightarrow> (\<exists>c. heap s q = Some c \<and> expiry_timer c = tm_id t)))
     \<and> (\<forall>q c. heap s q = Some c \<longrightarrow> (q = p \<and> expiry_timer c = 0) \<or> (0 < expiry_timer c \<and>
          (\<exists>t \<in> set (loop s). tm_id t = expiry_timer c \<and> tm_handler t = s_client_handle_timeout_fn q)))"

lemma timers_ok_pending: "timers_ok s \<Longrightarrow> timers_pending p s"
  by (simp add: timers_ok_def timers_pending_def)

lemma unchanged_loop:
  assumes "timers_pending p s" and "heap s q = Some d" and "heap s p = Some c" and "q \<noteq> p"
  obtains t where "t \<in> set (end_timer (expiry_timer c) (loop s))" and "tm_id t = expiry_timer d"
    and "tm_handler t = s_client_handle_timeout_fn q" and "0 < expiry_timer d"
proof -
  from assms(1,2,4) obtain t where t: "t \<in> set (loop s)" "tm_id t = expiry_timer d"
      "tm_handler t = s_client_handle_timeout_fn q" "0 < expiry_timer d"
    unfolding timers_pending_def by blast
  have "tm_id t \<noteq> expiry_timer c"
  proof
    assume same: "tm_id t = expiry_timer c"
    with t(2,4) assms(1,3) obtain t' where t': "t' \<in> set (loop s)" "tm_id t' = expiry_timer c"
        "tm_handler t' = s_client_handle_timeout_fn p"
      unfolding timers_pending_def by (metis less_irrefl)
    have "inj_on tm_id (set (loop s))"
      using assms(1) by (simp add: timers_pending_def distinct_map)
    then have "t' = t" by (rule inj_onD) (use same t(1) t' in auto)
    with t(3) t'(3) assms(4) show False by simp
  qed
  with t(1) have "t \<in> set (end_timer (expiry_timer c) (loop s))" by (simp add: end_timer_def)
  then show ?thesis using that t by blast
qed

lemma renew_timer:
  assumes Z: "czmq_api Z" and s: "timers_pending p s" and c: "heap s p = Some c"
    and new: "zloop_timer Z delay 1 (s_client_handle_timeout_fn p) (end_timer (expiry_timer c) (loop s)) = (i, ts)"
    and d: "expiry_timer d = i"
  shows "timers_ok (put_client p d (s\<lparr>loop := ts, next_serial := k\<rparr>))"
proof -
  let ?ts = "end_timer (expiry_timer c) (loop s)"
  have sub: "t \<in> set (loop s)" "tm_id t \<noteq> expiry_timer c" if "t \<in> set ?ts" for t
    using that s by (auto simp: end_timer_def timers_pending_def split: if_splits)
  have dist: "distinct (map tm_id ?ts)"
    using s by (auto simp: end_timer_def timers_pending_def zloop_timer_end_ids)
  note spec = czmq_api.zloop_timer_spec [OF Z new]
  define tm where "tm = \<lparr>tm_id = i, tm_delay = delay, tm_times = 1, tm_handler = s_client_handle_timeout_fn p\<rparr>"
  have ts: "ts = ?ts @ [tm]" using spec(3) by (simp add: tm_def)
  let ?s = "put_client p d (s\<lparr>loop := ts, next_serial := k\<rparr>)"
  have f: "loop ?s = ts" "heap ?s = (heap s)(p \<mapsto> d)" by simp_all
  show ?thesis
    unfolding timers_ok_def f
  proof (intro conjI ballI allI impI)
    show "distinct (map tm_id ts)" by (rule spec(4) [OF dist])
  next
    fix t assume "t \<in> set ts"
    then show "0 < tm_id t"
      using sub(1) spec(1) s by (auto simp: ts tm_def timers_pending_def)
  next
    fix t q assume t: "t \<in> set ts"
    show "tm_handler t \<noteq> s_client_handle_wakeup_fn q"
      using t sub(1) s by (auto simp: ts tm_def timers_pending_def)
    assume h: "tm_handler t = s_client_handle_timeout_fn q"
    show "\<exists>x. ((heap s)(p \<mapsto> d)) q = Some x \<and> expiry_timer x = tm_id t"
    proof (cases "t = tm")
      case True
      then show ?thesis using h d by (simp add: tm_def)
    next
      case False
      then have t': "t \<in> set ?ts" using t by (simp add: ts)
      then obtain x where "heap s q = Some x" "expiry_timer x = tm_id t"
        using s h sub(1) unfolding timers_pending_def by metis
      with sub(2) [OF t'] c show ?thesis by (cases "q = p") auto
    qed
  next
    fix q x assume x: "((heap s)(p \<mapsto> d)) q = Some x"
    have "0 < expiry_timer x \<and> (\<exists>t \<in> set ts. tm_id t = expiry_timer x \<and> tm_handler t = s_client_handle_timeout_fn q)"
    proof (cases "q = p")
      case True
      then show ?thesis using x d spec(1) by (auto simp: ts tm_def)
    next
      case False
      then have "heap s q = Some x" using x by simp
      from unchanged_loop [OF s this c False] show ?thesis by (metis Un_iff set_append ts)
    qed
    then show "0 < expiry_timer x"
      and "\<exists>t \<in> set ts. tm_id t = expiry_timer x \<and> tm_handler t = s_client_handle_timeout_fn q" by auto
  qed
qed

text \<open>The state and the context found for the sender of a message, before its timer is renewed.\<close>

lemma find_client_found:
  assumes Z: "czmq_api Z" and s: "server_ok Z s"
  obtains p c s' where "find_client Z rid s = (p, s')" and "heap s' p = Some c" and "clients_ok Z s'"
    and "patterns_ok Z s'" and "timers_pending p s'" and "steady s'"
    and "client_routing_id c = rid" and "verbose s' = verbose s" and "out s' = out s"
    and "sessions_of Z s' = (sessions_of Z s)(rid \<mapsto> session_of c)" and "table_of s' = table_of s"
    and "session_of c = Option.bind (sessions_of Z s rid) id" and "patterns s' = patterns s"
    and "next_serial s' = next_serial s"
proof (cases "clients s (strhex Z rid)")
  case (Some p)
  obtain c where c: "heap s p = Some c" "hashkey c = strhex Z rid"
    by (rule server_ok_key [OF s Some])
  then have rid: "client_routing_id c = rid"
    using server_ok_client(5) [OF s c(1)] czmq_api.strhex_eq_iff [OF Z] by simp
  have ss: "sessions_of Z s rid = Some (session_of c)" by (simp add: sessions_of_def Some c(1))
  then have "sessions_of Z s = (sessions_of Z s)(rid \<mapsto> session_of c)" by (simp add: fun_upd_idem)
  moreover have "clients_ok Z s" "patterns_ok Z s" "timers_pending p s" "steady s"
    using s timers_ok_pending by (auto simp: server_ok_def)
  moreover have "find_client Z rid s = (p, s)" by (simp add: find_client_def Some)
  ultimately show ?thesis using that c(1) rid ss by auto
next
  case None
  define c :: "'a s_client_t" where "c = \<lparr>request = None, reply = fresh_reply rid, client_identifier = None,
      hashkey = strhex Z rid, client_routing_id = rid, unique_id = client_id s,
      log_prefix = take 39 (pad_left 6 (decimal (sint (client_id s))) @ [58] @ pad_right 33 (srv_log_prefix s)),
      mailbox = [], state = start_state, event = NULL_event, next_event = NULL_event,
      exception = NULL_event, expiry_timer = 0, wakeup_timer = 0, wakeup_event = NULL_event\<rparr>"
  define s' where "s' = put_client (next_ptr s) c (s\<lparr>client_id := client_id s + 1, next_ptr := next_ptr s + 1,
      clients := (clients s)(strhex Z rid \<mapsto> next_ptr s)\<rparr>)"
  have find: "find_client Z rid s = (next_ptr s, s')"
    by (simp add: find_client_def None s_client_new_def client_initialize_def engine_set_log_prefix_def Let_def s'_def c_def)
  have fresh: "heap s (next_ptr s) = None"
    using server_ok_client(2) [OF s] by (metis less_irrefl not_Some_eq)
  have ok: "context_ok Z c" by (simp add: context_ok_def at_rest_def c_def)
  have key: "hashkey c = strhex Z rid" "expiry_timer c = 0" "client_routing_id c = rid" "state c = start_state"
    by (simp_all add: c_def)
  have other: "heap s' q = (if q = next_ptr s then Some c else heap s q)" for q by (simp add: s'_def)
  have cl: "clients s' = (clients s)(strhex Z rid \<mapsto> next_ptr s)" by (simp add: s'_def)
  have rest: "loop s' = loop s" "patterns s' = patterns s" "steady s' = steady s"
    "verbose s' = verbose s" "out s' = out s" "next_ptr s' = next_ptr s + 1" "next_serial s' = next_serial s"
    by (simp_all add: s'_def steady_def)
  have "clients_ok Z s'"
    unfolding clients_ok_def other cl rest
  proof (intro conjI allI impI)
    fix k q assume "((clients s)(strhex Z rid \<mapsto> next_ptr s)) k = Some q"
    then show "\<exists>x. (if q = next_ptr s then Some c else heap s q) = Some x \<and> hashkey x = k"
      using server_ok_key [OF s, of k q] fresh key by (cases "k = strhex Z rid") fastforce+
  next
    fix q x assume x: "(if q = next_ptr s then Some c else heap s q) = Some x"
    show "context_ok Z x" and "q < next_ptr s + 1"
      using x ok server_ok_client(2,3) [OF s] by (auto split: if_splits intro: less_SucI)
    show "((clients s)(strhex Z rid \<mapsto> next_ptr s)) (hashkey x) = Some q"
      using x key None server_ok_client(1) [OF s, of q x] by (auto split: if_splits)
  qed
  moreover have "patterns_ok Z s'"
    using s fresh unfolding server_ok_def patterns_ok_def other rest by (metis option.distinct(1))
  moreover have "timers_pending (next_ptr s) s'"
  proof -
    have t: "timers_ok s" using s by (simp add: server_ok_def)
    have live: "q \<noteq> next_ptr s" if "heap s q = Some x" for q x using that fresh by auto
    show ?thesis
      unfolding timers_pending_def other rest
    proof (intro conjI ballI allI impI)
      fix tm q assume "tm \<in> set (loop s)" "tm_handler tm = s_client_handle_timeout_fn q"
      from client_of_timer [OF t this] live
      show "\<exists>x. (if q = next_ptr s then Some c else heap s q) = Some x \<and> expiry_timer x = tm_id tm" by metis
    next
      fix q x assume x: "(if q = next_ptr s then Some c else heap s q) = Some x"
      show "q = next_ptr s \<and> expiry_timer x = 0 \<or> 0 < expiry_timer x \<and> (\<exists>t \<in> set (loop s).
          tm_id t = expiry_timer x \<and> tm_handler t = s_client_handle_timeout_fn q)"
        using x key(2) timer_of_client [OF t, of q x] by (cases "q = next_ptr s") auto
    qed (use t in \<open>auto simp: timers_ok_def\<close>)
  qed
  moreover have "sessions_of Z s' = (sessions_of Z s)(rid \<mapsto> session_of c)"
  proof
    fix r
    show "sessions_of Z s' r = ((sessions_of Z s)(rid \<mapsto> session_of c)) r"
    proof (cases "r = rid")
      case True
      then show ?thesis by (simp add: sessions_of_def cl other)
    next
      case False
      then have "strhex Z r \<noteq> strhex Z rid" using czmq_api.strhex_eq_iff [OF Z] by simp
      moreover have "clients s (strhex Z r) \<noteq> Some (next_ptr s)"
        using fresh by (metis server_ok_key [OF s] option.distinct(1))
      ultimately show ?thesis using False
        by (cases "clients s (strhex Z r)") (auto simp: sessions_of_def cl other)
    qed
  qed
  moreover have "table_of s' = table_of s"
    using live_client [OF s] fresh by (auto simp: table_of_def rest rid_of_def other) (metis option.distinct(1))
  moreover have "session_of c = Option.bind (sessions_of Z s rid) id"
    by (simp add: session_of_def key sessions_of_def None)
  ultimately show ?thesis
    using that [OF find, of c] s other [of "next_ptr s"] key(3) rest by (simp add: server_ok_def)
qed

lemma event_is_valid_all [simp]: "event_is_valid st"
  by (cases st) (simp_all add: event_is_valid_def)

lemma protocol_event_not_null [simp]: "s_protocol_event m \<noteq> NULL_event"
  by (simp add: s_protocol_event_def)

text \<open>
  A message is accepted: what remains of the callback is the execution of the event of the message,
  by a client that is at rest, in a state that satisfies the invariant.
\<close>

lemma accept:
  assumes Z: "czmq_api Z" and s: "server_ok Z s"
    and recv: "zccp_msg_recv (hash Z) True input = Some msg" and rid: "routing_id msg = Some rid"
  obtains p c s1 where "\<And>n. s_server_client_message Z n input s =
      rbind (s_client_execute Z n p (s_protocol_event msg) s1) (\<lambda>s. Inr (0, s))"
    and "server_ok Z s1" and "heap s1 p = Some c" and "client_routing_id c = rid"
    and "request c = Some (next_serial s, msg)" and "verbose s1 = verbose s" and "out s1 = out s"
    and "broker_of Z s1 = (broker_of Z s)\<lparr>sessions := (sessions (broker_of Z s))(rid \<mapsto> session_of c)\<rparr>"
    and "session_of c = Option.bind (sessions (broker_of Z s) rid) id" and "patterns s1 = patterns s"
proof -
  obtain p c s' where f: "find_client Z rid s = (p, s')" "heap s' p = Some c" "clients_ok Z s'"
    "patterns_ok Z s'" "timers_pending p s'" "steady s'"
    "client_routing_id c = rid" "verbose s' = verbose s" "out s' = out s"
    "sessions_of Z s' = (sessions_of Z s)(rid \<mapsto> session_of c)" "table_of s' = table_of s"
    "session_of c = Option.bind (sessions_of Z s rid) id" "patterns s' = patterns s"
    "next_serial s' = next_serial s"
    by (rule find_client_found [OF Z s])
  obtain i ts where t: "zloop_timer Z (timeout s') 1 (s_client_handle_timeout_fn p)
      (end_timer (expiry_timer c) (loop s')) = (i, ts)"
    by (cases "zloop_timer Z (timeout s') 1 (s_client_handle_timeout_fn p) (end_timer (expiry_timer c) (loop s'))")
  define d where "d = c\<lparr>expiry_timer := i, request := Some (next_serial s, msg)\<rparr>"
  define s1 where "s1 = put_client p d (s'\<lparr>loop := ts, next_serial := next_serial s + 1\<rparr>)"
  have rest_c: "at_rest c" "context_ok Z c" using f(2,3) by (auto simp: clients_ok_def context_ok_def)
  then have mb: "mailbox c = []" by (simp add: at_rest_def)
  have d: "context_ok Z d" "hashkey d = hashkey c" "state d = state c" "client_routing_id d = client_routing_id c"
      "session_of d = session_of c"
    using rest_c by (simp_all add: d_def context_ok_def at_rest_def session_of_def)
  have step: "s_server_client_message Z n input s =
      rbind (s_client_execute Z n p (s_protocol_event msg) s1) (\<lambda>s. Inr (0, s))" for n
  proof -
    have dd: "c\<lparr>expiry_timer := i, mailbox := [], request := Some (next_serial s, msg)\<rparr> = d"
      using mb by (cases c) (simp add: d_def)
    show ?thesis
      using f(2) t mb
      by (simp add: s_server_client_message_def recv zccp_msg_routing_id_def rid f(1,14) Let_def
          s_client_filter_mailbox_def dd s1_def)
  qed
  have h: "heap s1 q = (if q = p then Some d else heap s' q)" for q by (simp add: s1_def)
  have v: "clients s1 = clients s'" "patterns s1 = patterns s'" "next_ptr s1 = next_ptr s'"
      "steady s1 = steady s'"
    by (simp_all add: s1_def steady_def)
  have "clients_ok Z s1"
    unfolding clients_ok_def v
  proof (intro conjI allI impI)
    fix k q assume "clients s' k = Some q"
    then obtain x where "heap s' q = Some x" "hashkey x = k" using f(3) by (auto simp: clients_ok_def)
    then show "\<exists>x. heap s1 q = Some x \<and> hashkey x = k" using f(2) d(2) by (auto simp: h)
  next
    fix q x assume "heap s1 q = Some x"
    then obtain y where "heap s' q = Some y" "hashkey x = hashkey y" "context_ok Z x"
      using f(2,3) d(1,2) by (auto simp: h clients_ok_def split: if_splits)
    then show "clients s' (hashkey x) = Some q" "q < next_ptr s'" "context_ok Z x"
      using f(3) by (auto simp: clients_ok_def)
  qed
  moreover have "patterns_ok Z s1"
    using f(2,4) d(3) unfolding patterns_ok_def v h by fastforce
  moreover have "timers_ok s1"
    unfolding s1_def by (rule renew_timer [OF Z f(5,2) t]) (simp add: d_def)
  ultimately have ok: "server_ok Z s1" using f(6) by (simp add: server_ok_def v)
  have "sessions_of Z s1 = sessions_of Z s'"
  proof
    fix r show "sessions_of Z s1 r = sessions_of Z s' r"
      using f(2) d(5) by (cases "clients s' (strhex Z r)") (auto simp: sessions_of_def v h)
  qed
  moreover have "table_of s1 = table_of s'"
    using f(2) d(4) by (simp add: table_of_def v rid_of_def h)
  ultimately have "broker_of Z s1 =
      (broker_of Z s)\<lparr>sessions := (sessions (broker_of Z s))(rid \<mapsto> session_of c)\<rparr>"
    using f(10,11) by (simp add: broker_of_def)
  with ok step show ?thesis
    using that [of p s1 d] h [of p] d f by (simp add: s1_def d_def broker_of_def session_of_def)
qed

end
