(* ===== verification/Server_Refine.thy ===== *)
theory Server_Refine
  imports Server_Spec
begin

text \<open>
  The broker implements its specification: from a state that satisfies the invariant, a command from a
  peer leads to a state that satisfies it, with the effect on sessions and subscriptions and with the
  messages that \<open>broker_step\<close> prescribes.
\<close>

definition implements :: "('h, 'r) czmq \<Rightarrow> ('h, 'r, 'c) s_server_t \<Rightarrow> ('h, 'r, 'c) s_server_t result
    \<Rightarrow> (broker \<times> (frame \<times> command) list) result \<Rightarrow> bool" where
  "implements Z s res spec = (case spec of
     Inl e \<Rightarrow> res = Inl e
   | Inr (B, outs) \<Rightarrow> \<exists>s' wires. res = Inr s' \<and> server_ok Z s' \<and> verbose s' = verbose s \<and> broker_of Z s' = B
       \<and> out s' = out s @ wires \<and> list_all2 (carries Z) outs wires)"

lemma implementsI:
  assumes "res = Inr s'" and "server_ok Z s'" and "verbose s' = verbose s" and "broker_of Z s' = B"
    and "out s' = out s @ wires" and "list_all2 (carries Z) outs wires"
  shows "implements Z s res (Inr (B, outs))"
  using assms by (auto simp: implements_def)

section \<open>Replies\<close>

lemma reply_carries:
  assumes "czmq_api Z" and "i \<in> {ZCCP_MSG_HELLO_OK, ZCCP_MSG_SUBSCRIBE_OK, ZCCP_MSG_GOODBYE_OK, ZCCP_MSG_INVALID}"
  obtains wire where "reply_wire Z i rid = Inr wire"
    and "carries Z (rid, the (command_of (hash Z) (zccp_msg_new i))) wire"
proof -
  have H: "zhash_api (hash Z)" using assms(1) by (simp add: czmq_api_def)
  have "stands_for Z (zccp_msg_encode Z (zccp_msg_new i)) (the (command_of (hash Z) (zccp_msg_new i)))"
    by (rule stands_for_encode [OF H])
      (use assms(2) in \<open>auto simp: fields_fit_def opt_fits_def dict_fits_def entries_of_def
        command_of_def msg_ok_def zccp_msg_new_def\<close>)
  then obtain msg where msg: "zccp_msg_encode Z (zccp_msg_new i) = Inr msg"
      "stands_for Z (Inr msg) (the (command_of (hash Z) (zccp_msg_new i)))"
    by (auto simp: stands_for_def)
  have "(zccp_msg_set_id (fresh_reply rid) i)\<lparr>routing_id := None\<rparr> = (zccp_msg_new i :: 'a zccp_msg)"
    by (simp add: zccp_msg_set_id_def fresh_reply_def zccp_msg_set_routing_id_def zccp_msg_new_def)
  moreover have "routing_id (zccp_msg_set_id (fresh_reply rid) i :: 'a zccp_msg) = Some rid"
    by (simp add: zccp_msg_set_id_def fresh_reply_def zccp_msg_set_routing_id_def)
  ultimately have "reply_wire Z i rid = Inr (rid # msg)"
    using msg(1) by (simp add: zccp_msg_send_def)
  with msg(2) that show ?thesis by (simp add: carries_def)
qed

lemma reply_commands [simp]:
  "command_of H (zccp_msg_new 2) = Some (Hello_ok Map.empty)"
  "command_of H (zccp_msg_new 4) = Some Subscribe_ok"
  "command_of H (zccp_msg_new 9) = Some (Goodbye_ok Map.empty)"
  "command_of H (zccp_msg_new 12) = Some Invalid"
  by (simp_all add: command_of_def zccp_msg_new_def)

section \<open>Received messages\<close>

text \<open>The event of a command.\<close>

fun command_event :: "command \<Rightarrow> event_t" where
  "command_event (Hello i hs) = hello_event"
| "command_event (Subscribe e hs) = subscribe_event"
| "command_event (Publish a hs ms) = publish_event"
| "command_event (Direct a hs ms) = direct_event"
| "command_event Goodbye = goodbye_event"
| "command_event _ = terminate_event"

lemma protocol_event_command:
  "command_of H m = Some cmd \<Longrightarrow> s_protocol_event m = command_event cmd"
  by (cases cmd) (auto dest!: command_id simp: s_protocol_event_def zccp_msg_id_def)

section \<open>The cases of the state machine\<close>

lemma parting:
  assumes Z: "czmq_api Z" and s: "server_ok Z s" and quiet: "traceable s ev" and c: "heap s p = Some c"
    and i: "parting_reply (state c) ev = Some i" "i = ZCCP_MSG_GOODBYE_OK \<or> i = ZCCP_MSG_INVALID"
    and ev: "ev \<noteq> NULL_event"
  shows "implements Z s (s_client_execute Z (Suc n) p ev s)
    (Inr (leave (client_routing_id c) (broker_of Z s),
       [(client_routing_id c, the (command_of (hash Z) (zccp_msg_new i)))]))"
proof -
  obtain wire where w: "reply_wire Z i (client_routing_id c) = Inr wire"
      "carries Z (client_routing_id c, the (command_of (hash Z) (zccp_msg_new i))) wire"
    by (rule reply_carries [OF Z, of i]) (use i in auto)
  show ?thesis
  proof (rule implementsI)
    show "s_client_execute Z (Suc n) p ev s = Inr ((without_client p s)\<lparr>out := out s @ [wire]\<rparr>)"
      by (rule execute_parting [OF c server_ok_client(4) [OF s c] quiet server_ok_client(1) [OF s c] i(1) ev w(1)])
    show "server_ok Z ((without_client p s)\<lparr>out := out s @ [wire]\<rparr>)"
      using without_client_ok [OF s c] by simp
    show "broker_of Z ((without_client p s)\<lparr>out := out s @ [wire]\<rparr>) = leave (client_routing_id c) (broker_of Z s)"
      using without_client_broker [OF Z s c] by simp
  qed (use w(2) without_client_fields(5) [OF c] in auto)
qed

lemma parting_goodbye:
  assumes "czmq_api Z" and "server_ok Z s" and "heap s p = Some c"
  shows "implements Z s (s_client_execute Z (Suc n) p goodbye_event s)
    (Inr (leave (client_routing_id c) (broker_of Z s), [(client_routing_id c, Goodbye_ok Map.empty)]))"
  using parting [OF assms(1,2) _ assms(3), of goodbye_event ZCCP_MSG_GOODBYE_OK n] by (cases "state c") simp_all

lemma parting_invalid:
  assumes "czmq_api Z" and "server_ok Z s" and "traceable s ev" and "heap s p = Some c"
    and "parting_reply (state c) ev = Some ZCCP_MSG_INVALID" and "ev \<noteq> NULL_event"
  shows "implements Z s (s_client_execute Z (Suc n) p ev s)
    (Inr (leave (client_routing_id c) (broker_of Z s), [(client_routing_id c, Invalid)]))"
  using parting [OF assms(1-5), of n] assms(6) by simp

text \<open>A greeting.\<close>

lemma greeting:
  assumes Z: "czmq_api Z" and s: "server_ok Z s" and c: "heap s p = Some c"
    and start: "state c = start_state" and req: "request c = Some (k, m)" "identifier_field m = Some i"
    and fits: "sized_fits 1 i"
  shows "implements Z s (s_client_execute Z (Suc (Suc n)) p hello_event s)
    (Inr ((broker_of Z s)\<lparr>sessions := (sessions (broker_of Z s))(client_routing_id c \<mapsto> Some i)\<rparr>,
       [(client_routing_id c, Hello_ok Map.empty)]))"
proof -
  obtain wire where w: "reply_wire Z ZCCP_MSG_HELLO_OK (client_routing_id c) = Inr wire"
      "carries Z (client_routing_id c, the (command_of (hash Z) (zccp_msg_new ZCCP_MSG_HELLO_OK))) wire"
    by (rule reply_carries [OF Z, of ZCCP_MSG_HELLO_OK]) auto
  define d where "d = (after_event hello_event c)\<lparr>client_identifier := Some i,
      reply := fresh_reply (client_routing_id c), state := connected_state\<rparr>"
  have d: "context_ok Z d" "session_of d = Some i" "hashkey d = hashkey c" "expiry_timer d = expiry_timer c"
      "client_routing_id d = client_routing_id c"
    using server_ok_client(3) [OF s c] fits
    by (simp_all add: d_def context_ok_def at_rest_def session_of_def)
  show ?thesis
  proof (rule implementsI)
    show "s_client_execute Z (Suc (Suc n)) p hello_event s = Inr (put_client p d s\<lparr>out := out s @ [wire]\<rparr>)"
      using execute_hello [OF c server_ok_client(4) [OF s c] start req(1) _ w(1)] req(2)
      by (simp add: zccp_msg_identifier_def d_def)
    show "server_ok Z (put_client p d s\<lparr>out := out s @ [wire]\<rparr>)"
      using update_client_ok [OF s c d(1,3,4)] start by simp
    show "broker_of Z (put_client p d s\<lparr>out := out s @ [wire]\<rparr>)
        = (broker_of Z s)\<lparr>sessions := (sessions (broker_of Z s))(client_routing_id c \<mapsto> Some i)\<rparr>"
      using update_client_broker [OF Z s c d(5)] d(2) by simp
  qed (use w(2) in auto)
qed

text \<open>A client at rest after an event that only concerns itself.\<close>

lemma settled_ok:
  assumes "server_ok Z s" and "heap s p = Some c"
  shows "context_ok Z (settled ev c)" and "session_of (settled ev c) = session_of c"
  using server_ok_client(3) [OF assms] by (simp_all add: settled_def context_ok_def at_rest_def session_of_def)

lemma settle:
  assumes Z: "czmq_api Z" and s: "server_ok Z s" and c: "heap s p = Some c"
    and session: "sessions (broker_of Z s) (client_routing_id c) = Some (session_of c)"
  shows "server_ok Z (put_client p (settled ev c) s)" and "broker_of Z (put_client p (settled ev c) s) = broker_of Z s"
proof -
  show "server_ok Z (put_client p (settled ev c) s)"
    by (rule update_client_ok [OF s c settled_ok(1) [OF s c]]) (simp_all add: settled_def)
  have "broker_of Z (put_client p (settled ev c) s) = (broker_of Z s)\<lparr>sessions :=
      (sessions (broker_of Z s))(client_routing_id c \<mapsto> session_of c)\<rparr>"
    using update_client_broker [OF Z s c, of "settled ev c"] settled_ok(2) [OF s c] by (simp add: settled_def)
  then show "broker_of Z (put_client p (settled ev c) s) = broker_of Z s"
    using session by (simp add: fun_upd_idem)
qed

lemma session_of_live:
  assumes "server_ok Z s" and "heap s p = Some c"
  shows "sessions (broker_of Z s) (client_routing_id c) = Some (session_of c)"
  using server_ok_client(1,5) [OF assms] assms(2) by (simp add: broker_of_def sessions_of_def)

text \<open>A subscription.\<close>

lemma subscription:
  assumes Z: "czmq_api Z" and s: "server_ok Z s" and c: "heap s p = Some c"
    and connected: "state c = connected_state" and req: "request c = Some (k, m)" "expression m = Some e"
  shows "implements Z s (s_client_execute Z (Suc (Suc n)) p subscribe_event s)
    (Inr ((broker_of Z s)\<lparr>table := subscribe_table e (client_routing_id c) (table (broker_of Z s))\<rparr>,
       [(client_routing_id c, Subscribe_ok)]))"
proof -
  obtain wire where w: "reply_wire Z ZCCP_MSG_SUBSCRIBE_OK (client_routing_id c) = Inr wire"
      "carries Z (client_routing_id c, the (command_of (hash Z) (zccp_msg_new ZCCP_MSG_SUBSCRIBE_OK))) wire"
    by (rule reply_carries [OF Z, of ZCCP_MSG_SUBSCRIBE_OK]) auto
  let ?s = "s\<lparr>patterns := subscribed Z e p (patterns s)\<rparr>"
  have ok: "server_ok Z ?s" "heap ?s p = Some c" using subscribe_ok [OF s c connected] c by simp_all
  note set = settle [OF Z ok session_of_live [OF ok], of subscribe_event]
  show ?thesis
  proof (rule implementsI)
    show "s_client_execute Z (Suc (Suc n)) p subscribe_event s =
        Inr (put_client p (settled subscribe_event c) (?s\<lparr>out := out s @ [wire]\<rparr>\<lparr>walks := walks s + 1\<rparr>))"
      using execute_subscribe [OF c server_ok_client(4) [OF s c] connected req(1) _ w(1)] req(2)
      by (simp add: zccp_msg_expression_def)
        (rule arg_cong [where f = "put_client p (settled subscribe_event c)"], rule s_server_t.equality, simp_all)
    show "broker_of Z (put_client p (settled subscribe_event c) (?s\<lparr>out := out s @ [wire]\<rparr>\<lparr>walks := walks s + 1\<rparr>))
        = (broker_of Z s)\<lparr>table := subscribe_table e (client_routing_id c) (table (broker_of Z s))\<rparr>"
      using set(2) subscribe_broker [OF s c] by simp
  qed (use w(2) set(1) in auto)
qed

text \<open>A direct message has no effect.\<close>

lemma direct:
  assumes Z: "czmq_api Z" and s: "server_ok Z s" and c: "heap s p = Some c"
    and connected: "state c = connected_state"
  shows "implements Z s (s_client_execute Z (Suc (Suc n)) p direct_event s) (Inr (broker_of Z s, []))"
proof -
  have e: "after_event direct_event c = settled direct_event c"
    using server_ok_client(4) [OF s c] by (cases c) (simp add: settled_def after_event_def at_rest_def)
  show ?thesis
    by (rule implementsI [OF execute_direct [OF c server_ok_client(4) [OF s c] connected, unfolded e]])
      (use settle [OF Z s c session_of_live [OF s c]] in auto)
qed

text \<open>A publication.\<close>

lemma begun_ok:
  assumes Z: "czmq_api Z" and s: "server_ok Z s" and c: "heap s p = Some c"
  shows "server_ok Z (publish_begun p c k m s)" and "broker_of Z (publish_begun p c k m s) = broker_of Z s"
proof -
  have e: "after_event publish_event c = settled publish_event c"
    using server_ok_client(4) [OF s c] by (cases c) (simp add: settled_def after_event_def at_rest_def)
  have eq: "publish_begun p c k m s = ((((put_client p (settled publish_event c) s)
      \<lparr>srv_sender := Some \<lparr>owner = p, token = None, pointee = client_identifier c\<rparr>\<rparr>)
      \<lparr>srv_address := Some \<lparr>owner = p, token = Some k, pointee = zccp_msg_address m\<rparr>\<rparr>)
      \<lparr>srv_content := Some \<lparr>owner = p, token = Some k, pointee = zccp_msg_content m\<rparr>\<rparr>)\<lparr>walks := walks s + 1\<rparr>"
    by (simp add: publish_begun_def e)
  show "server_ok Z (publish_begun p c k m s)" and "broker_of Z (publish_begun p c k m s) = broker_of Z s"
    unfolding eq using settle [OF Z s c session_of_live [OF s c], of publish_event]
    by (simp_all only: server_ok_irrelevant broker_of_irrelevant)
qed

lemma publication:
  assumes Z: "czmq_api Z" and s: "server_ok Z s" and c: "heap s p = Some c"
    and connected: "state c = connected_state" and req: "request c = Some (k, m)" "address m = Some a"
      "content m = Some ms" and fits: "sized_fits 1 a" and who: "client_identifier c = Some ident"
  shows "implements Z s (s_client_execute Z (Suc (Suc (Suc n))) p publish_event s)
    (if recipients Z (broker_of Z s) (client_routing_id c) a = [] then Inr (broker_of Z s, [])
     else rbind (of_option Format_undefined (vprintf Z ident)) (\<lambda>i.
          rbind (of_option Format_undefined (vprintf Z a)) (\<lambda>a'.
          Inr (broker_of Z s, map (\<lambda>q. (q, Deliver i a' Map.empty ms))
                                (recipients Z (broker_of Z s) (client_routing_id c) a)))))"
proof -
  note rec = recipients_of [OF s c, of a]
  note subs = server_ok_subscriber [OF s]
  note pub = begun_ok [OF Z s c]
  have addr: "zccp_msg_address m = Some a" "zccp_msg_content m = Some ms"
    using req by (simp_all add: zccp_msg_address_def zccp_msg_content_def)
  have hs: "srv_headers s = None" using s by (simp add: server_ok_def steady_def)
  have idfits: "sized_fits 1 ident"
    using server_ok_client(3) [OF s c] connected who by (auto simp: context_ok_def)
  note run = server_ok_client(4) [OF s c] connected req(1) addr(1)
  show ?thesis
  proof (cases "vprintf Z ident = None \<or> vprintf Z a = None")
    case True
    have "s_client_execute Z (Suc (Suc (Suc n))) p publish_event s =
        (if recipients_for Z a p (patterns s) = [] then Inr (publish_begun p c k m s) else Inl Format_undefined)"
      by (rule execute_publish_undefined [OF c run])
        (use subs delivery_undefined [OF True] in \<open>auto simp: who\<close>)
    then have x: "s_client_execute Z (Suc (Suc (Suc n))) p publish_event s =
        (if recipients Z (broker_of Z s) (client_routing_id c) a = [] then Inr (publish_begun p c k m s)
         else Inl Format_undefined)"
      by (simp add: rec [symmetric])
    show ?thesis
    proof (cases "recipients Z (broker_of Z s) (client_routing_id c) a = []")
      case nil: True
      have "implements Z s (s_client_execute Z (Suc (Suc (Suc n))) p publish_event s) (Inr (broker_of Z s, []))"
        by (rule implementsI [where s' = "publish_begun p c k m s" and wires = "[]"])
          (use x nil pub in auto)
      then show ?thesis by (simp add: nil)
    next
      case False
      then show ?thesis using x True
        by (cases "vprintf Z ident"; cases "vprintf Z a") (simp_all add: implements_def)
    qed
  next
    case False
    then obtain i a' where v: "vprintf Z ident = Some i" "vprintf Z a = Some a'" by auto
    obtain body where body: "\<And>rid. delivery_wire Z rid (Some ident) (Some a) None (Some ms) = Inr (rid # body)"
        "stands_for Z (Inr body) (Deliver i a' Map.empty (frames_of (Some ms)))"
      using delivery_defined [OF Z v idfits fits] by blast
    have "\<exists>s'. s_client_execute Z (Suc (Suc (Suc n))) p publish_event s = Inr s'
        \<and> core s' = core (publish_begun p c k m s)
        \<and> out s' = out s @ map (\<lambda>q. rid_of s q # body) (recipients_for Z a p (patterns s))"
      by (rule execute_publish [OF c run]) (use subs body(1) in \<open>auto simp: who hs addr(2)\<close>)
    then obtain s' where s': "s_client_execute Z (Suc (Suc (Suc n))) p publish_event s = Inr s'"
        "core s' = core (publish_begun p c k m s)"
        "out s' = out s @ map (\<lambda>q. rid_of s q # body) (recipients_for Z a p (patterns s))"
      by blast
    have ok: "server_ok Z s'" "broker_of Z s' = broker_of Z s" "verbose s' = verbose s"
      using same_core_ok [OF s'(2)] same_core(3) [OF s'(2)] pub by auto
    have o: "out s' = out s @ map (\<lambda>r. r # body) (recipients Z (broker_of Z s) (client_routing_id c) a)"
      by (simp add: s'(3) rec [symmetric] o_def)
    have "list_all2 (carries Z) (map (\<lambda>q. (q, Deliver i a' Map.empty ms)) rs) (map (\<lambda>r. r # body) rs)" for rs
      using body(2) by (induction rs) (auto simp: carries_def)
    then have "implements Z s (s_client_execute Z (Suc (Suc (Suc n))) p publish_event s)
        (Inr (broker_of Z s, map (\<lambda>q. (q, Deliver i a' Map.empty ms))
           (recipients Z (broker_of Z s) (client_routing_id c) a)))"
      by (intro implementsI [OF s'(1) ok(1,3,2) o])
    then show ?thesis
      by (cases "recipients Z (broker_of Z s) (client_routing_id c) a = []") (simp_all add: v)
  qed
qed

section \<open>The callback for client messages\<close>

lemma execute_implements:
  assumes Z: "czmq_api Z" and s: "server_ok Z s" and quiet: "traceable s (s_protocol_event m)" and c: "heap s p = Some c"
    and req: "request c = Some (k, m)" and m: "complete m" "fields_fit (hash Z) m"
    and cmd: "command_of (hash Z) m = Some cmd"
  shows "implements Z s (s_client_execute Z (Suc (Suc (Suc n))) p (s_protocol_event m) s)
    (broker_step Z (broker_of Z s) (client_routing_id c) cmd)"
proof (cases "state c")
  case start_state
  then have "sessions (broker_of Z s) (client_routing_id c) = Some None"
    using session_of_live [OF s c] by (simp add: session_of_def)
  then show ?thesis
    using command_id [of "hash Z" m] cmd m quiet
    by (cases cmd) (auto simp: protocol_event_command [OF cmd] broker_step_def start_state complete_def
      fields_fit_def opt_fits_def simp del: One_nat_def intro!: parting_goodbye [OF Z s c]
      parting_invalid [OF Z s _ c] greeting [OF Z s c start_state req])
next
  case connected_state
  then obtain ident where ident: "client_identifier c = Some ident"
    using server_ok_client(3) [OF s c] by (auto simp: context_ok_def)
  then have "sessions (broker_of Z s) (client_routing_id c) = Some (Some ident)"
    using session_of_live [OF s c] connected_state by (simp add: session_of_def)
  then show ?thesis
    using command_id [of "hash Z" m] cmd m quiet
      publication [OF Z s c connected_state req _ _ _ ident, of "text_of (address m)" "frames_of (content m)" n]
    by (cases cmd) (auto simp: protocol_event_command [OF cmd] broker_step_def connected_state complete_def
      fields_fit_def opt_fits_def simp del: One_nat_def intro!: parting_goodbye [OF Z s c]
      parting_invalid [OF Z s _ c] subscription [OF Z s c connected_state req]
      direct [OF Z s c connected_state])
next
  case external_state
  then show ?thesis using server_ok_client(3) [OF s c] by (simp add: context_ok_def)
qed

text \<open>A peer without session and a peer that was not greeted yet are treated alike.\<close>

lemma broker_step_open:
  assumes "Option.bind (sessions B r) id = None"
  shows "broker_step Z (B\<lparr>sessions := (sessions B)(r \<mapsto> None)\<rparr>) r cmd = broker_step Z B r cmd"
proof -
  have "sessions B r = None \<or> sessions B r = Some None" using assms by (cases "sessions B r") auto
  then show ?thesis
    by (elim disjE; cases cmd) (simp_all add: broker_step_def leave_def)
qed

lemma implements_out:
  "out s1 = out s \<Longrightarrow> verbose s1 = verbose s \<Longrightarrow> implements Z s1 res spec \<Longrightarrow> implements Z s res spec"
  by (auto simp: implements_def split: sum.splits prod.splits)

text \<open>
  The result of the callback for a message that \<open>zccp_msg_recv\<close> accepts.  A verbose server reads its
  table of event names out of bounds when a client sends a command that only servers send.
\<close>

lemma overrun:
  assumes s: "server_ok Z s" and c: "heap s p = Some c" and v: "verbose s"
  shows "s_client_execute Z (Suc n) p terminate_event s = Inl Name_table_overrun"
proof -
  have "s_client_turn Z send p (put_client p (c\<lparr>next_event := terminate_event\<rparr>) s) = Inl Name_table_overrun" for send
    using v by (simp add: s_client_turn_def) (simp add: trace_def)
  then show ?thesis
    by (simp add: s_client_execute_def enter_at_rest [OF c server_ok_client(4) [OF s c]] s_client_loop_Suc)
qed

lemma client_message:
  assumes Z: "czmq_api Z" and s: "server_ok Z s" and n: "3 \<le> n"
    and recv: "zccp_msg_recv (hash Z) True input = Some msg"
    and r: "routing_id msg = Some r" and cmd: "command_of (hash Z) msg = Some cmd"
  shows "\<exists>res. s_server_client_message Z n input s = rbind res (\<lambda>s. Inr (0, s)) \<and>
    (if verbose s \<and> command_event cmd = terminate_event then res = Inl Name_table_overrun
     else implements Z s res (broker_step Z (broker_of Z s) r cmd))"
proof -
  obtain k where k: "n = Suc (Suc (Suc k))" using n that [of "n - 3"] by simp
  have H: "zhash_api (hash Z)" using Z by (simp add: czmq_api_def)
  note full = recv_complete [OF H recv]
  obtain p c s1 where a: "\<And>n. s_server_client_message Z n input s =
      rbind (s_client_execute Z n p (s_protocol_event msg) s1) (\<lambda>s. Inr (0, s))"
    "server_ok Z s1" "heap s1 p = Some c" "client_routing_id c = r"
    "request c = Some (next_serial s, msg)" "verbose s1 = verbose s" "out s1 = out s"
    "broker_of Z s1 = (broker_of Z s)\<lparr>sessions := (sessions (broker_of Z s))(r \<mapsto> session_of c)\<rparr>"
    "session_of c = Option.bind (sessions (broker_of Z s) r) id" "patterns s1 = patterns s"
    using accept [OF Z s recv r] by metis
  have ev: "s_protocol_event msg = command_event cmd" by (rule protocol_event_command [OF cmd])
  show ?thesis
  proof (cases "verbose s \<and> command_event cmd = terminate_event")
    case True
    then show ?thesis using a(1) overrun [OF a(2,3)] by (simp add: a(6) ev k)
  next
    case False
    then have "traceable s1 (s_protocol_event msg)" by (auto simp: traceable_def a(6) ev)
    from execute_implements [OF Z a(2) this a(3,5) full(1,2) cmd, of k]
    have "implements Z s1 (s_client_execute Z n p (s_protocol_event msg) s1)
        (broker_step Z (broker_of Z s1) r cmd)"
      by (simp add: a(4) k)
    moreover have "broker_step Z (broker_of Z s1) r cmd = broker_step Z (broker_of Z s) r cmd"
    proof (cases "session_of c")
      case None
      then show ?thesis using a(8,9) broker_step_open [of "broker_of Z s" r Z cmd] by simp
    next
      case (Some i)
      then have "sessions (broker_of Z s) r = Some (Some i)"
        using a(9) by (cases "sessions (broker_of Z s) r") auto
      then show ?thesis by (simp add: a(8) Some fun_upd_idem)
    qed
    ultimately show ?thesis
      using a(1) False implements_out [OF a(7,6)] by auto
  qed
qed

text \<open>The callback for an expired timer.\<close>

lemma timeout_fires:
  assumes Z: "czmq_api Z" and s: "server_ok Z s" and n: "0 < n"
    and t: "t \<in> set (loop s)" "tm_handler t = s_client_handle_timeout_fn p"
  obtains c where "heap s p = Some c" and "expiry_timer c = tm_id t"
    and "s_client_handle_timeout Z n p s = Inr (0, without_client p s)"
    and "server_ok Z (without_client p s)"
    and "broker_of Z (without_client p s) = leave (client_routing_id c) (broker_of Z s)"
proof -
  obtain k where k: "n = Suc k" using n by (cases n) auto
  have "timers_ok s" using s by (simp add: server_ok_def)
  then obtain c where c: "heap s p = Some c" "expiry_timer c = tm_id t"
    by (rule client_of_timer [OF _ t])
  have "s_client_handle_timeout Z n p s = Inr (0, without_client p s)"
    by (simp add: s_client_handle_timeout_def k execute_expired [OF c(1) server_ok_client(4,1) [OF s c(1)]])
  with c that without_client_ok [OF s c(1)] without_client_broker [OF Z s c(1)] show ?thesis by blast
qed

end
