(* ===== verification/Server_Fuel.thy ===== *)
theory Server_Fuel
  imports Server_Engine
begin

text \<open>
  Fuel does not matter once there is enough: a run of the state machine that does not exhaust its fuel
  has the same result with more of it.
\<close>

definition stable :: "'a result \<Rightarrow> 'a result \<Rightarrow> bool" where
  "stable r r' \<longleftrightarrow> (r \<noteq> Inl Fuel_exhausted \<longrightarrow> r' = r)"

lemma stable_refl [simp, intro]: "stable r r"
  by (simp add: stable_def)

lemma stable_trans: "stable a b \<Longrightarrow> stable b c \<Longrightarrow> stable a c"
  by (auto simp: stable_def)

lemma stable_bind:
  assumes "stable r r'" and "\<And>x. stable (f x) (f' x)"
  shows "stable (rbind r f) (rbind r' f')"
  using assms by (cases r) (auto simp: stable_def)

lemma stable_if: "(b \<Longrightarrow> stable x x') \<Longrightarrow> (\<not> b \<Longrightarrow> stable y y') \<Longrightarrow> stable (if b then x else y) (if b then x' else y')"
  by simp

text \<open>What \<open>forward_to_subscribers\<close>, and then a turn of the loop, make of two such engines.\<close>

locale more_fuel =
  fixes send send' :: "ptr \<Rightarrow> event_t \<Rightarrow> ('h, 'r, 'c) action"
  assumes stable_send: "stable (send q ev s) (send' q ev s)"
begin

lemma stable_clients: "stable (forward_to_clients send p cs s) (forward_to_clients send' p cs s)"
  by (induction cs arbitrary: s) (auto intro!: stable_bind stable_if stable_send)

lemma stable_patterns: "stable (forward_to_patterns Z send p ps s) (forward_to_patterns Z send' p ps s)"
  by (induction ps arbitrary: s) (auto intro!: stable_bind stable_if stable_clients)

lemma stable_forward: "stable (forward_to_subscribers Z send p s) (forward_to_subscribers Z send' p s)"
  by (auto simp: forward_to_subscribers_def Let_def intro!: stable_bind stable_patterns)

lemma stable_dispatch: "stable (s_client_dispatch Z send p st ev s) (s_client_dispatch Z send' p st ev s)"
  by (cases st) (auto simp: s_client_dispatch_def in_connected_state_def unless_exception_def
      intro!: stable_bind stable_forward)

lemma stable_turn: "stable (s_client_turn Z send p s) (s_client_turn Z send' p s)"
  by (auto simp: s_client_turn_def intro!: stable_bind stable_dispatch)

end

lemma stable_loop:
  fixes s :: "('h, 'r, 'c) s_server_t"
  shows "stable (s_client_loop Z n p s) (s_client_loop Z (Suc n) p s)"
proof (induction n arbitrary: p s)
  case 0
  show ?case by (simp add: stable_def)
next
  case (Suc n)
  have "more_fuel (engine_send_event Z n) (engine_send_event Z (Suc n) :: ptr \<Rightarrow> event_t \<Rightarrow> ('h, 'r, 'c) action)"
    by unfold_locales (auto simp: engine_send_event_def s_client_execute_def intro!: stable_bind Suc.IH)
  note turn = more_fuel.stable_turn [OF this]
  show ?case
    unfolding s_client_loop_Suc [of Z n p s] s_client_loop_Suc [of Z "Suc n" p s]
    by (auto intro!: stable_bind turn Suc.IH)
qed

interpretation fuel: more_fuel "engine_send_event Z n" "engine_send_event Z (Suc n)" for Z n
  by unfold_locales (auto simp: engine_send_event_def s_client_execute_def intro!: stable_bind stable_loop)

lemma stable_execute_Suc: "stable (s_client_execute Z n p ev s) (s_client_execute Z (Suc n) p ev s)"
  using fuel.stable_send by (simp add: engine_send_event_def)

lemma stable_message_Suc: "stable (s_server_client_message Z n input s) (s_server_client_message Z (Suc n) input s)"
  by (auto simp: s_server_client_message_def Let_def split: option.split prod.split
      intro!: stable_bind stable_execute_Suc)

lemma stable_message:
  assumes "n \<le> m"
  shows "stable (s_server_client_message Z n input s) (s_server_client_message Z m input s)"
  using assms by (induction rule: dec_induct) (auto intro: stable_trans stable_message_Suc)

end
