(* ===== verification/Server_Reactor.thy ===== *)
theory Server_Reactor
  imports Server_Refine Server_Fuel
begin

text \<open>
  The broker as an actor, \<^verbatim>\<open>src/zccp_server_engine.inc\<close>: construction, configuration, the commands
  of its owner on the pipe, and the reactor that calls the handlers, as a step relation and as a run
  over a sequence of events.
\<close>

section \<open>Configuration\<close>

text \<open>
  \<open>atoi\<close> of a number that does not fit an \<open>int\<close> is undefined; the model gives the number modulo the
  width of the variable it is stored in.
\<close>

definition s_server_config_self :: "'c zenv \<Rightarrow> ('h, 'r, 'c) s_server_t \<Rightarrow> ('h, 'r, 'c) s_server_t" where
  "s_server_config_self E self =
     (let cfg = snd (config self) in
      self\<lparr>verbose := verbose self \<or> atol (zc_resolve E cfg (lit ''server/verbose'') (lit ''0'')) \<noteq> 0,
           timeout := word_of_int (atol (zc_resolve E cfg (lit ''server/timeout'') (lit ''60000'')))\<rparr>)"

definition s_server_new :: "('h, 'r) czmq \<Rightarrow> 'c zenv \<Rightarrow> 32 word \<Rightarrow> ('h, 'r, 'c) s_server_t" where
  "s_server_new Z E random =
     server_initialize (s_server_config_self E
       \<lparr>patterns = [], srv_config = 0, srv_sender = None, srv_address = None, srv_headers = None,
        srv_content = None, port = 0, clients = Map.empty, config = (0, zc_new E),
        client_id = random, timeout = 0, verbose = False, loop = [], heap = Map.empty, next_ptr = 0,
        next_serial = 1, out = [], pipe_out = [], walks = 0, endpoints = [], notices = [],
        srv_readers = [], srv_log_prefix = []\<rparr>)"

definition engine_configure :: "'c zenv \<Rightarrow> cstr \<Rightarrow> cstr option \<Rightarrow> ('h, 'r, 'c) s_server_t \<Rightarrow> ('h, 'r, 'c) s_server_t" where
  "engine_configure E path v self = self\<lparr>config := (fst (config self), zc_put E (snd (config self)) path v)\<rparr>"

text \<open>The clients are destroyed in the order in which the hash table is emptied, then the patterns.\<close>

fun destroy_clients :: "cstr list \<Rightarrow> ('h, 'r, 'c) action" where
  "destroy_clients [] s = Inr s"
| "destroy_clients (key # keys) s = rbind (zhash_delete_client key s) (destroy_clients keys)"

definition s_server_destroy :: "(cstr set \<Rightarrow> cstr list) \<Rightarrow> ('h, 'r, 'c) action" where
  "s_server_destroy order s =
     rbind (destroy_clients (order (dom (clients s))) s) (\<lambda>s. Inr (server_terminate s))"

section \<open>Commands of the owner\<close>

text \<open>
  \<open>zsock_bind\<close> of the router socket: the port, or -1 when the endpoint cannot be bound.  It may depend on
  the endpoints to which the socket is bound already.
\<close>

definition bind_router :: "'c zenv \<Rightarrow> cstr \<Rightarrow> ('h, 'r, 'c) s_server_t \<Rightarrow> int \<times> ('h, 'r, 'c) s_server_t" where
  "bind_router E endpoint self =
     (zs_bind E (endpoints self) endpoint,
      if zs_bind E (endpoints self) endpoint = -1 then self else self\<lparr>endpoints := endpoints self @ [endpoint]\<rparr>)"

text \<open>
  The sections under \<open>zccp_server\<close> of a configuration, in their order.  The port of a socket that is
  bound here is not kept.
\<close>

definition apply_section :: "'c zenv \<Rightarrow> 'c \<Rightarrow> ('h, 'r, 'c) s_server_t \<Rightarrow> ('h, 'r, 'c) s_server_t" where
  "apply_section E sec self =
     (if zc_name E sec = lit ''echo'' then self\<lparr>notices := notices self @ [zc_value E sec]\<rparr>
      else if zc_name E sec = lit ''bind'' then
        snd (bind_router E (zc_resolve E sec (lit ''endpoint'') (lit ''?'')) self)
      else self)"

definition s_server_apply_config :: "'c zenv \<Rightarrow> ('h, 'r, 'c) s_server_t \<Rightarrow> ('h, 'r, 'c) s_server_t" where
  "s_server_apply_config E self =
     s_server_config_self E
       (case zc_locate E (snd (config self)) (lit ''zccp_server'') of
          None \<Rightarrow> self
        | Some sec \<Rightarrow> fold (apply_section E) (zc_children E sec) self)"

text \<open>Every configuration object has a number of its own, from the counter of serial numbers.\<close>

definition set_config :: "'c \<Rightarrow> ('h, 'r, 'c) s_server_t \<Rightarrow> ('h, 'r, 'c) s_server_t" where
  "set_config cfg self = self\<lparr>config := (next_serial self, cfg), next_serial := next_serial self + 1\<rparr>"

definition s_server_api_message :: "'c zenv \<Rightarrow> zmsg option \<Rightarrow> ('h, 'r, 'c) s_server_t
    \<Rightarrow> (int \<times> ('h, 'r, 'c) s_server_t) result" where
  "s_server_api_message E input self =
     (case input of
        None \<Rightarrow> Inr (-1, self)
      | Some msg \<Rightarrow>
          let (m, msg) = zmsg_popstr msg in
          rbind (of_option Null_pointer m) (\<lambda>method.
          if method = lit ''VERBOSE'' then Inr (0, self\<lparr>verbose := True\<rparr>)
          else if method = lit ''$TERM'' then Inr (-1, self)
          else if method = lit ''BIND'' then
            rbind (of_option Null_pointer (fst (zmsg_popstr msg))) (\<lambda>endpoint.
            let (p, self) = bind_router E endpoint self in Inr (0, self\<lparr>port := p\<rparr>))
          else if method = lit ''PORT'' then
            Inr (0, self\<lparr>pipe_out := pipe_out self @ [[lit ''PORT'', decimal (port self)]]\<rparr>)
          else if method = lit ''CONFIGURE'' then
            rbind (of_option Null_pointer (fst (zmsg_popstr msg))) (\<lambda>config_file.
            case zc_load E config_file of
              Some cfg \<Rightarrow>
                let self = s_server_apply_config E (set_config cfg self)
                in Inr (0, self\<lparr>srv_config := fst (config self)\<rparr>)
            | None \<Rightarrow> Inr (0, set_config (zc_new E) self))
          else if method = lit ''SET'' then
            (let (p, msg) = zmsg_popstr msg; (v, msg) = zmsg_popstr msg in
             rbind (of_option Null_pointer p) (\<lambda>path.
             let self = self\<lparr>config := (fst (config self), zc_put E (snd (config self)) path v)\<rparr> in
             rbind (if path = lit ''server/animate'' then
                      rbind (of_option Null_pointer v) (\<lambda>value. Inr (self\<lparr>verbose := (atol value \<noteq> 0)\<rparr>))
                    else Inr self) (\<lambda>self.
             Inr (0, s_server_config_self E self))))
          else
            (case server_method self method msg of
               None \<Rightarrow> Inr (0, self)
             | Some reply_msg \<Rightarrow> Inr (0, self\<lparr>pipe_out := pipe_out self @ [reply_msg]\<rparr>))))"

definition s_watch_server_config :: "'c zenv \<Rightarrow> ('h, 'r, 'c) s_server_t \<Rightarrow> (int \<times> ('h, 'r, 'c) s_server_t) result" where
  "s_watch_server_config E self =
     (if zc_has_changed E (snd (config self)) then
        (case zc_reload E (snd (config self)) of
           None \<Rightarrow> Inr (0, self)
         | Some cfg \<Rightarrow>
             let self = s_server_config_self E (set_config cfg self)
             in Inr (0, self\<lparr>srv_config := fst (config self)\<rparr>))
      else Inr (0, self))"

section \<open>The reactor\<close>

text \<open>
  What the reactor may report: input on the router socket or on the pipe (\<open>None\<close>: interrupted), each
  with the environment at that time, and a timer that expires.
\<close>

datatype 'c reactor_event =
    Router_ready "zmsg option"
  | Pipe_ready "'c zenv" "zmsg option"
  | Timer_expired "'c zenv" "timer_fn timer"

definition timer_handler :: "('h, 'r) czmq \<Rightarrow> 'c zenv \<Rightarrow> nat \<Rightarrow> timer_fn \<Rightarrow> ('h, 'r, 'c) s_server_t
    \<Rightarrow> (int \<times> ('h, 'r, 'c) s_server_t) result" where
  "timer_handler Z E n h s = (case h of
      s_client_handle_timeout_fn p \<Rightarrow> s_client_handle_timeout Z n p s
    | s_client_handle_wakeup_fn p \<Rightarrow> s_client_handle_wakeup Z n p s
    | s_watch_server_config_fn \<Rightarrow> s_watch_server_config E s)"

text \<open>A timer that has run its number of times is removed after its handler returns.\<close>

definition after_timer :: "timer_fn timer \<Rightarrow> ('h, 'r, 'c) s_server_t \<Rightarrow> ('h, 'r, 'c) s_server_t" where
  "after_timer t s = (if tm_times t = 1 then s\<lparr>loop := zloop_timer_end (tm_id t) (loop s)\<rparr> else s)"

text \<open>
  Input goes to the handler that polls its socket; the other handler would read the other socket, where
  nothing waits.
\<close>

definition handle_event :: "('h, 'r) czmq \<Rightarrow> nat \<Rightarrow> 'c reactor_event \<Rightarrow> ('h, 'r, 'c) s_server_t
    \<Rightarrow> (int \<times> ('h, 'r, 'c) s_server_t) result" where
  "handle_event Z n e s = (case e of
      Router_ready input \<Rightarrow> (case map_of (srv_readers s) srv_router of
          None \<Rightarrow> Inr (0, s)
        | Some s_server_client_message_fn \<Rightarrow> s_server_client_message Z n input s
        | Some s_server_api_message_fn \<Rightarrow> Inl Blocked)
    | Pipe_ready E input \<Rightarrow> (case map_of (srv_readers s) srv_pipe of
          None \<Rightarrow> Inr (0, s)
        | Some s_server_api_message_fn \<Rightarrow> s_server_api_message E input s
        | Some s_server_client_message_fn \<Rightarrow> Inl Blocked)
    | Timer_expired E t \<Rightarrow>
        rbind (timer_handler Z E n (tm_handler t) s) (\<lambda>(rc, s). Inr (rc, after_timer t s)))"

text \<open>Only timers that are registered expire.\<close>

definition may_happen :: "'c reactor_event \<Rightarrow> ('h, 'r, 'c) s_server_t \<Rightarrow> bool" where
  "may_happen e s = (case e of Timer_expired E t \<Rightarrow> t \<in> set (loop s) | _ \<Rightarrow> True)"

fun zloop_run :: "('h, 'r) czmq \<Rightarrow> nat \<Rightarrow> 'c reactor_event list \<Rightarrow> ('h, 'r, 'c) s_server_t
    \<Rightarrow> (bool \<times> ('h, 'r, 'c) s_server_t) result" where
  "zloop_run Z n [] s = Inr (True, s)"
| "zloop_run Z n (e # es) s =
     rbind (handle_event Z n e s) (\<lambda>(rc, s). if rc = -1 then Inr (False, s) else zloop_run Z n es s)"

inductive server_step :: "('h, 'r) czmq \<Rightarrow> nat \<Rightarrow> ('h, 'r, 'c) s_server_t \<Rightarrow> ('h, 'r, 'c) s_server_t \<Rightarrow> bool"
  for Z :: "('h, 'r) czmq" and n :: nat where
  step: "may_happen e s \<Longrightarrow> handle_event Z n e s = Inr (rc, s') \<Longrightarrow> server_step Z n s s'"

inductive_cases server_step_elim: "server_step Z n s s'"

text \<open>
  \<open>zccp_server\<close>: a new server with the monitor of its configuration and the handlers of its sockets, then
  the reactor.  The argument of the actor is the prefix of its log.
\<close>

definition zccp_server_start :: "('h, 'r) czmq \<Rightarrow> 'c zenv \<Rightarrow> cstr option \<Rightarrow> 32 word
    \<Rightarrow> ('h, 'r, 'c) s_server_t result" where
  "zccp_server_start Z E args random =
     (let self = (s_server_new Z E random)\<lparr>srv_log_prefix := (case args of None \<Rightarrow> [] | Some str \<Rightarrow> str)\<rparr> in
      rbind (engine_set_monitor Z 1000 s_watch_server_config_fn self) (\<lambda>self.
      rbind (engine_handle_socket 0 srv_pipe (Some s_server_api_message_fn) self)
        (engine_handle_socket 0 srv_router (Some s_server_client_message_fn))))"

definition zccp_server :: "('h, 'r) czmq \<Rightarrow> 'c zenv \<Rightarrow> cstr option \<Rightarrow> 32 word \<Rightarrow> nat \<Rightarrow> (cstr set \<Rightarrow> cstr list)
    \<Rightarrow> 'c reactor_event list \<Rightarrow> (bool \<times> ('h, 'r, 'c) s_server_t) result" where
  "zccp_server Z E args random n order es =
     rbind (zccp_server_start Z E args random) (\<lambda>s.
     rbind (zloop_run Z n es s) (\<lambda>(running, s).
     if running then Inr (True, s)
     else rbind (s_server_destroy order s) (\<lambda>s. Inr (False, s))))"

inductive server_reachable :: "('h, 'r) czmq \<Rightarrow> nat \<Rightarrow> ('h, 'r, 'c) s_server_t \<Rightarrow> bool"
  for Z :: "('h, 'r) czmq" and n :: nat where
  init: "zccp_server_start Z E args random = Inr s \<Longrightarrow> server_reachable Z n s"
| reach: "server_reachable Z n s \<Longrightarrow> server_step Z n s s' \<Longrightarrow> server_reachable Z n s'"

section \<open>The invariant along the reactor\<close>

text \<open>The commands of the owner do not touch what the invariant and the abstraction are about.\<close>

definition same_clients :: "('h, 'r, 'c) s_server_t \<Rightarrow> ('h, 'r, 'c) s_server_t \<Rightarrow> bool" where
  "same_clients s s' \<longleftrightarrow> clients s' = clients s \<and> heap s' = heap s \<and> next_ptr s' = next_ptr s
     \<and> patterns s' = patterns s \<and> loop s' = loop s \<and> srv_headers s' = srv_headers s
     \<and> srv_readers s' = srv_readers s \<and> out s' = out s"

lemma same_clients_ok:
  assumes "same_clients s s'"
  shows "server_ok Z s' = server_ok Z s" and "broker_of Z s' = broker_of Z s"
  using assms by (simp_all add: same_clients_def ok_defs broker_of_def sessions_of_def [abs_def]
      table_of_def rid_of_def [abs_def])

lemma same_clients_refl [simp]: "same_clients s s"
  by (simp add: same_clients_def)

lemma config_self_same: "same_clients s (s_server_config_self E s)"
  by (simp add: same_clients_def s_server_config_self_def Let_def)

lemma apply_config_same: "same_clients s (s_server_apply_config E s)"
proof -
  have "same_clients s (fold (apply_section E) secs s')" if "same_clients s s'" for secs s'
    using that by (induction secs arbitrary: s')
      (simp_all add: same_clients_def apply_section_def bind_router_def)
  then show ?thesis
    by (simp add: s_server_apply_config_def same_clients_def s_server_config_self_def Let_def split: option.split)
qed

lemmas apply_config_fields [simp] = apply_config_same [unfolded same_clients_def]

lemma api_message_same:
  assumes "s_server_api_message E input s = Inr (rc, s')"
  shows "same_clients s s'"
  using assms
  by (auto simp: s_server_api_message_def same_clients_def s_server_config_self_def Let_def set_config_def
      bind_router_def server_method_def rbind_Inr_iff split: option.splits prod.splits if_splits)

lemma watch_config_same:
  assumes "s_watch_server_config E s = Inr (rc, s')"
  shows "same_clients s s'"
  using assms
  by (auto simp: s_watch_server_config_def same_clients_def s_server_config_self_def Let_def set_config_def
      split: option.splits if_splits)

lemma after_timer_gone:
  assumes "loop s = zloop_timer_end (tm_id t) ts"
  shows "after_timer t s = s"
proof -
  have "zloop_timer_end (tm_id t) (loop s) = loop s"
    by (simp add: assms zloop_timer_end_def)
  then show ?thesis by (simp add: after_timer_def)
qed

text \<open>Removing a timer that belongs to no client.\<close>

lemma after_timer_ok:
  assumes "server_ok Z s" and "\<And>p c. heap s p = Some c \<Longrightarrow> expiry_timer c \<noteq> tm_id t"
  shows "server_ok Z (after_timer t s)"
proof -
  have ok: "timers_ok s" using assms(1) by (simp add: server_ok_def)
  have "timers_ok (s\<lparr>loop := zloop_timer_end (tm_id t) (loop s)\<rparr>)"
    unfolding timers_ok_def
  proof (intro conjI allI impI)
    fix p c assume "heap (s\<lparr>loop := zloop_timer_end (tm_id t) (loop s)\<rparr>) p = Some c"
    then have c: "heap s p = Some c" by simp
    from timer_of_client [OF ok this] obtain t' where "t' \<in> set (loop s)" "tm_id t' = expiry_timer c"
        "tm_handler t' = s_client_handle_timeout_fn p" "0 < expiry_timer c" by metis
    with assms(2) [OF c] show "0 < expiry_timer c" and "\<exists>t' \<in> set (loop (s\<lparr>loop := zloop_timer_end (tm_id t) (loop s)\<rparr>)).
        tm_id t' = expiry_timer c \<and> tm_handler t' = s_client_handle_timeout_fn p"
      by auto
  qed (use ok in \<open>auto simp: timers_ok_def zloop_timer_end_ids\<close>)
  then show ?thesis
    using assms(1) by (simp add: server_ok_def clients_ok_def patterns_ok_def after_timer_def)
qed

lemma after_timer_broker [simp]: "broker_of Z (after_timer t s) = broker_of Z s"
  by (simp add: after_timer_def broker_of_def sessions_of_def [abs_def] table_of_def rid_of_def [abs_def])

lemma implements_ok:
  assumes "implements Z s res spec" and "res = Inr s'"
  shows "server_ok Z s'"
  using assms by (cases spec) (auto simp: implements_def split: prod.splits)

lemma client_message_ok:
  assumes "czmq_api Z" and "server_ok Z s" and "3 \<le> n"
    and "s_server_client_message Z n input s = Inr (rc, s')"
  shows "server_ok Z s'"
proof (cases "zccp_msg_recv (hash Z) True input")
  case None
  with assms show ?thesis by (simp add: s_server_client_message_def)
next
  case (Some msg)
  have "zhash_api (hash Z)" using assms(1) by (simp add: czmq_api_def)
  from recv_complete [OF this Some] obtain r cmd where
    r: "routing_id msg = Some r" "command_of (hash Z) msg = Some cmd" by auto
  obtain res where res: "s_server_client_message Z n input s = rbind res (\<lambda>s. Inr (0, s))"
    "if verbose s \<and> command_event cmd = terminate_event then res = Inl Name_table_overrun
     else implements Z s res (broker_step Z (broker_of Z s) r cmd)"
    using client_message [OF assms(1-3) Some r] by blast
  then have "res = Inr s'" using assms(4) by (cases res) auto
  with res(2) show ?thesis by (auto dest: implements_ok split: if_splits)
qed

lemma timer_expired_ok:
  assumes Z: "czmq_api Z" and s: "server_ok Z s" and n: "0 < n" and t: "t \<in> set (loop s)"
    and run: "timer_handler Z E n (tm_handler t) s = Inr (rc, s')"
  shows "server_ok Z (after_timer t s')"
proof -
  have ok: "timers_ok s" using s by (simp add: server_ok_def)
  have uniq: "t' = t" if "t' \<in> set (loop s)" "tm_id t' = tm_id t" for t'
    using ok t that by (auto simp: timers_ok_def distinct_map dest: inj_onD)
  show ?thesis
  proof (cases "tm_handler t")
    case (s_client_handle_timeout_fn p)
    obtain c where c: "heap s p = Some c" "expiry_timer c = tm_id t"
      "s_client_handle_timeout Z n p s = Inr (0, without_client p s)" "server_ok Z (without_client p s)"
      by (rule timeout_fires [OF Z s n t s_client_handle_timeout_fn])
    have s': "s' = without_client p s"
      using run s_client_handle_timeout_fn c(3) by (simp add: timer_handler_def)
    have "loop s' = zloop_timer_end (tm_id t) (loop s)"
      using without_client_loop [OF s c(1)] c(2) by (simp add: s')
    then have "after_timer t s' = s'" by (rule after_timer_gone)
    then show ?thesis using c(4) s' by simp
  next
    case (s_client_handle_wakeup_fn p)
    then show ?thesis using ok t by (auto simp: timers_ok_def)
  next
    case s_watch_server_config_fn
    then have same: "same_clients s s'"
      using run watch_config_same by (auto simp: timer_handler_def)
    then have "server_ok Z s'" using same_clients_ok(1) s by blast
    moreover have "expiry_timer c \<noteq> tm_id t" if c: "heap s' p = Some c" for p c
    proof
      assume e: "expiry_timer c = tm_id t"
      have "heap s p = Some c" using same c by (simp add: same_clients_def)
      then obtain t' where "t' \<in> set (loop s)" "tm_id t' = expiry_timer c"
          "tm_handler t' = s_client_handle_timeout_fn p"
        by (rule timer_of_client [OF ok])
      with uniq [of t'] e s_watch_server_config_fn show False by auto
    qed
    ultimately show ?thesis by (rule after_timer_ok)
  qed
qed

lemma dispatch:
  assumes "server_ok Z s"
  shows "handle_event Z n (Router_ready input) s = s_server_client_message Z n input s"
    and "handle_event Z n (Pipe_ready E input) s = s_server_api_message E input s"
  using assms by (simp_all add: handle_event_def server_ok_def steady_def)

lemma handle_event_ok:
  assumes Z: "czmq_api Z" and s: "server_ok Z s" and n: "3 \<le> n" and e: "may_happen e s"
    and run: "handle_event Z n e s = Inr (rc, s')"
  shows "server_ok Z s'"
proof (cases e)
  case (Router_ready input)
  then show ?thesis using run client_message_ok [OF Z s n] by (simp add: dispatch [OF s])
next
  case (Pipe_ready E input)
  then have "same_clients s s'" using run api_message_same by (simp add: dispatch [OF s])
  from same_clients_ok(1) [OF this] s show ?thesis by blast
next
  case (Timer_expired E t)
  with run obtain s1 where "timer_handler Z E n (tm_handler t) s = Inr (rc, s1)" "s' = after_timer t s1"
    by (auto simp: handle_event_def rbind_Inr_iff)
  with timer_expired_ok [OF Z s _ _ this(1)] n e Timer_expired show ?thesis by (simp add: may_happen_def)
qed

lemma start_ok:
  assumes Z: "czmq_api Z" and "zccp_server_start Z E args random = Inr s"
  shows "server_ok Z s" and "broker_of Z s = \<lparr>sessions = Map.empty, table = []\<rparr>" and "clients s = Map.empty"
    and "endpoints s = []"
proof -
  let ?s = "s_server_new Z E random :: ('a, 'b, 'c) s_server_t"
  have new: "heap ?s = Map.empty" "clients ?s = Map.empty" "patterns ?s = []" "srv_headers ?s = None"
      "loop ?s = []" "srv_readers ?s = []" "endpoints ?s = []"
    by (simp_all add: s_server_new_def server_initialize_def s_server_config_self_def Let_def)
  obtain i ts where t: "zloop_timer Z 1000 0 s_watch_server_config_fn (loop ?s) = (i, ts)"
    by (cases "zloop_timer Z 1000 0 s_watch_server_config_fn (loop ?s)")
  note spec = czmq_api.zloop_timer_spec [OF Z t]
  from assms(2) t spec(1) obtain str where s: "s = ?s\<lparr>srv_log_prefix := str, loop := ts, srv_readers := main_readers\<rparr>"
    by (auto simp: zccp_server_start_def engine_set_monitor_def engine_handle_socket_def Let_def new)
  show "server_ok Z s"
    using spec(1,3) by (simp add: s ok_defs new)
  show "broker_of Z s = \<lparr>sessions = Map.empty, table = []\<rparr>" "clients s = Map.empty" "endpoints s = []"
    by (simp_all add: s broker_of_def sessions_of_def [abs_def] table_of_def new)
qed

text \<open>The end of the server: all clients are destroyed.\<close>

lemma destroy_clients_ok:
  assumes "server_ok Z s"
  shows "\<exists>s'. destroy_clients keys s = Inr s' \<and> server_ok Z s' \<and> dom (clients s') = dom (clients s) - set keys"
  using assms
proof (induction keys arbitrary: s)
  case (Cons key keys)
  show ?case
  proof (cases "clients s key")
    case None
    then have "zhash_delete_client key s = Inr s" by (simp add: zhash_delete_client_def)
    with Cons None show ?thesis by (auto simp: domIff)
  next
    case (Some p)
    obtain c where c: "heap s p = Some c" "hashkey c = key" by (rule server_ok_key [OF Cons.prems Some])
    have "zhash_delete_client key s = Inr (without_client p s)"
      using delete_client [OF c(1)] c(2) Some by simp
    moreover have "dom (clients (without_client p s)) = dom (clients s) - {key}"
      by (simp add: without_client_fields(2) [OF c(1)] c(2))
    ultimately show ?thesis
      using Cons.IH [OF without_client_ok [OF Cons.prems c(1)]] by auto
  qed
qed simp

lemma server_destroyed:
  assumes "server_ok Z s" and "set (order (dom (clients s))) = dom (clients s)"
  shows "\<exists>s'. s_server_destroy order s = Inr s' \<and> heap s' = Map.empty \<and> clients s' = Map.empty \<and> patterns s' = []"
proof -
  obtain s1 where s1: "destroy_clients (order (dom (clients s))) s = Inr s1" "server_ok Z s1"
      "dom (clients s1) = dom (clients s) - set (order (dom (clients s)))"
    using destroy_clients_ok [OF assms(1)] by blast
  then have c: "clients s1 = Map.empty" using assms(2) by simp
  then have "heap s1 p = None" for p
    using server_ok_client(1) [OF s1(2), of p] by (cases "heap s1 p") auto
  then show ?thesis using s1(1) c by (auto simp: s_server_destroy_def server_terminate_def)
qed

lemma clients_finite:
  assumes "server_ok Z s"
  shows "finite (dom (clients s))"
proof (rule finite_subset)
  show "dom (clients s) \<subseteq> (\<lambda>p. hashkey (the (heap s p))) ` {..<next_ptr s}"
  proof
    fix k assume "k \<in> dom (clients s)"
    then obtain p where p: "clients s k = Some p" by auto
    obtain c where "heap s p = Some c" "hashkey c = k" by (rule server_ok_key [OF assms p])
    then show "k \<in> (\<lambda>p. hashkey (the (heap s p))) ` {..<next_ptr s}"
      using server_ok_client(2) [OF assms] by (intro image_eqI [of _ _ p]) auto
  qed
qed simp

end
