(* ===== verification/Server_Selftest.thy ===== *)
theory Server_Selftest
  imports Server_Reactor Codec_Selftest
begin

text \<open>
  The self test of the broker (\<open>zccp_server_test\<close> of \<^verbatim>\<open>src/zccp_server.c\<close>), as a program over the model: a
  broker that is started and told to bind, two \<open>DEALER\<close> sockets that talk to it, and every assertion of
  the test.  A message sent is handled by the broker before the test goes on, and its answers are put
  into the sockets they are addressed to; no timer expires meanwhile.  Whether the test passes is found
  by a symbolic run over the abstract broker of \<open>Server_Spec\<close>.
\<close>

section \<open>The rig\<close>

record ('h, 'r, 'c) rig =
  server :: "('h, 'r, 'c) s_server_t"
  running :: bool
  bound :: bool                                  \<comment> \<open>the router socket has an endpoint\<close>
  inbox :: "frame \<Rightarrow> zmsg list"                  \<comment> \<open>what waits in the socket of each peer\<close>

text \<open>The router sends each message to the peer that its first frame names.\<close>

definition put_out :: "zmsg list \<Rightarrow> (frame \<Rightarrow> zmsg list) \<Rightarrow> frame \<Rightarrow> zmsg list" where
  "put_out ws ib = (\<lambda>r. ib r @ map tl (filter (\<lambda>w. hd w = r) ws))"

text \<open>One event of the reactor.\<close>

definition broker_turn :: "('h, 'r) czmq \<Rightarrow> nat \<Rightarrow> 'c reactor_event \<Rightarrow> ('h, 'r, 'c) rig \<Rightarrow> ('h, 'r, 'c) rig result" where
  "broker_turn Z n e rig =
     (if running rig then
        rbind (handle_event Z n e (server rig)) (\<lambda>(rc, s).
        Inr \<lparr>server = s, running = (rc \<noteq> -1), bound = bound rig,
             inbox = put_out (drop (length (out (server rig))) (out s)) (inbox rig)\<rparr>)
      else Inr rig)"

text \<open>A message of the peer \<open>r\<close> reaches the broker when its socket is bound to an endpoint.\<close>

definition peer_send :: "('h, 'r) czmq \<Rightarrow> nat \<Rightarrow> frame \<Rightarrow> zmsg result \<Rightarrow> ('h, 'r, 'c) rig \<Rightarrow> ('h, 'r, 'c) rig result" where
  "peer_send Z n r msg rig = rbind msg (\<lambda>wire.
     if bound rig then broker_turn Z n (Router_ready (Some (r # wire))) rig else Inr rig)"

text \<open>A read of an empty socket returns \<open>NULL\<close> when a timeout is set, and blocks otherwise.\<close>

definition peer_recv :: "('h, 'r) czmq \<Rightarrow> bool \<Rightarrow> frame \<Rightarrow> ('h, 'r, 'c) rig
    \<Rightarrow> ('h zccp_msg option \<times> ('h, 'r, 'c) rig) result" where
  "peer_recv Z timed r rig = (case inbox rig r of
      [] \<Rightarrow> if timed then Inr (None, rig) else Inl Blocked
    | w # ws \<Rightarrow> Inr (zccp_msg_recv (hash Z) False (Some w), rig\<lparr>inbox := (inbox rig)(r := ws)\<rparr>))"

definition expect_message :: "('h, 'r) czmq \<Rightarrow> bool \<Rightarrow> frame \<Rightarrow> int \<Rightarrow> ('h, 'r, 'c) rig
    \<Rightarrow> ('h zccp_msg \<times> ('h, 'r, 'c) rig) result" where
  "expect_message Z timed r i rig =
     rbind (peer_recv Z timed r rig) (\<lambda>(message, rig).
     rbind (of_option Assertion_failed message) (\<lambda>message.
     rbind (c_assert (zccp_msg_id message = i)) (\<lambda>_.
     Inr (message, rig))))"

section \<open>The test\<close>

definition start_test_broker :: "('h, 'r) czmq \<Rightarrow> 'c zenv \<Rightarrow> cstr \<Rightarrow> 32 word \<Rightarrow> nat \<Rightarrow> bool \<Rightarrow> cstr
    \<Rightarrow> ('h, 'r, 'c) rig result" where
  "start_test_broker Z E args random n verb ep =
     rbind (zccp_server_start Z E (Some args) random) (\<lambda>s.
     rbind (let rig = \<lparr>server = s, running = True, bound = False, inbox = (\<lambda>_. [])\<rparr> in
            if verb then broker_turn Z n (Pipe_ready E (Some [lit ''VERBOSE''])) rig else Inr rig) (\<lambda>rig.
     rbind (broker_turn Z n (Pipe_ready E (Some [lit ''BIND'', ep])) rig) (\<lambda>rig.
     Inr (rig\<lparr>bound := (endpoints (server rig) \<noteq> [])\<rparr>))))"

text \<open>\<open>zactor_destroy\<close> of the broker: the command \<open>$TERM\<close>, and the wait for the actor to end.\<close>

definition stop_test_broker :: "('h, 'r) czmq \<Rightarrow> 'c zenv \<Rightarrow> nat \<Rightarrow> (cstr set \<Rightarrow> cstr list)
    \<Rightarrow> ('h, 'r, 'c) rig \<Rightarrow> unit result" where
  "stop_test_broker Z E n order rig =
     rbind (broker_turn Z n (Pipe_ready E (Some [lit ''$TERM''])) rig) (\<lambda>rig.
     if running rig then Inl Blocked
     else rbind (s_server_destroy order (server rig)) (\<lambda>_. Inr ()))"

definition test_greetings :: "('h, 'r) czmq \<Rightarrow> nat \<Rightarrow> frame \<Rightarrow> frame \<Rightarrow> ('h, 'r, 'c) rig \<Rightarrow> ('h, 'r, 'c) rig result" where
  "test_greetings Z n client device rig =
     rbind (peer_send Z n client (zccp_msg_send_publish Z False (Some (lit ''(HELLO, WORLD)'')) None None) rig) (\<lambda>rig.
     rbind (expect_message Z True client ZCCP_MSG_INVALID rig) (\<lambda>(_, rig).
     rbind (peer_send Z n client (zccp_msg_send_hello Z False (Some (lit ''step 1'')) None) rig) (\<lambda>rig.
     rbind (expect_message Z True client ZCCP_MSG_HELLO_OK rig) (\<lambda>(_, rig).
     rbind (peer_send Z n client (zccp_msg_send_hello Z False (Some (lit ''step 2'')) None) rig) (\<lambda>rig.
     rbind (expect_message Z True client ZCCP_MSG_INVALID rig) (\<lambda>(_, rig).
     rbind (peer_send Z n client (zccp_msg_send_hello Z False (Some (lit ''step 3 - client'')) None) rig) (\<lambda>rig.
     rbind (expect_message Z True client ZCCP_MSG_HELLO_OK rig) (\<lambda>(_, rig).
     rbind (peer_send Z n device (zccp_msg_send_hello Z False (Some (lit ''step 3 - device'')) None) rig) (\<lambda>rig.
     rbind (expect_message Z False device ZCCP_MSG_HELLO_OK rig) (\<lambda>(_, rig).
     Inr rig))))))))))"

definition test_subscriptions :: "('h, 'r) czmq \<Rightarrow> nat \<Rightarrow> frame \<Rightarrow> ('h, 'r, 'c) rig \<Rightarrow> ('h, 'r, 'c) rig result" where
  "test_subscriptions Z n client rig =
     rbind (peer_send Z n client (zccp_msg_send_subscribe Z False (Some (lit ''H.*O'')) None) rig) (\<lambda>rig.
     rbind (expect_message Z True client ZCCP_MSG_SUBSCRIBE_OK rig) (\<lambda>(_, rig).
     rbind (peer_send Z n client (zccp_msg_send_subscribe Z False (Some (lit ''H.*O'')) None) rig) (\<lambda>rig.
     rbind (expect_message Z True client ZCCP_MSG_SUBSCRIBE_OK rig) (\<lambda>(_, rig).
     rbind (peer_send Z n client (zccp_msg_send_subscribe Z False (Some (lit ''HELLO'')) None) rig) (\<lambda>rig.
     rbind (expect_message Z True client ZCCP_MSG_SUBSCRIBE_OK rig) (\<lambda>(_, rig).
     Inr rig))))))"

definition expect_test_delivery :: "('h, 'r) czmq \<Rightarrow> frame \<Rightarrow> ('h, 'r, 'c) rig \<Rightarrow> ('h, 'r, 'c) rig result" where
  "expect_test_delivery Z client rig =
     rbind (expect_message Z True client ZCCP_MSG_DELIVER rig) (\<lambda>(message, rig).
     rbind (assert_streq (zccp_msg_address message) (lit ''(HELLO, WORLD)'')) (\<lambda>_.
     rbind (of_option Null_pointer (zccp_msg_content message)) (\<lambda>content.
     rbind (assert_streq (fst (zmsg_popstr content)) (lit ''TEST'')) (\<lambda>_.
     Inr rig))))"

definition test_deliveries :: "('h, 'r) czmq \<Rightarrow> nat \<Rightarrow> frame \<Rightarrow> frame \<Rightarrow> ('h, 'r, 'c) rig \<Rightarrow> ('h, 'r, 'c) rig result" where
  "test_deliveries Z n client device rig =
     rbind (peer_send Z n device
       (zccp_msg_send_publish Z False (Some (lit ''(HELLO, WORLD)'')) None (Some [lit ''TEST''])) rig) (\<lambda>rig.
     rbind (expect_test_delivery Z client rig) (\<lambda>rig.
     rbind (expect_test_delivery Z client rig) (\<lambda>rig.
     rbind (peer_recv Z True client rig) (\<lambda>(message, rig).
     rbind (c_assert (message = None)) (\<lambda>_.
     Inr rig)))))"

definition zccp_server_test :: "('h, 'r) czmq \<Rightarrow> 'c zenv \<Rightarrow> 32 word \<Rightarrow> nat \<Rightarrow> (cstr set \<Rightarrow> cstr list)
    \<Rightarrow> frame \<Rightarrow> frame \<Rightarrow> bool \<Rightarrow> unit result" where
  "zccp_server_test Z E random n order client device verb =
     rbind (start_test_broker Z E (lit ''zccp_server_test'') random n verb (lit ''ipc://@/zccp_server'')) (\<lambda>rig.
     rbind (test_greetings Z n client device rig) (\<lambda>rig.
     rbind (test_subscriptions Z n client rig) (\<lambda>rig.
     rbind (test_deliveries Z n client device rig) (stop_test_broker Z E n order))))"

section \<open>What the rig stands for\<close>

text \<open>The broker is in the abstract state \<open>B\<close>, and the commands \<open>ib r\<close> wait in the socket of \<open>r\<close>.\<close>

definition rig_is :: "('h, 'r) czmq \<Rightarrow> broker \<Rightarrow> (frame \<Rightarrow> command list) \<Rightarrow> ('h, 'r, 'c) rig \<Rightarrow> bool" where
  "rig_is Z B ib rig \<longleftrightarrow> running rig \<and> bound rig \<and> server_ok Z (server rig)
     \<and> broker_of Z (server rig) = B
     \<and> (\<forall>r. list_all2 (\<lambda>cmd msg. stands_for Z (Inr msg) cmd) (ib r) (inbox rig r))"

text \<open>The commands that are sent to a peer.\<close>

definition for_peer :: "frame \<Rightarrow> (frame \<times> command) list \<Rightarrow> command list" where
  "for_peer r outs = map snd (filter (\<lambda>x. fst x = r) outs)"

lemma for_peer_simps [simp]:
  "for_peer r [] = []" "for_peer r ((q, cmd) # outs) = (if q = r then cmd # for_peer r outs else for_peer r outs)"
  by (simp_all add: for_peer_def)

lemma put_out_carries:
  assumes "list_all2 (carries Z) outs ws"
  shows "list_all2 (\<lambda>cmd msg. stands_for Z (Inr msg) cmd) (for_peer r outs) (map tl (filter (\<lambda>w. hd w = r) ws))"
  using assms
proof (induction outs ws rule: list_all2_induct)
  case (Cons x outs w ws)
  then show ?case by (cases x) (auto simp: carries_def)
qed simp

lemma sent_to_broker:
  assumes Z: "czmq_api Z" and n: "3 \<le> n" and rig: "rig_is Z B ib rig"
    and msg: "stands_for Z msg cmd" "command_event cmd \<noteq> terminate_event"
    and step: "broker_step Z B r cmd = Inr (B', outs)"
  shows "\<exists>rig'. peer_send Z n r msg rig = Inr rig' \<and> rig_is Z B' (\<lambda>q. ib q @ for_peer q outs) rig'"
proof -
  let ?s = "server rig"
  have s: "running rig" "bound rig" "server_ok Z ?s" "broker_of Z ?s = B"
    using rig by (simp_all add: rig_is_def)
  obtain wire m where w: "msg = Inr wire" "zccp_msg_decode (hash Z) (Some wire) = Some m"
      "command_of (hash Z) m = Some cmd"
    using msg(1) by (auto simp: stands_for_def)
  have "wire \<noteq> []" using w(2) by (auto simp: zccp_msg_decode_def)
  then have recv: "zccp_msg_recv (hash Z) True (Some (r # wire)) = Some (m\<lparr>routing_id := Some r\<rparr>)"
    using w(2) by (simp add: zccp_msg_recv_def)
  have "command_of (hash Z) (m\<lparr>routing_id := Some r\<rparr>) = command_of (hash Z) m"
    by (simp add: command_of_def)
  then have "command_of (hash Z) (m\<lparr>routing_id := Some r\<rparr>) = Some cmd" by (simp only: w(3))
  from client_message [OF Z s(3) n recv _ this, of r] msg(2) obtain res where
    res: "s_server_client_message Z n (Some (r # wire)) ?s = rbind res (\<lambda>s. Inr (0, s))"
      "implements Z ?s res (broker_step Z B r cmd)"
    by (auto simp: s(4))
  then obtain s' ws where s': "s_server_client_message Z n (Some (r # wire)) ?s = Inr (0, s')" "server_ok Z s'"
      "broker_of Z s' = B'" "out s' = out ?s @ ws" "list_all2 (carries Z) outs ws"
    by (auto simp: step implements_def)
  let ?rig' = "\<lparr>server = s', running = True, bound = True, inbox = put_out ws (inbox rig)\<rparr>"
  have "peer_send Z n r msg rig = Inr ?rig'"
    using s(1,2) s' by (simp add: peer_send_def broker_turn_def dispatch [OF s(3)] w(1))
  moreover have "rig_is Z B' (\<lambda>q. ib q @ for_peer q outs) ?rig'"
    using rig s(2) s' put_out_carries [OF s'(5)]
    by (auto simp: rig_is_def put_out_def intro!: list_all2_appendI)
  ultimately show ?thesis by blast
qed

lemma received_by_peer:
  assumes Z: "czmq_api Z" and rig: "rig_is Z B ib rig" and waits: "ib r = cmd # cs"
  shows "\<exists>m rig'. peer_recv Z timed r rig = Inr (Some m, rig') \<and> command_of (hash Z) m = Some cmd
    \<and> (\<forall>s a hs ms. cmd = Deliver s a hs ms \<longrightarrow> address m = Some a \<and> content m = Some ms)
    \<and> rig_is Z B (ib(r := cs)) rig'"
proof -
  have H: "zhash_api (hash Z)" using Z by (simp add: czmq_api_def)
  obtain w ws where w: "inbox rig r = w # ws" "stands_for Z (Inr w) cmd"
      "list_all2 (\<lambda>cmd msg. stands_for Z (Inr msg) cmd) cs ws"
  proof -
    have "list_all2 (\<lambda>cmd msg. stands_for Z (Inr msg) cmd) (cmd # cs) (inbox rig r)"
      using rig waits by (metis rig_is_def)
    then show ?thesis using that by (auto simp: list_all2_Cons1)
  qed
  obtain m where m: "zccp_msg_decode (hash Z) (Some w) = Some m" "command_of (hash Z) m = Some cmd"
    using w(2) by (auto simp: stands_for_def)
  have recv: "zccp_msg_recv (hash Z) False (Some w) = Some m"
    using m(1) recv_dealer(3) [OF H, of "Some w"] by (simp add: zccp_msg_recv_def)
  have "address m = Some a \<and> content m = Some ms" if "cmd = Deliver s a hs ms" for s a hs ms
    using recv_dealer(5) [OF H recv] m(2) that by simp
  moreover have "rig_is Z B (ib(r := cs)) (rig\<lparr>inbox := (inbox rig)(r := ws)\<rparr>)"
    using rig w(3) by (simp add: rig_is_def)
  moreover have "peer_recv Z timed r rig = Inr (Some m, rig\<lparr>inbox := (inbox rig)(r := ws)\<rparr>)"
    by (simp add: peer_recv_def w(1) recv)
  ultimately show ?thesis using m(2) by blast
qed

section \<open>Steps of the symbolic run\<close>

text \<open>A step of the test that ends well.\<close>

definition ends_in :: "('h, 'r) czmq \<Rightarrow> broker \<Rightarrow> ('h, 'r, 'c) rig result \<Rightarrow> bool" where
  "ends_in Z B res \<longleftrightarrow> (\<exists>rig. res = Inr rig \<and> rig_is Z B (\<lambda>_. []) rig)"

lemma ends_in_Inr [simp]: "ends_in Z B (Inr rig) \<longleftrightarrow> rig_is Z B (\<lambda>_. []) rig"
  by (simp add: ends_in_def)

lemma ends_in_bind:
  "ends_in Z B res \<Longrightarrow> (\<And>rig. rig_is Z B (\<lambda>_. []) rig \<Longrightarrow> k rig = x) \<Longrightarrow> rbind res k = x"
  by (auto simp: ends_in_def)

text \<open>The identifier of the message that carries a reply.\<close>

fun reply_id :: "command \<Rightarrow> int" where
  "reply_id (Hello_ok hs) = ZCCP_MSG_HELLO_OK"
| "reply_id Subscribe_ok = ZCCP_MSG_SUBSCRIBE_OK"
| "reply_id (Deliver s a hs ms) = ZCCP_MSG_DELIVER"
| "reply_id _ = ZCCP_MSG_INVALID"

lemma reply_id_of:
  assumes "command_of H m = Some cmd" and "cmd \<in> {Hello_ok hs, Subscribe_ok, Invalid, Deliver s a hs ms}"
  shows "zccp_msg_id m = reply_id cmd"
  using assms by (auto simp: zccp_msg_id_def dest: command_id)

lemma then_expect:
  assumes Z: "czmq_api Z" and rig: "rig_is Z B ib rig" and waits: "ib r = cmd # cs"
    and cmd: "cmd \<in> {Hello_ok hs, Subscribe_ok, Invalid, Deliver s a hs ms}"
    and k: "\<And>m rig'. rig_is Z B (ib(r := cs)) rig' \<Longrightarrow>
      (\<And>s a hs ms. cmd = Deliver s a hs ms \<Longrightarrow> address m = Some a \<and> content m = Some ms) \<Longrightarrow> P (k (m, rig'))"
  shows "P (rbind (expect_message Z timed r (reply_id cmd) rig) k)"
proof -
  obtain m rig' where m: "peer_recv Z timed r rig = Inr (Some m, rig')" "command_of (hash Z) m = Some cmd"
      "\<forall>s a hs ms. cmd = Deliver s a hs ms \<longrightarrow> address m = Some a \<and> content m = Some ms"
      "rig_is Z B (ib(r := cs)) rig'"
    using received_by_peer [OF Z rig waits] by metis
  have "P (k (m, rig'))" using m(3,4) by (intro k) auto
  then show ?thesis
    using m(1) reply_id_of [OF m(2) cmd] by (simp add: expect_message_def c_assert_def)
qed

lemma exchange:
  assumes Z: "czmq_api Z" and n: "3 \<le> n" and rig: "rig_is Z B (\<lambda>_. []) rig"
    and msg: "stands_for Z msg cmd" "command_event cmd \<noteq> terminate_event"
    and step: "broker_step Z B r cmd = Inr (B', [(r, ans)])"
    and ans: "reply_id ans = i" "ans \<in> {Hello_ok Map.empty, Subscribe_ok, Invalid}"
    and k: "\<And>rig'. rig_is Z B' (\<lambda>_. []) rig' \<Longrightarrow> ends_in Z Bend (k rig')"
  shows "ends_in Z Bend (rbind (peer_send Z n r msg rig) (\<lambda>rig.
    rbind (expect_message Z timed r i rig) (\<lambda>(_, rig). k rig)))"
proof -
  obtain rig1 where rig1: "peer_send Z n r msg rig = Inr rig1"
      "rig_is Z B' (\<lambda>q. [] @ for_peer q [(r, ans)]) rig1"
    using sent_to_broker [OF Z n rig msg step] by blast
  have none: "(\<lambda>q. [] @ for_peer q [(r, ans)])(r := []) = (\<lambda>_. [])" by auto
  have "ans \<in> {Hello_ok Map.empty, Subscribe_ok, Invalid, Deliver [] [] Map.empty []}" using ans(2) by blast
  note received = then_expect [OF Z rig1(2), of r ans "[]", OF _ this, unfolded none, where P = "ends_in Z Bend"]
  have "ends_in Z Bend (rbind (expect_message Z timed r (reply_id ans) rig1) (\<lambda>(_, rig). k rig))"
    by (rule received) (simp_all add: k)
  then show ?thesis by (simp add: rig1(1) ans(1))
qed

text \<open>The messages of the test.\<close>

lemma plain_format: "czmq_api Z \<Longrightarrow> percent \<notin> set s \<Longrightarrow> format_string Z (Some s) = Inr s"
  by (simp add: format_string_def czmq_api.vprintf_plain)

lemma rbind_return: "rbind m Inr = m"
  by (cases m) simp_all

lemma test_messages:
  assumes "czmq_api Z" and "percent \<notin> set s" and "sized_fits 1 s"
  shows "stands_for Z (zccp_msg_send_hello Z False (Some s) None) (Hello s Map.empty)"
    and "stands_for Z (zccp_msg_send_subscribe Z False (Some s) None) (Subscribe s Map.empty)"
    and "stands_for Z (zccp_msg_send_publish Z False (Some s) None c) (Publish s Map.empty (frames_of c))"
proof -
  have H: "zhash_api (hash Z)" using assms(1) by (simp add: czmq_api_def)
  note defs = zccp_msg_send_hello_def zccp_msg_send_subscribe_def zccp_msg_send_publish_def setter_defs
    plain_format [OF assms(1,2)] zccp_msg_send_def with_headers_def zccp_msg_set_headers_def zccp_msg_set_content_def
    zccp_msg_new_def rbind_return
  show "stands_for Z (zccp_msg_send_hello Z False (Some s) None) (Hello s Map.empty)"
    using assms(3) by (simp add: defs del: One_nat_def) (rule stands_for_encode [OF H];
      simp add: msg_ok_def fields_fit_def opt_fits_def dict_fits_def entries_of_def command_of_def del: One_nat_def)
  show "stands_for Z (zccp_msg_send_subscribe Z False (Some s) None) (Subscribe s Map.empty)"
    using assms(3) by (simp add: defs del: One_nat_def) (rule stands_for_encode [OF H];
      simp add: msg_ok_def fields_fit_def opt_fits_def dict_fits_def entries_of_def command_of_def del: One_nat_def)
  show "stands_for Z (zccp_msg_send_publish Z False (Some s) None c) (Publish s Map.empty (frames_of c))"
    using assms(3) by (simp add: defs del: One_nat_def) (rule stands_for_encode [OF H];
      simp add: msg_ok_def fields_fit_def opt_fits_def dict_fits_def entries_of_def command_of_def del: One_nat_def)
qed

section \<open>The run\<close>

lemma server_starts:
  assumes "czmq_api Z"
  shows "\<exists>s. zccp_server_start Z E args random = Inr s"
proof -
  obtain i ts where t: "zloop_timer Z 1000 0 s_watch_server_config_fn (loop (s_server_new Z E random)) = (i, ts)"
    by (cases "zloop_timer Z 1000 0 s_watch_server_config_fn (loop (s_server_new Z E random))")
  from czmq_api.zloop_timer_spec(1) [OF assms t] t show ?thesis
    by (simp add: zccp_server_start_def engine_set_monitor_def engine_handle_socket_def s_server_new_def)
qed

lemma wf_lits: "wf_cstr (lit ''VERBOSE'')" "wf_cstr (lit ''BIND'')" "wf_cstr (lit ''ipc://@/zccp_server'')"
    "wf_cstr (lit ''ipc://@/zccp'')"
  by (simp_all add: wf_cstr_def lit_simps)

lemma verbose_command:
  "s_server_api_message E (Some [lit ''VERBOSE'']) s = Inr (0, s\<lparr>verbose := True\<rparr>)"
  by (simp add: s_server_api_message_def zmsg_popstr_def c_string_wf wf_lits)

lemma bind_command:
  assumes "wf_cstr ep"
  shows "s_server_api_message E (Some [lit ''BIND'', ep]) s = (let (p, s) = bind_router E ep s in Inr (0, s\<lparr>port := p\<rparr>))"
  using assms by (simp add: s_server_api_message_def zmsg_popstr_def c_string_wf wf_lits lit_eq_iff)

lemma broker_started:
  assumes Z: "czmq_api Z" and "wf_cstr ep" and "zs_bind E [] ep \<noteq> -1"
  shows "ends_in Z \<lparr>sessions = Map.empty, table = []\<rparr> (start_test_broker Z E args random n verb ep)"
proof -
  obtain s where s: "zccp_server_start Z E (Some args) random = Inr s" using server_starts [OF Z] by blast
  note ok = start_ok [OF Z s]
  have readers: "srv_readers s = main_readers" using ok by (simp add: server_ok_def steady_def)
  let ?s = "(if verb then s\<lparr>verbose := True\<rparr> else s)\<lparr>endpoints := endpoints s @ [ep], port := zs_bind E [] ep\<rparr>"
  have "same_clients s ?s" by (simp add: same_clients_def)
  from same_clients_ok [OF this] ok have "server_ok Z ?s" "broker_of Z ?s = \<lparr>sessions = Map.empty, table = []\<rparr>"
    by simp_all
  moreover have "start_test_broker Z E args random n verb ep
      = Inr \<lparr>server = ?s, running = True, bound = True, inbox = (\<lambda>_. [])\<rparr>"
    using assms(2,3) by (simp add: start_test_broker_def s broker_turn_def handle_event_def readers verbose_command
        start_ok(4) [OF Z s] bind_command bind_router_def put_out_def)
  ultimately show ?thesis by (simp add: rig_is_def put_out_def)
qed

text \<open>The strings of the test fit, and print as themselves.\<close>

lemma test_strings:
  "x \<in> {''(HELLO, WORLD)'', ''step 1'', ''step 2'', ''step 3 - client'', ''step 3 - device'', ''H.*O'', ''HELLO''}
    \<Longrightarrow> percent \<notin> set (lit x) \<and> sized_fits 1 (lit x)"
  by (auto simp: sized_fits_def wf_cstr_def lit_simps)

definition greeted :: "frame \<Rightarrow> frame \<Rightarrow> broker" where
  "greeted client device = \<lparr>sessions = [client \<mapsto> Some (lit ''step 3 - client''), device \<mapsto> Some (lit ''step 3 - device'')],
     table = []\<rparr>"

lemma hello_accepted:
  assumes "czmq_api Z" and "3 \<le> n" and "rig_is Z B (\<lambda>_. []) rig" and "percent \<notin> set s \<and> sized_fits 1 s"
    and "sessions B r = None"
    and "\<And>rig'. rig_is Z (B\<lparr>sessions := (sessions B)(r \<mapsto> Some s)\<rparr>) (\<lambda>_. []) rig' \<Longrightarrow> ends_in Z Bend (k rig')"
  shows "ends_in Z Bend (rbind (peer_send Z n r (zccp_msg_send_hello Z False (Some s) None) rig) (\<lambda>rig.
    rbind (expect_message Z timed r ZCCP_MSG_HELLO_OK rig) (\<lambda>(_, rig). k rig)))"
  by (rule exchange [OF assms(1-3) test_messages(1) [OF assms(1)]])
    (use assms(4-6) in \<open>(simp_all add: broker_step_def del: One_nat_def)+\<close>)

lemma hello_refused:
  assumes "czmq_api Z" and "3 \<le> n" and "rig_is Z B (\<lambda>_. []) rig" and "percent \<notin> set s \<and> sized_fits 1 s"
    and "sessions B r = Some (Some x)"
    and "\<And>rig'. rig_is Z (leave r B) (\<lambda>_. []) rig' \<Longrightarrow> ends_in Z Bend (k rig')"
  shows "ends_in Z Bend (rbind (peer_send Z n r (zccp_msg_send_hello Z False (Some s) None) rig) (\<lambda>rig.
    rbind (expect_message Z timed r ZCCP_MSG_INVALID rig) (\<lambda>(_, rig). k rig)))"
  by (rule exchange [OF assms(1-3) test_messages(1) [OF assms(1)]])
    (use assms(4-6) in \<open>(simp_all add: broker_step_def del: One_nat_def)+\<close>)

lemma publish_refused:
  assumes "czmq_api Z" and "3 \<le> n" and "rig_is Z B (\<lambda>_. []) rig" and "percent \<notin> set s \<and> sized_fits 1 s"
    and "sessions B r = None"
    and "\<And>rig'. rig_is Z (leave r B) (\<lambda>_. []) rig' \<Longrightarrow> ends_in Z Bend (k rig')"
  shows "ends_in Z Bend (rbind (peer_send Z n r (zccp_msg_send_publish Z False (Some s) None c) rig) (\<lambda>rig.
    rbind (expect_message Z timed r ZCCP_MSG_INVALID rig) (\<lambda>(_, rig). k rig)))"
  by (rule exchange [OF assms(1-3) test_messages(3) [OF assms(1)]])
    (use assms(4-6) in \<open>(simp_all add: broker_step_def del: One_nat_def)+\<close>)

lemma subscribe_accepted:
  assumes "czmq_api Z" and "3 \<le> n" and "rig_is Z B (\<lambda>_. []) rig" and "percent \<notin> set s \<and> sized_fits 1 s"
    and "sessions B r = Some (Some x)"
    and "\<And>rig'. rig_is Z (B\<lparr>table := subscribe_table s r (table B)\<rparr>) (\<lambda>_. []) rig' \<Longrightarrow> ends_in Z Bend (k rig')"
  shows "ends_in Z Bend (rbind (peer_send Z n r (zccp_msg_send_subscribe Z False (Some s) None) rig) (\<lambda>rig.
    rbind (expect_message Z timed r ZCCP_MSG_SUBSCRIBE_OK rig) (\<lambda>(_, rig). k rig)))"
  by (rule exchange [OF assms(1-3) test_messages(2) [OF assms(1)]])
    (use assms(4-6) in \<open>(simp_all add: broker_step_def del: One_nat_def)+\<close>)

lemma greetings_pass:
  assumes Z: "czmq_api Z" and n: "3 \<le> n" and "rig_is Z \<lparr>sessions = Map.empty, table = []\<rparr> (\<lambda>_. []) rig"
    and "device \<noteq> client"
  shows "ends_in Z (greeted client device) (test_greetings Z n client device rig)"
  unfolding test_greetings_def
  using assms(4)
  by - (rule publish_refused [OF Z n assms(3)], rule test_strings, simp, simp,
    (rule hello_accepted [OF Z n] hello_refused [OF Z n], assumption, rule test_strings, simp, simp add: leave_def)+,
    simp add: greeted_def leave_def)

definition subscribed_twice :: "frame \<Rightarrow> frame \<Rightarrow> broker" where
  "subscribed_twice client device = (greeted client device)\<lparr>table := [(lit ''H.*O'', [client]), (lit ''HELLO'', [client])]\<rparr>"

lemma subscriptions_pass:
  assumes Z: "czmq_api Z" and n: "3 \<le> n" and rig: "rig_is Z (greeted client device) (\<lambda>_. []) rig" and "device \<noteq> client"
  shows "ends_in Z (subscribed_twice client device) (test_subscriptions Z n client rig)"
  unfolding test_subscriptions_def using assms(4)
  by - (rule subscribe_accepted [OF Z n rig], rule test_strings, simp, simp add: greeted_def,
    (rule subscribe_accepted [OF Z n], assumption, rule test_strings, simp, simp add: greeted_def)+,
    simp add: greeted_def subscribed_twice_def lit_eq_iff)

lemma delivery_expected:
  assumes Z: "czmq_api Z" and rig: "rig_is Z B ib rig"
    and "ib client = Deliver who (lit ''(HELLO, WORLD)'') Map.empty [lit ''TEST''] # cs"
    and k: "\<And>rig'. rig_is Z B (ib(client := cs)) rig' \<Longrightarrow> P (k rig')"
  shows "P (rbind (expect_test_delivery Z client rig) k)"
proof -
  have "c_string (lit ''TEST'') = lit ''TEST''" by (rule c_string_wf) (simp add: wf_cstr_def lit_simps)
  then have "P (rbind (expect_message Z True client (reply_id (Deliver who (lit ''(HELLO, WORLD)'') Map.empty [lit ''TEST'']))
      rig) (\<lambda>(message, rig).
     rbind (rbind (assert_streq (zccp_msg_address message) (lit ''(HELLO, WORLD)'')) (\<lambda>_.
     rbind (of_option Null_pointer (zccp_msg_content message)) (\<lambda>content.
     rbind (assert_streq (fst (zmsg_popstr content)) (lit ''TEST'')) (\<lambda>_.
     Inr rig)))) k))"
    using k by (intro then_expect [OF Z rig assms(3), where P = P and hs = Map.empty and s = who
        and a = "lit ''(HELLO, WORLD)''" and ms = "[lit ''TEST'']"])
      (simp_all add: assert_streq_def c_assert_def zccp_msg_address_def zccp_msg_content_def zmsg_popstr_def)
  then show ?thesis
    by (simp add: expect_test_delivery_def rbind_assoc split_def)
qed

lemma deliveries_pass:
  assumes Z: "czmq_api Z" and n: "3 \<le> n" and rig: "rig_is Z (subscribed_twice client device) (\<lambda>_. []) rig" and "device \<noteq> client"
    and "rex_matches Z (rex_new Z (lit ''H.*O'')) (lit ''(HELLO, WORLD)'')"
    and "rex_matches Z (rex_new Z (lit ''HELLO'')) (lit ''(HELLO, WORLD)'')"
  shows "ends_in Z (subscribed_twice client device) (test_deliveries Z n client device rig)"
proof -
  let ?out = "(client, Deliver (lit ''step 3 - device'') (lit ''(HELLO, WORLD)'') Map.empty [lit ''TEST''])"
  have to: "recipients Z (subscribed_twice client device) device (lit ''(HELLO, WORLD)'') = [client, client]"
    using assms(4-6) by (simp add: recipients_def subscribed_twice_def)
  have "vprintf Z (lit ''(HELLO, WORLD)'') = Some (lit ''(HELLO, WORLD)'')"
      "vprintf Z (lit ''step 3 - device'') = Some (lit ''step 3 - device'')"
    by (simp_all add: czmq_api.vprintf_plain [OF Z] test_strings)
  then have "broker_step Z (subscribed_twice client device) device (Publish (lit ''(HELLO, WORLD)'') Map.empty [lit ''TEST''])
      = Inr (subscribed_twice client device, [?out, ?out])"
    using to by (simp add: broker_step_def) (simp add: subscribed_twice_def greeted_def)
  moreover have "stands_for Z (zccp_msg_send_publish Z False (Some (lit ''(HELLO, WORLD)'')) None (Some [lit ''TEST'']))
      (Publish (lit ''(HELLO, WORLD)'') Map.empty [lit ''TEST''])"
    using test_messages(3) [OF Z, of _ "Some [lit ''TEST'']"] test_strings by simp
  ultimately obtain rig1 where rig1: "peer_send Z n device
       (zccp_msg_send_publish Z False (Some (lit ''(HELLO, WORLD)'')) None (Some [lit ''TEST''])) rig = Inr rig1"
      "rig_is Z (subscribed_twice client device) (\<lambda>q. [] @ for_peer q [?out, ?out]) rig1"
    using sent_to_broker [OF Z n rig] by fastforce
  let ?last = "\<lambda>rig. rbind (peer_recv Z True client rig) (\<lambda>(message, rig). rbind (c_assert (message = None)) (\<lambda>_. Inr rig))"
  have third: "ends_in Z (subscribed_twice client device) (?last rig3)"
    if "rig_is Z (subscribed_twice client device) ib rig3" and "ib = (\<lambda>_. [])" for rig3 and ib :: "frame \<Rightarrow> command list"
  proof -
    have "inbox rig3 client = []" using that by (simp add: rig_is_def)
    then show ?thesis using that by (simp add: peer_recv_def c_assert_def)
  qed
  have second: "ends_in Z (subscribed_twice client device) (rbind (expect_test_delivery Z client rig2) ?last)"
    if "rig_is Z (subscribed_twice client device) (\<lambda>q. for_peer q [?out]) rig2" for rig2
    by (rule delivery_expected [OF Z that, where P = "ends_in Z (subscribed_twice client device)"])
      (simp, rule third, assumption, auto)
  have "(\<lambda>q. [] @ for_peer q [?out, ?out])(client := [snd ?out]) = (\<lambda>q. for_peer q [?out])" by auto
  then have "ends_in Z (subscribed_twice client device) (rbind (expect_test_delivery Z client rig1)
      (\<lambda>rig. rbind (expect_test_delivery Z client rig) ?last))"
    using second by (intro delivery_expected [OF Z rig1(2), where P = "ends_in Z (subscribed_twice client device)"
        and cs = "[snd ?out]" and who = "lit ''step 3 - device''"]) simp_all
  then show ?thesis by (simp add: test_deliveries_def rig1(1))
qed

lemma term_command:
  "s_server_api_message E (Some [lit ''$TERM'']) s = Inr (-1, s)"
proof -
  have "lit ''$TERM'' \<noteq> lit ''VERBOSE''" "wf_cstr (lit ''$TERM'')" by (simp_all add: lit_eq_iff wf_cstr_def lit_simps)
  then show ?thesis by (simp add: s_server_api_message_def zmsg_popstr_def c_string_wf)
qed

lemma broker_stopped:
  assumes "rig_is Z B ib rig" and "\<And>K. finite K \<Longrightarrow> set (order K) = K"
  shows "stop_test_broker Z E n order rig = Inr ()"
proof -
  have ok: "running rig" "server_ok Z (server rig)" using assms(1) by (simp_all add: rig_is_def)
  from server_destroyed [OF ok(2), of order] assms(2) [OF clients_finite [OF ok(2)]] obtain s where
    "s_server_destroy order (server rig) = Inr s" by blast
  then show ?thesis
    using ok(1) by (simp add: stop_test_broker_def broker_turn_def dispatch [OF ok(2)] term_command)
qed

lemma server_test_passes:
  assumes Z: "czmq_api Z" and n: "3 \<le> n" and "device \<noteq> client" and "zs_bind E [] (lit ''ipc://@/zccp_server'') \<noteq> -1"
    and "rex_matches Z (rex_new Z (lit ''H.*O'')) (lit ''(HELLO, WORLD)'')"
    and "rex_matches Z (rex_new Z (lit ''HELLO'')) (lit ''(HELLO, WORLD)'')"
    and order: "\<And>K. finite K \<Longrightarrow> set (order K) = K"
  shows "zccp_server_test Z E random n order client device verb = Inr ()"
  unfolding zccp_server_test_def
  using broker_started [OF Z wf_lits(3) assms(4), of _ random n verb] greetings_pass [OF Z n _ assms(3)]
    subscriptions_pass [OF Z n _ assms(3)] deliveries_pass [OF Z n _ assms(3,5,6)]
    broker_stopped [OF _ order]
  by (blast intro: ends_in_bind)

end
