(* ===== verification/Server_Claims.thy ===== *)
theory Server_Claims
  imports Server_Selftest "HOL-Library.List_Lexorder"
begin

text \<open>
  The properties of the broker.  The witnesses run on the concrete library \<open>ref_czmq\<close>, from the state
  \<open>demo\<close>: two peers have said HELLO, and the first one has subscribed to two expressions.
\<close>

section \<open>A concrete broker\<close>

definition ref_env :: "unit zenv" where
  "ref_env = \<lparr>zc_new = (), zc_resolve = (\<lambda>c p d. d), zc_put = (\<lambda>c p v. c),
     zc_locate = (\<lambda>c p. None), zc_children = (\<lambda>c. []), zc_name = (\<lambda>c. []), zc_value = (\<lambda>c. None), zc_load = (\<lambda>f. None),
     zc_has_changed = (\<lambda>c. False), zc_reload = (\<lambda>c. None), zs_bind = (\<lambda>bs e. 9000)\<rparr>"

definition started :: "((cstr \<times> cstr) list, cstr, unit) s_server_t" where
  "started = (case zccp_server_start ref_czmq ref_env (Some (lit ''zccpd'')) 7 of
     Inr s \<Rightarrow> s | Inl e \<Rightarrow> s_server_new ref_czmq ref_env 7)"

definition hello_from :: "byte \<Rightarrow> zmsg option" where
  "hello_from r = Some [[r], [0xAA, 0xAA, 1, 1, 64 + r, 0, 0, 0, 0]]"

definition subscribe_from :: "byte \<Rightarrow> byte list \<Rightarrow> zmsg option" where
  "subscribe_from r e = Some [[r], [0xAA, 0xAA, 3, of_nat (length e)] @ e @ [0, 0, 0, 0]]"

definition publish_from :: "byte \<Rightarrow> byte list \<Rightarrow> zmsg option" where
  "publish_from r a = Some [[r], [0xAA, 0xAA, 5, of_nat (length a)] @ a @ [0, 0, 0, 0], [57]]"

definition demo_client :: "byte \<Rightarrow> int \<Rightarrow> (cstr \<times> cstr) list s_client_t" where
  "demo_client r t = \<lparr>request = None, reply = fresh_reply [r], client_identifier = Some [64 + r],
     hashkey = hex_name [r], client_routing_id = [r], unique_id = 7, log_prefix = [], mailbox = [], state = connected_state,
     event = hello_event, next_event = NULL_event, exception = NULL_event, expiry_timer = t,
     wakeup_timer = 0, wakeup_event = NULL_event\<rparr>"

definition demo_timer :: "ptr \<Rightarrow> int \<Rightarrow> timer_fn timer" where
  "demo_timer p i = \<lparr>tm_id = i, tm_delay = 60000, tm_times = 1, tm_handler = s_client_handle_timeout_fn p\<rparr>"

definition demo :: "((cstr \<times> cstr) list, cstr, unit) s_server_t" where
  "demo = started\<lparr>
     patterns := [\<lparr>pat_expression = [99], rex = [99], pat_clients = [0]\<rparr>,
                  \<lparr>pat_expression = [99, 112], rex = [99, 112], pat_clients = [0]\<rparr>],
     clients := [hex_name [1] \<mapsto> 0, hex_name [2] \<mapsto> 1],
     heap := [0 \<mapsto> demo_client 1 2, 1 \<mapsto> demo_client 2 3],
     loop := loop started @ [demo_timer 0 2, demo_timer 1 3], next_ptr := 2\<rparr>"

lemma zloop_run_ok:
  assumes "czmq_api Z" and "server_ok Z s" and "3 \<le> n"
    and "zloop_run Z n (map Router_ready inputs) s = Inr (go, s')"
  shows "server_ok Z s'"
  using assms(2,4)
proof (induction inputs arbitrary: s)
  case (Cons i inputs)
  then obtain rc s1 where e: "handle_event Z n (Router_ready i) s = Inr (rc, s1)"
    "(if rc = -1 then Inr (False, s1) else zloop_run Z n (map Router_ready inputs) s1) = Inr (go, s')"
    by (auto simp: rbind_Inr_iff)
  have "server_ok Z s1"
    by (rule handle_event_ok [OF assms(1) Cons.prems(1) assms(3) _ e(1)]) (simp add: may_happen_def)
  with Cons.IH e(2) show ?case by (auto split: if_splits)
qed simp

lemma started_starts: "zccp_server_start ref_czmq ref_env (Some (lit ''zccpd'')) 7 = Inr started"
proof -
  obtain s where "zccp_server_start ref_czmq ref_env (Some (lit ''zccpd'')) 7 = Inr s"
    using server_starts [OF ref_lib.czmq_api_axioms] by blast
  then show ?thesis by (simp add: started_def)
qed

lemma started_ok: "server_ok ref_czmq started"
  by (rule start_ok(1) [OF ref_lib.czmq_api_axioms started_starts])

lemma hex_names [simp]: "hex_name [1] = [48, 49]" "hex_name [2] = [48, 50]"
  by code_simp+

lemma ref_fields [simp]: "strhex ref_czmq = hex_name" "rex_new ref_czmq e = e"
  by (simp_all add: ref_czmq_def)

lemma demo_client_ok: "r = 1 \<or> r = 2 \<Longrightarrow> context_ok ref_czmq (demo_client r t)"
  by (auto simp: context_ok_def demo_client_def at_rest_def sized_fits_def wf_cstr_def)

lemma demo_client_fields [simp]:
  "hashkey (demo_client r t) = hex_name [r]" "state (demo_client r t) = connected_state"
  "expiry_timer (demo_client r t) = t" "client_routing_id (demo_client r t) = [r]"
  "client_identifier (demo_client r t) = Some [64 + r]"
  by (simp_all add: demo_client_def)

lemma demo_fields [simp]:
  "patterns demo = [\<lparr>pat_expression = [99], rex = [99], pat_clients = [0]\<rparr>,
                  \<lparr>pat_expression = [99, 112], rex = [99, 112], pat_clients = [0]\<rparr>]"
  "clients demo = [[48, 49] \<mapsto> 0, [48, 50] \<mapsto> 1]"
  "heap demo = [0 \<mapsto> demo_client 1 2, 1 \<mapsto> demo_client 2 3]"
  "loop demo = [\<lparr>tm_id = 1, tm_delay = 1000, tm_times = 0, tm_handler = s_watch_server_config_fn\<rparr>,
                demo_timer 0 2, demo_timer 1 3]"
  "next_ptr demo = 2" "steady demo" "verbose demo = False" "out demo = []"
proof -
  have v: "\<not> verbose (s_server_config_self ref_env (s :: ((cstr \<times> cstr) list, cstr, unit) s_server_t)) \<longleftrightarrow> \<not> verbose s" for s
  proof -
    have "atol (lit ''0'') = 0" by code_simp
    then show ?thesis by (simp add: s_server_config_self_def Let_def ref_env_def)
  qed
  show "patterns demo = [\<lparr>pat_expression = [99], rex = [99], pat_clients = [0]\<rparr>,
                  \<lparr>pat_expression = [99, 112], rex = [99, 112], pat_clients = [0]\<rparr>]"
    "clients demo = [[48, 49] \<mapsto> 0, [48, 50] \<mapsto> 1]"
    "heap demo = [0 \<mapsto> demo_client 1 2, 1 \<mapsto> demo_client 2 3]"
    "loop demo = [\<lparr>tm_id = 1, tm_delay = 1000, tm_times = 0, tm_handler = s_watch_server_config_fn\<rparr>,
                  demo_timer 0 2, demo_timer 1 3]"
    "next_ptr demo = 2" "steady demo" "out demo = []"
    by (simp_all add: demo_def started_def zccp_server_start_def engine_set_monitor_def engine_handle_socket_def s_server_new_def
        steady_def zloop_timer_def server_initialize_def s_server_config_self_def Let_def ref_czmq_def next_timer_def)
  show "verbose demo = False"
    using v [of "\<lparr>patterns = [], srv_config = 0, srv_sender = None, srv_address = None, srv_headers = None,
        srv_content = None, port = 0, clients = Map.empty, config = (0, zc_new ref_env),
        client_id = 7, timeout = 0, verbose = False, loop = [], heap = Map.empty, next_ptr = 0,
        next_serial = 1, out = [], pipe_out = [], walks = 0, endpoints = [], notices = [],
        srv_readers = [], srv_log_prefix = []\<rparr>"]
    by (simp add: demo_def started_def zccp_server_start_def engine_set_monitor_def engine_handle_socket_def s_server_new_def
        steady_def zloop_timer_def server_initialize_def Let_def ref_czmq_def next_timer_def)
qed

lemma demo_ok: "server_ok ref_czmq demo"
proof -
  have "clients_ok ref_czmq demo"
    unfolding clients_ok_def demo_fields using demo_client_ok
    by (auto split: if_splits)
  moreover have "patterns_ok ref_czmq demo" by (simp add: patterns_ok_def)
  moreover have "timers_ok demo"
    unfolding timers_ok_def by (auto simp: demo_timer_def split: if_splits)
  ultimately show ?thesis by (simp add: server_ok_def)
qed

lemma demo_broker:
  "table (broker_of ref_czmq demo) = [([99], [[1]]), ([99, 112], [[1]])]"
  "sessions (broker_of ref_czmq demo) [1] = Some (Some [65])"
  "sessions (broker_of ref_czmq demo) [2] = Some (Some [66])"
  by (simp_all add: broker_of_def table_of_def rid_of_def sessions_of_def session_of_def)

lemma demo_step:
  "broker_step ref_czmq (broker_of ref_czmq demo) [2] (Publish [99, 112, 117] Map.empty [[57]])
     = Inr (broker_of ref_czmq demo, [([1], Deliver [66] [99, 112, 117] Map.empty [[57]]),
                                    ([1], Deliver [66] [99, 112, 117] Map.empty [[57]])])"
proof -
  have "vprintf ref_czmq [66] = Some [66]" "vprintf ref_czmq [99, 112, 117] = Some [99, 112, 117]"
    and "rex_matches ref_czmq = (\<lambda>e s. take (length e) s = e)"
    by (simp_all add: ref_czmq_def)
  then show ?thesis by (simp add: broker_step_def recipients_def demo_broker)
qed

definition published :: "(cstr \<times> cstr) list zccp_msg" where
  "published = (zccp_msg_new ZCCP_MSG_PUBLISH)
     \<lparr>routing_id := Some [2], address := Some [99, 112, 117], headers := Some [], content := Some [[57]]\<rparr>"

lemma published_recv: "zccp_msg_recv (hash ref_czmq) True (publish_from 2 [99, 112, 117]) = Some published"
  by code_simp

lemma published_command: "command_of (hash ref_czmq) published = Some (Publish [99, 112, 117] Map.empty [[57]])"
  by (simp add: published_def command_of_def zccp_msg_new_def)

lemma published_rid: "routing_id published = Some [2]"
  by (simp add: published_def)

lemma implements_run:
  assumes "s_server_client_message Z n input s = rbind res (\<lambda>s. Inr (0, s))"
    and "implements Z s res (Inr (B, outs))"
  shows "\<exists>s' wires. s_server_client_message Z n input s = Inr (0, s') \<and> server_ok Z s' \<and> verbose s' = verbose s
    \<and> broker_of Z s' = B \<and> out s' = out s @ wires \<and> list_all2 (carries Z) outs wires"
  using assms by (auto simp: implements_def)

text \<open>The table of subscriptions has no duplicates, so that deliveries can be counted.\<close>

lemma table_distinct:
  assumes "server_ok Z s"
  shows "distinct (map fst (table (broker_of Z s)))" and "\<forall>(e, rs) \<in> set (table (broker_of Z s)). distinct rs"
proof -
  show "distinct (map fst (table (broker_of Z s)))"
    using assms by (simp add: ok_defs broker_of_def table_of_def o_def)
  have "distinct (map (rid_of s) (pat_clients pat))" if pat: "pat \<in> set (patterns s)" for pat
  proof -
    have "inj_on (rid_of s) (set (pat_clients pat))"
    proof (rule inj_onI)
      fix p q assume pq: "p \<in> set (pat_clients pat)" "q \<in> set (pat_clients pat)" "rid_of s p = rid_of s q"
      obtain c d where cd: "heap s p = Some c" "heap s q = Some d"
        using live_client [OF assms pat pq(1)] live_client [OF assms pat pq(2)] by metis
      with pq(3) show "p = q" by (intro rid_inj [OF assms cd]) simp
    qed
    then show ?thesis using assms pat by (simp add: ok_defs distinct_map)
  qed
  then show "\<forall>(e, rs) \<in> set (table (broker_of Z s)). distinct rs"
    by (auto simp: broker_of_def table_of_def)
qed

lemma count_list_distinct: "distinct xs \<Longrightarrow> count_list xs x = (if x \<in> set xs then 1 else 0)"
  by (induction xs) auto

lemma count_recipients:
  assumes "distinct (map fst T)" and "\<forall>(e, rs) \<in> set T. distinct rs"
  shows "count_list (concat (map (\<lambda>(e, rs). if P e then filter (\<lambda>q. q \<noteq> r) rs else []) T)) q
    = (if q = r then 0 else card {e. \<exists>rs. (e, rs) \<in> set T \<and> P e \<and> q \<in> set rs})"
  using assms
proof (induction T)
  case (Cons x T)
  obtain e rs where x: "x = (e, rs)" by (cases x)
  let ?S = "\<lambda>T. {e. \<exists>rs. (e, rs) \<in> set T \<and> P e \<and> q \<in> set rs}"
  have fin: "finite (?S T)"
    by (rule finite_subset [of _ "fst ` set T"]) (auto intro: rev_image_eqI)
  have new: "e \<notin> ?S T" using Cons.prems(1) by (auto simp: x intro: rev_image_eqI)
  have "?S (x # T) = (if P e \<and> q \<in> set rs then insert e (?S T) else ?S T)" by (auto simp: x)
  then have "card (?S (x # T)) = (if P e \<and> q \<in> set rs then 1 else 0) + card (?S T)"
    using fin new by simp
  moreover have "count_list (filter (\<lambda>q. q \<noteq> r) rs) q = (if q \<noteq> r \<and> q \<in> set rs then 1 else 0)"
    using Cons.prems(2) by (simp add: x count_list_distinct)
  ultimately show ?case using Cons by (auto simp: x)
qed simp

text \<open>What a fault of the specification can be.\<close>

lemma broker_step_fault:
  "broker_step Z B r cmd = Inl e \<Longrightarrow> e = Format_undefined \<and> (\<exists>a hs ms. cmd = Publish a hs ms)"
  by (cases cmd) (auto simp: broker_step_def rbind_Inl_iff of_option_def
      split: option.splits if_splits)

lemma message_faults:
  assumes "czmq_api Z" and "server_ok Z s" and "3 \<le> n" and "s_server_client_message Z n input s = Inl e"
  shows "e = Format_undefined \<or> (e = Name_table_overrun \<and> verbose s)"
proof (cases "zccp_msg_recv (hash Z) True input")
  case None
  with assms(4) show ?thesis by (simp add: s_server_client_message_def)
next
  case (Some msg)
  have "zhash_api (hash Z)" using assms(1) by (simp add: czmq_api_def)
  from recv_complete [OF this Some] obtain r cmd where
    r: "routing_id msg = Some r" "command_of (hash Z) msg = Some cmd" by auto
  obtain res where res: "s_server_client_message Z n input s = rbind res (\<lambda>s. Inr (0, s))"
    "if verbose s \<and> command_event cmd = terminate_event then res = Inl Name_table_overrun
     else implements Z s res (broker_step Z (broker_of Z s) r cmd)"
    using client_message [OF assms(1-3) Some r] by blast
  then have e: "res = Inl e" using assms(4) by (cases res) auto
  show ?thesis
  proof (cases "verbose s \<and> command_event cmd = terminate_event")
    case True
    with res(2) e show ?thesis by simp
  next
    case False
    then have "implements Z s (Inl e) (broker_step Z (broker_of Z s) r cmd)"
      using res(2) by (simp only: False e if_False)
    then have "broker_step Z (broker_of Z s) r cmd = Inl e"
      by (cases "broker_step Z (broker_of Z s) r cmd") (auto simp: implements_def)
    from broker_step_fault [OF this] show ?thesis by simp
  qed
qed

lemma api_faults:
  assumes "s_server_api_message E input s = Inl e"
  shows "e = Null_pointer"
  using assms
  by (auto simp: s_server_api_message_def Let_def rbind_Inl_iff of_option_def server_method_def
      split: option.splits prod.splits if_splits)

lemma reachable_server_ok:
  assumes "server_reachable Z n s" and "czmq_api Z" and "3 \<le> n"
  shows "server_ok Z s"
  using assms(1)
proof (induction rule: server_reachable.induct)
  case (init E args random s)
  then show ?case by (rule start_ok(1) [OF assms(2)])
next
  case (reach s s')
  from reach.hyps(2) obtain e rc where "may_happen e s" "handle_event Z n e s = Inr (rc, s')"
    by (rule server_step_elim)
  then show ?case by (rule handle_event_ok [OF assms(2) reach.IH assms(3)])
qed

lemma started_reachable: "server_reachable ref_czmq 3 started"
  by (rule server_reachable.init [OF started_starts])

definition ping_ok_from :: "byte \<Rightarrow> zmsg option" where
  "ping_ok_from r = Some [[r], [0xAA, 0xAA, 11]]"

definition ping_ok_received :: "(cstr \<times> cstr) list zccp_msg" where
  "ping_ok_received = (zccp_msg_new ZCCP_MSG_PING_OK)\<lparr>routing_id := Some [1]\<rparr>"

lemma ping_ok_recv: "zccp_msg_recv (hash ref_czmq) True (ping_ok_from 1) = Some ping_ok_received"
  by code_simp

lemma ping_ok_facts: "routing_id ping_ok_received = Some [1]"
  "command_of (hash ref_czmq) ping_ok_received = Some Ping_ok"
  by (simp_all add: ping_ok_received_def command_of_def zccp_msg_new_def)

definition subscribe_received :: "byte list \<Rightarrow> (cstr \<times> cstr) list zccp_msg" where
  "subscribe_received e = (zccp_msg_new ZCCP_MSG_SUBSCRIBE)
     \<lparr>routing_id := Some [1], expression := Some e, headers := Some []\<rparr>"

lemma subscribe_recv: "zccp_msg_recv (hash ref_czmq) True (subscribe_from 1 [100]) = Some (subscribe_received [100])"
  by code_simp

lemma subscribe_facts: "routing_id (subscribe_received e) = Some [1]"
  "command_of (hash ref_czmq) (subscribe_received e) = Some (Subscribe e Map.empty)"
  by (simp_all add: subscribe_received_def command_of_def zccp_msg_new_def)

section \<open>Properties\<close>

text \<open>
  C1: the broker refines its specification.  A message that \<open>zccp_msg_recv\<close> accepts, from any peer, has
  the effect on sessions and subscriptions, and sends the messages to the peers, that \<open>broker_step\<close>
  prescribes for its command, in that order; the callback returns 0.  Excepted are the verbose server
  and a command that only servers send, for which see \<open>verbose_overrun\<close>.
\<close>

theorem broker_refines:
  assumes "czmq_api Z" and "server_ok Z s" and "3 \<le> n"
    and "zccp_msg_recv (hash Z) True input = Some msg"
    and "routing_id msg = Some r" and "command_of (hash Z) msg = Some cmd"
    and "verbose s \<longrightarrow> command_event cmd \<noteq> terminate_event"
  shows "case broker_step Z (broker_of Z s) r cmd of
      Inl e \<Rightarrow> s_server_client_message Z n input s = Inl e
    | Inr (B, outs) \<Rightarrow> \<exists>s' wires. s_server_client_message Z n input s = Inr (0, s') \<and> server_ok Z s'
        \<and> verbose s' = verbose s \<and> broker_of Z s' = B \<and> out s' = out s @ wires
        \<and> list_all2 (carries Z) outs wires"
proof -
  obtain res where res: "s_server_client_message Z n input s = rbind res (\<lambda>s. Inr (0, s))"
    "implements Z s res (broker_step Z (broker_of Z s) r cmd)"
    using client_message [OF assms(1-6)] assms(7) by auto
  show ?thesis
  proof (cases "broker_step Z (broker_of Z s) r cmd")
    case (Inl e)
    then show ?thesis using res by (simp add: implements_def)
  next
    case (Inr x)
    then obtain B outs where "broker_step Z (broker_of Z s) r cmd = Inr (B, outs)" by (cases x) simp
    with implements_run [OF res(1)] res(2) show ?thesis by simp
  qed
qed

theorem broker_refines_witness:
  "\<exists>s' w1 w2. s_server_client_message ref_czmq 3 (publish_from 2 [99, 112, 117]) demo = Inr (0, s')
    \<and> out s' = [w1, w2] \<and> carries ref_czmq ([1], Deliver [66] [99, 112, 117] Map.empty [[57]]) w1"
  using broker_refines [OF ref_lib.czmq_api_axioms demo_ok _ published_recv published_rid published_command, of 3]
  by (auto simp: demo_step list_all2_Cons1)

text \<open>
  A PUBLISH from a greeted client is delivered to every other peer once for each matching
  pattern it has subscribed to, and to nobody else; the sender never gets its own message.  Every
  delivery has the sender's identifier, the address and the content frames, but none of the headers.
\<close>

theorem publish_deliveries:
  assumes "czmq_api Z" and "server_ok Z s" and "3 \<le> n"
    and "zccp_msg_recv (hash Z) True input = Some msg" and "routing_id msg = Some r"
    and "command_of (hash Z) msg = Some (Publish a hs ms)"
    and "sessions (broker_of Z s) r = Some (Some ident)"
    and "vprintf Z ident = Some i" and "vprintf Z a = Some a'"
  shows "\<exists>s' wires. s_server_client_message Z n input s = Inr (0, s') \<and> broker_of Z s' = broker_of Z s
    \<and> out s' = out s @ wires
    \<and> (\<forall>w \<in> set wires. carries Z (hd w, Deliver i a' Map.empty ms) w)
    \<and> (\<forall>q. count_list (map hd wires) q = (if q = r then 0
          else card {e. \<exists>rs. (e, rs) \<in> set (table (broker_of Z s)) \<and> rex_matches Z (rex_new Z e) a \<and> q \<in> set rs}))"
proof -
  let ?B = "broker_of Z s" and ?T = "table (broker_of Z s)"
  let ?outs = "map (\<lambda>q. (q, Deliver i a' Map.empty ms)) (recipients Z ?B r a)"
  obtain res where res: "s_server_client_message Z n input s = rbind res (\<lambda>s. Inr (0, s))"
    "implements Z s res (broker_step Z ?B r (Publish a hs ms))"
    using client_message [OF assms(1-6)] by auto
  have "broker_step Z ?B r (Publish a hs ms) = Inr (?B, ?outs)"
    using assms(7-9) by (simp add: broker_step_def)
  then have "implements Z s res (Inr (?B, ?outs))" using res(2) by (simp only:)
  from implements_run [OF res(1) this] obtain s' wires where run: "s_server_client_message Z n input s = Inr (0, s')" "broker_of Z s' = ?B"
      "out s' = out s @ wires" and wires: "list_all2 (carries Z) ?outs wires"
    by blast
  have heads: "map hd wires = qs \<and> (\<forall>w \<in> set wires. carries Z (hd w, cmd) w)"
    if "list_all2 (carries Z) (map (\<lambda>q. (q, cmd)) qs) wires" for qs wires cmd
    using that by (induction qs arbitrary: wires) (auto simp: list_all2_Cons1 carries_def)
  have ok: "distinct (map fst ?T)" "\<forall>(e, rs) \<in> set ?T. distinct rs"
    using table_distinct [OF assms(2)] by auto
  have "count_list (recipients Z ?B r a) q = (if q = r then 0
      else card {e. \<exists>rs. (e, rs) \<in> set ?T \<and> rex_matches Z (rex_new Z e) a \<and> q \<in> set rs})" for q
    using count_recipients [OF ok] by (simp add: recipients_def)
  with run heads [OF wires] show ?thesis by auto
qed

theorem publish_deliveries_witness:
  "\<exists>s' wires. s_server_client_message ref_czmq 3 (publish_from 2 [99, 112, 117]) demo = Inr (0, s')
    \<and> out s' = wires \<and> count_list (map hd wires) [2] = 0 \<and> count_list (map hd wires) [1] = 2"
proof -
  have "{e. \<exists>rs. (e, rs) \<in> set (table (broker_of ref_czmq demo))
      \<and> rex_matches ref_czmq (rex_new ref_czmq e) [99, 112, 117] \<and> [1] \<in> set rs} = {[99], [99, 112]}"
    by (auto simp: demo_broker) (simp_all add: ref_czmq_def)
  then have card: "card {e. \<exists>rs. (e, rs) \<in> set (table (broker_of ref_czmq demo))
      \<and> rex_matches ref_czmq (rex_new ref_czmq e) [99, 112, 117] \<and> [1] \<in> set rs} = 2"
    by (simp only:) simp
  have v: "vprintf ref_czmq [66] = Some [66]" "vprintf ref_czmq [99, 112, 117] = Some [99, 112, 117]"
    by (simp_all add: ref_czmq_def)
  obtain s' wires where "s_server_client_message ref_czmq 3 (publish_from 2 [99, 112, 117]) demo = Inr (0, s')"
    and "out s' = out demo @ wires" and count: "\<forall>q. count_list (map hd wires) q = (if q = [2] then 0
      else card {e. \<exists>rs. (e, rs) \<in> set (table (broker_of ref_czmq demo))
      \<and> rex_matches ref_czmq (rex_new ref_czmq e) [99, 112, 117] \<and> q \<in> set rs})"
    using publish_deliveries [OF ref_lib.czmq_api_axioms demo_ok order.refl published_recv published_rid
        published_command demo_broker(3) v] by blast
  moreover have "count_list (map hd wires) [2] = 0" "count_list (map hd wires) [1] = 2"
    using count card by simp_all
  ultimately show ?thesis by auto
qed

text \<open>
  C11: in every state that the reactor can reach, the table of clients and the client contexts
  correspond, every subscription list holds, without repetition, live and greeted clients only, every
  client has exactly its expiry timer running, no timer refers to a client that is gone, all mailboxes
  are empty, and no two patterns have the same expression.  The two sockets are polled by their handlers,
  and every log prefix fits its buffer.
\<close>

theorem reachable_invariant:
  assumes "czmq_api Z" and "3 \<le> n" and "server_reachable Z n s"
  shows "server_ok Z s"
  by (rule reachable_server_ok [OF assms(3,1,2)])

theorem reachable_invariant_witness: "server_ok ref_czmq started"
  by (rule reachable_invariant [OF ref_lib.czmq_api_axioms order.refl started_reachable])

text \<open>
  C13: from a reachable state, no event of the reactor makes the broker access a client context or a
  request that was freed, fail an assertion, change the list of patterns during its traversal, or loop.
  What can go wrong is a format directive in an identifier or an address, the name table of a verbose
  server, and a malformed command of the owner.
\<close>

theorem broker_faults:
  assumes "czmq_api Z" and "3 \<le> n" and "server_reachable Z n s" and "may_happen e s"
    and "handle_event Z n e s = Inl f"
  shows "f = Format_undefined \<or> (f = Name_table_overrun \<and> verbose s) \<or> f = Null_pointer \<and> (\<exists>E input. e = Pipe_ready E input)"
proof -
  have ok: "server_ok Z s" by (rule reachable_server_ok [OF assms(3,1,2)])
  show ?thesis
  proof (cases e)
    case (Router_ready input)
    then show ?thesis using assms(5) message_faults [OF assms(1) ok assms(2)] by (simp add: dispatch [OF ok])
  next
    case (Pipe_ready E input)
    then show ?thesis using assms(5) api_faults by (auto simp: dispatch [OF ok])
  next
    case (Timer_expired E t)
    then have t: "t \<in> set (loop s)" using assms(4) by (simp add: may_happen_def)
    have "timers_ok s" using ok by (simp add: server_ok_def)
    then have "tm_handler t \<noteq> s_client_handle_wakeup_fn p" for p using t by (auto simp: timers_ok_def)
    moreover have "timer_handler Z E n (s_client_handle_timeout_fn p) s \<noteq> Inl f"
      if p: "tm_handler t = s_client_handle_timeout_fn p" for p
    proof -
      have n: "0 < n" using assms(2) by simp
      obtain s' where "s_client_handle_timeout Z n p s = Inr (0, s')"
        by (rule timeout_fires [OF assms(1) ok n t p])
      then show ?thesis by (simp add: timer_handler_def)
    qed
    moreover have "s_watch_server_config E s \<noteq> Inl f"
      by (auto simp: s_watch_server_config_def Let_def split: option.split)
    ultimately show ?thesis
      using assms(5) Timer_expired
      by (cases "tm_handler t") (auto simp: handle_event_def rbind_Inl_iff timer_handler_def)
  qed
qed

theorem broker_faults_witness:
  "handle_event ref_czmq 3 (Pipe_ready ref_env (Some [])) started = Inl Null_pointer \<and> Null_pointer \<noteq> Use_after_free"
proof -
  have h: "handle_event ref_czmq 3 (Pipe_ready ref_env (Some [])) started = Inl Null_pointer"
    by (simp add: dispatch [OF started_ok] s_server_api_message_def zmsg_popstr_def)
  have "may_happen (Pipe_ready ref_env (Some [])) started" by (simp add: may_happen_def)
  from broker_faults [OF ref_lib.czmq_api_axioms order.refl started_reachable this h] h show ?thesis by simp
qed

text \<open>
  A verbose broker reads \<open>s_event_name [-1]\<close> when a peer sends a command that only servers send,
  or PING: the event of such a message is the termination event, which has no name.
\<close>

theorem verbose_overrun:
  assumes "czmq_api Z" and "server_ok Z s" and "3 \<le> n" and "verbose s"
    and "zccp_msg_recv (hash Z) True input = Some msg"
    and "msg_id msg \<notin> {ZCCP_MSG_HELLO, ZCCP_MSG_SUBSCRIBE, ZCCP_MSG_PUBLISH, ZCCP_MSG_DIRECT, ZCCP_MSG_GOODBYE}"
  shows "s_server_client_message Z n input s = Inl Name_table_overrun"
proof -
  have "zhash_api (hash Z)" using assms(1) by (simp add: czmq_api_def)
  from recv_complete [OF this assms(5)] obtain r cmd where
    r: "routing_id msg = Some r" "command_of (hash Z) msg = Some cmd" by auto
  have "command_event cmd = s_protocol_event msg" by (rule protocol_event_command [OF r(2), symmetric])
  also have "\<dots> = terminate_event" using assms(6) by (simp add: s_protocol_event_def zccp_msg_id_def)
  finally show ?thesis using client_message [OF assms(1-3,5) r] assms(4) by auto
qed

theorem verbose_overrun_witness:
  "s_server_client_message ref_czmq 3 (ping_ok_from 1) (demo\<lparr>verbose := True\<rparr>) = Inl Name_table_overrun"
proof (rule verbose_overrun [OF ref_lib.czmq_api_axioms _ order.refl _ ping_ok_recv])
  show "server_ok ref_czmq (demo\<lparr>verbose := True\<rparr>)"
    using same_clients_ok(1) [of demo "demo\<lparr>verbose := True\<rparr>" ref_czmq] demo_ok by (simp add: same_clients_def)
qed (simp_all add: ping_ok_received_def zccp_msg_new_def)

text \<open>
  C33: a message that does not decode, from whatever peer, stops the broker: the callback reports the
  null message as an interrupt, and the reactor handles no further event.
\<close>

theorem malformed_stops_broker:
  assumes "server_ok Z s" and "zccp_msg_recv (hash Z) True input = None"
  shows "s_server_client_message Z n input s = Inr (-1, s)
    \<and> zloop_run Z n (Router_ready input # events) s = Inr (False, s)"
  using assms(2) by (simp add: s_server_client_message_def dispatch [OF assms(1)])

theorem malformed_stops_broker_witness:
  "zloop_run ref_czmq 3 [Router_ready (Some [[1], [0xAA, 0xAA, 13]]), Router_ready (publish_from 2 [99])] demo
     = Inr (False, demo)"
proof -
  have "zccp_msg_recv (hash ref_czmq) True (Some [[1], [0xAA, 0xAA, 13]]) = None" by code_simp
  then show ?thesis using malformed_stops_broker [OF demo_ok] by blast
qed

text \<open>
  C18: the result of the callback for client messages does not depend on the fuel, once there are
  three units of it, and the fuel is not exhausted then: every run of the state machine ends.
\<close>

theorem message_terminates:
  assumes "czmq_api Z" and "server_ok Z s" and "3 \<le> n"
  shows "s_server_client_message Z n input s = s_server_client_message Z 3 input s
    \<and> s_server_client_message Z n input s \<noteq> Inl Fuel_exhausted"
proof -
  have "s_server_client_message Z k input s \<noteq> Inl Fuel_exhausted" if "3 \<le> k" for k
    using message_faults [OF assms(1,2) that, of input Fuel_exhausted] by auto
  then show ?thesis using stable_message [OF assms(3), of Z input s] assms(3) by (simp add: stable_def)
qed

theorem message_terminates_witness:
  "s_server_client_message ref_czmq 100 (hello_from 1) demo = s_server_client_message ref_czmq 3 (hello_from 1) demo"
  using message_terminates [OF ref_lib.czmq_api_axioms demo_ok, of 100 "hello_from 1"] by simp

text \<open>
  A subscription to an expression is acknowledged and recorded once; repeating it is acknowledged
  again and changes nothing.
\<close>

theorem subscribe_idempotent:
  assumes "czmq_api Z" and "server_ok Z s" and "3 \<le> n"
    and "zccp_msg_recv (hash Z) True input = Some msg" and "routing_id msg = Some r"
    and "command_of (hash Z) msg = Some (Subscribe e hs)"
    and "sessions (broker_of Z s) r = Some (Some ident)"
  shows "\<exists>s1 s2 w1 w2. zloop_run Z n [Router_ready input] s = Inr (True, s1)
    \<and> zloop_run Z n [Router_ready input, Router_ready input] s = Inr (True, s2)
    \<and> (\<exists>rs. (e, rs) \<in> set (table (broker_of Z s1)) \<and> r \<in> set rs) \<and> broker_of Z s2 = broker_of Z s1
    \<and> out s2 = out s @ [w1, w2] \<and> carries Z (r, Subscribe_ok) w1 \<and> carries Z (r, Subscribe_ok) w2"
proof -
  have step: "\<exists>s' w. s_server_client_message Z n input s = Inr (0, s') \<and> server_ok Z s'
      \<and> broker_of Z s' = (broker_of Z s)\<lparr>table := subscribe_table e r (table (broker_of Z s))\<rparr>
      \<and> out s' = out s @ [w] \<and> carries Z (r, Subscribe_ok) w"
    if ok: "server_ok Z s" and session: "sessions (broker_of Z s) r = Some (Some ident)" for s
  proof -
    obtain res where res: "s_server_client_message Z n input s = rbind res (\<lambda>s. Inr (0, s))"
      "implements Z s res (broker_step Z (broker_of Z s) r (Subscribe e hs))"
      using client_message [OF assms(1) ok assms(3-6)] by auto
    have "broker_step Z (broker_of Z s) r (Subscribe e hs) =
        Inr ((broker_of Z s)\<lparr>table := subscribe_table e r (table (broker_of Z s))\<rparr>, [(r, Subscribe_ok)])"
      by (simp add: broker_step_def session)
    with implements_run [OF res(1)] res(2) show ?thesis by (fastforce simp: list_all2_Cons1)
  qed
  obtain s1 w1 where s1: "s_server_client_message Z n input s = Inr (0, s1)" "server_ok Z s1"
      "broker_of Z s1 = (broker_of Z s)\<lparr>table := subscribe_table e r (table (broker_of Z s))\<rparr>"
      "out s1 = out s @ [w1]" "carries Z (r, Subscribe_ok) w1"
    using step [OF assms(2,7)] by blast
  have "sessions (broker_of Z s1) r = Some (Some ident)" by (simp add: s1(3) assms(7))
  from step [OF s1(2) this] obtain s2 w2 where s2: "s_server_client_message Z n input s1 = Inr (0, s2)"
      "broker_of Z s2 = (broker_of Z s1)\<lparr>table := subscribe_table e r (table (broker_of Z s1))\<rparr>"
      "out s2 = out s1 @ [w2]" "carries Z (r, Subscribe_ok) w2"
    by blast
  have idem: "subscribe_table e r (subscribe_table e r T) = subscribe_table e r T" for T
    by (induction T) auto
  have mem: "\<exists>rs. (e, rs) \<in> set (subscribe_table e r T) \<and> r \<in> set rs" for T
    by (induction e r T rule: subscribe_table.induct) (auto; metis)+
  have "broker_of Z s2 = broker_of Z s1" by (simp add: s2(2) s1(3) idem)
  moreover have "\<exists>rs. (e, rs) \<in> set (table (broker_of Z s1)) \<and> r \<in> set rs" by (simp add: s1(3) mem)
  ultimately show ?thesis using s1 s2 by (simp add: dispatch [OF assms(2)] dispatch [OF s1(2)])
qed

theorem subscribe_idempotent_witness:
  "\<exists>s2. zloop_run ref_czmq 3 [Router_ready (subscribe_from 1 [100]), Router_ready (subscribe_from 1 [100])] demo
      = Inr (True, s2) \<and> length (out s2) = 2"
  using subscribe_idempotent [OF ref_lib.czmq_api_axioms demo_ok order.refl subscribe_recv subscribe_facts demo_broker(2)]
  by force

text \<open>
  C23: when the expiry timer of a client runs out, the client is gone: its session and all its
  subscriptions are dropped, its context is freed, and neither the table of clients, nor a subscription
  list, nor a timer refers to it any more.  Nothing is sent to it.
\<close>

theorem expired_client_gone:
  assumes "czmq_api Z" and "server_ok Z s" and "0 < n" and "t \<in> set (loop s)"
    and "tm_handler t = s_client_handle_timeout_fn p"
  shows "\<exists>c s'. heap s p = Some c \<and> s_client_handle_timeout Z n p s = Inr (0, s')
    \<and> broker_of Z s' = leave (client_routing_id c) (broker_of Z s) \<and> out s' = out s
    \<and> heap s' = (heap s)(p := None) \<and> p \<notin> ran (clients s')
    \<and> (\<forall>pat \<in> set (patterns s'). p \<notin> set (pat_clients pat))
    \<and> (\<forall>t' \<in> set (loop s'). tm_handler t' \<noteq> s_client_handle_timeout_fn p)"
proof -
  obtain c where c: "heap s p = Some c" and run: "s_client_handle_timeout Z n p s = Inr (0, without_client p s)"
    and ok: "server_ok Z (without_client p s)"
    and B: "broker_of Z (without_client p s) = leave (client_routing_id c) (broker_of Z s)"
    by (rule timeout_fires [OF assms])
  note f = without_client_fields [OF c]
  have gone: "heap (without_client p s) p = None" by (simp add: f(1))
  have "p \<notin> ran (clients (without_client p s))"
    using gone server_ok_key [OF ok] by (force simp: ran_def)
  moreover have "p \<notin> set (pat_clients pat)" if "pat \<in> set (patterns (without_client p s))" for pat
    using gone live_client [OF ok that] by force
  moreover have "tm_handler t' \<noteq> s_client_handle_timeout_fn p" if "t' \<in> set (loop (without_client p s))" for t'
    using gone ok that client_of_timer [of "without_client p s" t' p] by (force simp: server_ok_def)
  ultimately show ?thesis using c run B f by auto
qed

theorem expired_client_gone_witness:
  "\<exists>s'. s_client_handle_timeout ref_czmq 1 0 demo = Inr (0, s') \<and> heap s' 0 = None
    \<and> sessions (broker_of ref_czmq s') [1] = None"
  using expired_client_gone [OF ref_lib.czmq_api_axioms demo_ok, of 1 "demo_timer 0 2" 0]
  by (auto simp: demo_timer_def leave_def)

text \<open>
  C38: destroying the server, in whatever order the hash table is emptied, frees every client without
  touching a freed one.
\<close>

theorem server_destroy_clean:
  assumes "server_ok Z s" and "set (order (dom (clients s))) = dom (clients s)"
  shows "\<exists>s'. s_server_destroy order s = Inr s' \<and> heap s' = Map.empty \<and> clients s' = Map.empty \<and> patterns s' = []"
  using assms by (rule server_destroyed)

theorem server_destroy_clean_witness:
  "\<exists>s'. s_server_destroy (\<lambda>K. [[48, 50], [48, 49]]) demo = Inr s' \<and> heap s' = Map.empty"
  using server_destroy_clean [OF demo_ok, of "\<lambda>K. [[48, 50], [48, 49]]"] by auto

text \<open>
  C39: a CONFIGURE command whose file cannot be loaded leaves the application's pointer to the
  configuration dangling: the engine replaces the configuration object it freed, but only a
  successful load updates \<open>server->config\<close>.
\<close>

theorem configure_dangling:
  assumes "zmsg_popstr msg = (Some (lit ''CONFIGURE''), rest_msg)" and "fst (zmsg_popstr rest_msg) = Some file"
    and "srv_config s = fst (config s)" and "fst (config s) < next_serial s"
  shows "\<exists>s'. s_server_api_message E (Some msg) s = Inr (0, s')
    \<and> (srv_config s' = fst (config s') \<longleftrightarrow> zc_load E file \<noteq> None)"
proof -
  have ne: "lit ''CONFIGURE'' \<noteq> lit ''VERBOSE''" "lit ''CONFIGURE'' \<noteq> lit ''$TERM''"
    "lit ''CONFIGURE'' \<noteq> lit ''BIND''" "lit ''CONFIGURE'' \<noteq> lit ''PORT''"
    by code_simp+
  show ?thesis using assms
    by (cases "zc_load E file") (simp_all add: s_server_api_message_def ne Let_def set_config_def
        s_server_apply_config_def s_server_config_self_def)
qed

theorem configure_dangling_witness:
  "\<exists>s'. s_server_api_message ref_env (Some [lit ''CONFIGURE'', lit ''a'']) started = Inr (0, s')
    \<and> srv_config s' \<noteq> fst (config s')"
proof -
  have p: "zmsg_popstr [lit ''CONFIGURE'', lit ''a''] = (Some (lit ''CONFIGURE''), [lit ''a''])"
    "fst (zmsg_popstr [lit ''a'']) = Some (lit ''a'')"
    by code_simp+
  have "srv_config started = fst (config started)" "fst (config started) < next_serial started"
    by (simp_all add: started_def zccp_server_start_def engine_set_monitor_def engine_handle_socket_def s_server_new_def zloop_timer_def
        server_initialize_def s_server_config_self_def Let_def ref_czmq_def next_timer_def)
  from configure_dangling [OF p this, of ref_env] show ?thesis by (simp add: ref_env_def)
qed

text \<open>The endpoints to which a socket is bound after it is bound to \<open>eps\<close>, one after the other.\<close>

definition bound_to :: "'c zenv \<Rightarrow> cstr list \<Rightarrow> cstr list \<Rightarrow> cstr list" where
  "bound_to E eps bs = fold (\<lambda>e bs. if zs_bind E bs e = -1 then bs else bs @ [e]) eps bs"

text \<open>What the sections of a configuration do.\<close>

lemma sections_applied:
  "endpoints (fold (apply_section E) secs s) = bound_to E
     (map (\<lambda>x. zc_resolve E x (lit ''endpoint'') (lit ''?'')) (filter (\<lambda>x. zc_name E x = lit ''bind'') secs)) (endpoints s)"
  "notices (fold (apply_section E) secs s)
     = notices s @ map (zc_value E) (filter (\<lambda>x. zc_name E x = lit ''echo'') secs)"
  "port (fold (apply_section E) secs s) = port s" "s_server_t.config (fold (apply_section E) secs s) = s_server_t.config s"
  "s_server_t.verbose (fold (apply_section E) secs s) = s_server_t.verbose s"
proof (induction secs arbitrary: s)
  case (Cons x secs)
  have "lit ''echo'' \<noteq> lit ''bind''" by (simp add: lit_eq_iff)
  { case 1 show ?case using Cons.IH(1) [of "apply_section E x s"] \<open>lit ''echo'' \<noteq> lit ''bind''\<close>
      by (simp add: apply_section_def bind_router_def bound_to_def) }
  { case 2 show ?case using Cons.IH(2) [of "apply_section E x s"] by (simp add: apply_section_def bind_router_def) }
  { case 3 show ?case using Cons.IH(3) [of "apply_section E x s"] by (simp add: apply_section_def bind_router_def) }
  { case 4 show ?case using Cons.IH(4) [of "apply_section E x s"] by (simp add: apply_section_def bind_router_def) }
  { case 5 show ?case using Cons.IH(5) [of "apply_section E x s"] by (simp add: apply_section_def bind_router_def) }
qed (simp_all add: bound_to_def)

text \<open>
  C40: a CONFIGURE command whose file is loaded replaces the configuration, prints the values of the echo
  sections and binds the endpoints of the bind sections, each in the order of the file, those that can be
  bound with those bound before; it can turn verbosity on but not off, and it does not change what a
  PORT command answers.
\<close>

theorem configure_applies:
  assumes "zmsg_popstr msg = (Some (lit ''CONFIGURE''), rest_msg)" and "fst (zmsg_popstr rest_msg) = Some file"
    and "zc_load E file = Some cfg" and "zc_locate E cfg (lit ''zccp_server'') = Some sec"
  shows "\<exists>s'. s_server_api_message E (Some msg) s = Inr (0, s')
    \<and> s_server_t.config s' = (next_serial s, cfg) \<and> srv_config s' = next_serial s
    \<and> notices s' = notices s @ map (zc_value E) (filter (\<lambda>x. zc_name E x = lit ''echo'') (zc_children E sec))
    \<and> endpoints s' = bound_to E (map (\<lambda>x. zc_resolve E x (lit ''endpoint'') (lit ''?''))
        (filter (\<lambda>x. zc_name E x = lit ''bind'') (zc_children E sec))) (endpoints s)
    \<and> port s' = port s
    \<and> (s_server_t.verbose s' \<longleftrightarrow> s_server_t.verbose s \<or> atol (zc_resolve E cfg (lit ''server/verbose'') (lit ''0'')) \<noteq> 0)"
proof -
  have "lit ''CONFIGURE'' \<noteq> lit ''VERBOSE''" "lit ''CONFIGURE'' \<noteq> lit ''$TERM''"
    "lit ''CONFIGURE'' \<noteq> lit ''BIND''" "lit ''CONFIGURE'' \<noteq> lit ''PORT''"
    by (simp_all add: lit_eq_iff)
  with assms show ?thesis
    by (simp add: s_server_api_message_def Let_def set_config_def s_server_apply_config_def
        s_server_config_self_def sections_applied)
qed

text \<open>
  A configuration file with an echo section and three bind sections: the second repeats the endpoint of
  the first, and the third cannot be bound.
\<close>

definition sections_env :: "nat zenv" where
  "sections_env = \<lparr>zc_new = 0, zc_resolve = (\<lambda>c p d. if p = lit ''endpoint'' then [of_nat c] else d),
     zc_put = (\<lambda>c p v. c), zc_locate = (\<lambda>c p. if p = lit ''zccp_server'' then Some 1 else None),
     zc_children = (\<lambda>c. [2, 3, 3, 4]), zc_name = (\<lambda>c. if c = 2 then lit ''echo'' else lit ''bind''),
     zc_value = (\<lambda>c. Some [33]), zc_load = (\<lambda>f. Some 0),
     zc_has_changed = (\<lambda>c. False), zc_reload = (\<lambda>c. None), zs_bind = (\<lambda>bs e. if e = [4] \<or> e \<in> set bs then -1 else 9000)\<rparr>"

theorem configure_applies_witness:
  "\<exists>s'. s_server_api_message sections_env (Some [lit ''CONFIGURE'', lit ''a'']) (s_server_new ref_czmq sections_env 7) = Inr (0, s')
    \<and> notices s' = [Some [33]] \<and> endpoints s' = [[3]] \<and> port s' = 0"
proof -
  have p: "zmsg_popstr [lit ''CONFIGURE'', lit ''a''] = (Some (lit ''CONFIGURE''), [lit ''a''])"
    "fst (zmsg_popstr [lit ''a'']) = Some (lit ''a'')"
    by code_simp+
  have "zc_load sections_env (lit ''a'') = Some 0" "zc_locate sections_env 0 (lit ''zccp_server'') = Some 1"
    by (simp_all add: sections_env_def)
  from configure_applies [OF p this, of "s_server_new ref_czmq sections_env 7"] show ?thesis
    by (auto simp: sections_env_def bound_to_def lit_eq_iff s_server_new_def server_initialize_def s_server_config_self_def Let_def)
qed

text \<open>
  C27: the self test of the broker passes, quiet or verbose, on every library whose regular expressions
  find \<open>H.*O\<close> and \<open>HELLO\<close> in the address of the test, and where its endpoint can be bound; the broker
  shuts down at its end without touching freed memory, in whatever order the hash table is emptied.
\<close>

theorem server_selftest_passes:
  assumes "czmq_api Z" and "3 \<le> n" and "device \<noteq> client" and "zs_bind E [] (lit ''ipc://@/zccp_server'') \<noteq> -1"
    and "rex_matches Z (rex_new Z (lit ''H.*O'')) (lit ''(HELLO, WORLD)'')"
    and "rex_matches Z (rex_new Z (lit ''HELLO'')) (lit ''(HELLO, WORLD)'')"
    and "\<And>K. finite K \<Longrightarrow> set (order K) = K"
  shows "zccp_server_test Z E random n order client device verb = Inr ()"
  using assms by (rule server_test_passes)

text \<open>
  A library that searches for expressions made of characters, dots, stars and characters after a
  backslash, anywhere or, after a caret, at the start.
\<close>

fun match_at :: "cstr \<Rightarrow> cstr \<Rightarrow> bool" where
  "match_at [] s = True"
| "match_at (c # re) [] = (if re \<noteq> [] \<and> hd re = 42 then match_at (tl re) [] else False)"
| "match_at (c # re) (d # s) =
     (if re \<noteq> [] \<and> hd re = 42 then
        (if c = 46 \<or> c = d then match_at (c # re) s \<or> match_at (tl re) (d # s) else match_at (tl re) (d # s))
      else if c = 92 then (re \<noteq> [] \<and> hd re = d \<and> match_at (tl re) s)
      else if c = 46 \<or> c = d then match_at re s else False)"

fun search_for :: "cstr \<Rightarrow> cstr \<Rightarrow> bool" where
  "search_for e [] = match_at e []"
| "search_for e (c # s) = (match_at e (c # s) \<or> search_for e s)"

definition search_czmq :: "((cstr \<times> cstr) list, cstr) czmq" where
  "search_czmq = ref_czmq\<lparr>rex_matches := (\<lambda>e s. if e \<noteq> [] \<and> hd e = 94 then match_at (tl e) s else search_for e s)\<rparr>"

lemma search_laws: "czmq_api search_czmq"
  using ref_lib.czmq_api_axioms by (simp add: czmq_api_def czmq_api_axioms_def search_czmq_def)

lemma search_finds:
  "rex_matches search_czmq (rex_new search_czmq (lit ''H.*O'')) (lit ''(HELLO, WORLD)'')"
  "rex_matches search_czmq (rex_new search_czmq (lit ''HELLO'')) (lit ''(HELLO, WORLD)'')"
  by (simp_all add: search_czmq_def ref_czmq_def lit_simps)

theorem server_selftest_passes_witness:
  "zccp_server_test search_czmq ref_env 7 3 sorted_list_of_set [1] [2] True = Inr ()"
  by (rule server_selftest_passes [OF search_laws _ _ _ search_finds]) (simp_all add: ref_env_def)

end
