(* ===== verification/Client_State.thy ===== *)
theory Client_State
  imports Engine_Base
begin

text \<open>
  The state of the client (\<^verbatim>\<open>src/zccp_client.c\<close>, \<^verbatim>\<open>src/zccp_client_engine.inc\<close>): the context of
  the application level, embedded at the start of the context of the engine, and what the client has
  done to the world: the messages it has sent on its dealer socket (\<open>sent\<close>), the endpoints it has been
  connected to (\<open>connections\<close>) and the messages it has sent to its owner on the pipe (\<open>pipe_out\<close>).

  There is one object only, so that the model passes it as a value.  Its \<open>endpoint\<close> is a heap
  string; \<open>None\<close> stands for a pointer that was freed and not assigned again, \<open>Some None\<close> for the null
  pointer.
\<close>

section \<open>States and events\<close>

datatype state_t =
    start_state
  | connecting_state
  | connected_state
  | subscribing_state
  | disconnecting_state
  | defaults_state
  | reconnecting_state

datatype event_t =
    NULL_event
  | connect_event
  | hello_ok_event
  | expired_event
  | subscribe_event
  | publish_event
  | direct_event
  | deliver_event
  | ping_event
  | close_connection_event
  | error_event
  | subscribe_ok_event
  | goodbye_ok_event
  | invalid_event

fun state_index :: "state_t \<Rightarrow> int" where
  "state_index start_state = 1"
| "state_index connecting_state = 2"
| "state_index connected_state = 3"
| "state_index subscribing_state = 4"
| "state_index disconnecting_state = 5"
| "state_index defaults_state = 6"
| "state_index reconnecting_state = 7"

fun event_index :: "event_t \<Rightarrow> int" where
  "event_index NULL_event = 0"
| "event_index connect_event = 1"
| "event_index hello_ok_event = 2"
| "event_index expired_event = 3"
| "event_index subscribe_event = 4"
| "event_index publish_event = 5"
| "event_index direct_event = 6"
| "event_index deliver_event = 7"
| "event_index ping_event = 8"
| "event_index close_connection_event = 9"
| "event_index error_event = 10"
| "event_index subscribe_ok_event = 11"
| "event_index goodbye_ok_event = 12"
| "event_index invalid_event = 13"

definition s_state_name :: "string list" where
  "s_state_name = [''(NONE)'', ''start'', ''connecting'', ''connected'', ''subscribing'',
     ''disconnecting'', ''defaults'', ''reconnecting'']"

definition s_event_name :: "string list" where
  "s_event_name = [''(NONE)'', ''connect'', ''HELLO_OK'', ''expired'', ''SUBSCRIBE'', ''PUBLISH'',
     ''DIRECT'', ''DELIVER'', ''PING'', ''close_connection'', ''error'', ''SUBSCRIBE_OK'',
     ''GOODBYE_OK'', ''INVALID'']"

text \<open>Unlike those of the broker, the tables have a name for every state and every event.\<close>

lemma client_name_of_state: "\<exists>n. name_at s_state_name (state_index st) = Inr n"
  by (cases st) (simp_all add: name_at_def s_state_name_def)

lemma client_name_of_event: "\<exists>n. name_at s_event_name (event_index ev) = Inr n"
  by (cases ev) (simp_all add: name_at_def s_event_name_def)

section \<open>Contexts\<close>

record 'h client_t =
  msgout :: "'h zccp_msg"
  msgin :: "'h zccp_msg option"
  endpoint :: "cstr option option"
  connect_timeout :: int
  presence_timeout :: int

datatype timer_fn = s_client_handle_timeout_fn | s_client_handle_wakeup_fn

datatype zsock = pipe_socket | dealer_socket

datatype reader_fn = s_client_handle_pipe_fn | s_client_handle_protocol_fn

record 'h s_client_t = "'h client_t" +
  pipe_in :: zsock_in
  pipe_out :: "zmsg list"
  connections :: "cstr option list"
  sent :: "zmsg list"
  loop :: "timer_fn timer list"                  \<comment> \<open>the timers of the reactor\<close>
  readers :: "(zsock \<times> reader_fn) list"          \<comment> \<open>the sockets of the reactor\<close>
  terminated :: bool
  timeout :: "64 word"
  state :: state_t
  event :: event_t
  next_event :: event_t
  exception :: event_t
  expiry_timer :: int
  wakeup_timer :: int
  wakeup_event :: event_t
  verbose :: bool

type_synonym 'h action = "'h s_client_t \<Rightarrow> 'h s_client_t result"

text \<open>
  What the client asks of its environment: the result of connecting the dealer socket to an
  endpoint, and what \<open>zsock_recv\<close> stores for a number that the message lacks.  The model makes no
  assumption on either.
\<close>

record client_env =
  zs_connect :: "cstr option \<Rightarrow> int"              \<comment> \<open>\<open>zsock_connect (dealer, "%s", endpoint)\<close>\<close>
  missing_number :: "int result"

text \<open>A frame read as \<open>s\<close> and as \<open>i\<close> by \<open>zsock_recv\<close>; \<open>zsock_send\<close> of \<open>s\<close> and of \<open>i\<close>.\<close>

definition recv_string :: "zmsg \<Rightarrow> cstr option \<times> zmsg" where
  "recv_string msg = zmsg_popstr msg"

definition recv_number :: "client_env \<Rightarrow> zmsg \<Rightarrow> (int \<times> zmsg) result" where
  "recv_number E msg = (case zmsg_popstr msg of
      (None, msg) \<Rightarrow> rbind (missing_number E) (\<lambda>i. Inr (i, msg))
    | (Some s, msg) \<Rightarrow> Inr (atol s, msg))"

definition send_string :: "cstr option \<Rightarrow> frame result" where
  "send_string s = of_option Null_pointer s"

end
