(* ===== verification/Client_Actions.thy ===== *)
theory Client_Actions
  imports Client_State
begin

text \<open>
  The actions of the client, \<^verbatim>\<open>src/zccp_client.c\<close>, and the part of the engine's internal API
  (\<^verbatim>\<open>src/zccp_client_engine.inc\<close>) that they call.
\<close>

section \<open>The internal API\<close>

definition engine_set_next_event :: "event_t \<Rightarrow> 'h s_client_t \<Rightarrow> 'h s_client_t" where
  "engine_set_next_event ev s = s\<lparr>next_event := ev\<rparr>"

definition engine_set_exception :: "event_t \<Rightarrow> 'h s_client_t \<Rightarrow> 'h s_client_t" where
  "engine_set_exception ev s = s\<lparr>exception := ev\<rparr>"

definition engine_set_wakeup_event :: "('h, 'r) czmq \<Rightarrow> 64 word \<Rightarrow> event_t \<Rightarrow> 'h s_client_t \<Rightarrow> 'h s_client_t" where
  "engine_set_wakeup_event Z delay ev s =
     (let (i, ts) = zloop_timer Z delay 1 s_client_handle_wakeup_fn (end_timer (wakeup_timer s) (loop s))
      in s\<lparr>loop := ts, wakeup_timer := i, wakeup_event := ev\<rparr>)"

definition engine_set_timeout :: "int \<Rightarrow> 'h s_client_t \<Rightarrow> 'h s_client_t" where
  "engine_set_timeout t s = s\<lparr>timeout := word_of_int t\<rparr>"

text \<open>\<open>rc\<close> is the result of \<open>zloop_reader\<close>; \<open>None\<close> is the null handler, which ends the polling.\<close>

definition engine_handle_socket :: "int \<Rightarrow> zsock \<Rightarrow> reader_fn option \<Rightarrow> 'h action" where
  "engine_handle_socket rc sock handler s =
     (case handler of
        Some h \<Rightarrow> if rc = 0 then Inr (s\<lparr>readers := readers s @ [(sock, h)]\<rparr>) else Inl Assertion_failed
      | None \<Rightarrow> Inr (s\<lparr>readers := filter (\<lambda>(k, h). k \<noteq> sock) (readers s)\<rparr>))"

section \<open>Initialisation and termination\<close>

definition client_initialize :: "'h s_client_t \<Rightarrow> 'h s_client_t" where
  "client_initialize self = self\<lparr>presence_timeout := 3000\<rparr>"

text \<open>\<open>free (self->endpoint)\<close>\<close>

definition client_terminate :: "'h action" where
  "client_terminate self = rbind (of_option Use_after_free (endpoint self)) (\<lambda>_. Inr (self\<lparr>endpoint := None\<rparr>))"

section \<open>Methods of the owner\<close>

definition client_method :: "('h, 'r) czmq \<Rightarrow> client_env \<Rightarrow> cstr \<Rightarrow> 'h s_client_t
    \<Rightarrow> (event_t \<times> 'h s_client_t) result" where
  "client_method Z E method self =
     (if method = lit ''CONNECT'' then
        rbind (of_option Use_after_free (endpoint self)) (\<lambda>_.
        rbind (zmsg_recv (pipe_in self)) (\<lambda>(msg, p).
        case msg of
          None \<Rightarrow> Inr (connect_event, self\<lparr>pipe_in := p, endpoint := None\<rparr>)
        | Some msg \<Rightarrow>
            let (s, msg) = recv_string msg in
            rbind (recv_number E msg) (\<lambda>(i, msg).
            Inr (connect_event, self\<lparr>pipe_in := p, endpoint := Some s, connect_timeout := i\<rparr>))))
      else if method = lit ''SUBSCRIBE'' then
        rbind (zmsg_recv (pipe_in self)) (\<lambda>(msg, p).
        rbind (of_option Uninitialised msg) (\<lambda>msg.
        let (expr, msg) = recv_string msg in
        rbind (zccp_msg_set_expression Z (msgout self) expr) (\<lambda>m.
        Inr (subscribe_event, self\<lparr>pipe_in := p, msgout := m\<rparr>))))
      else if method = lit ''PUBLISH'' then
        rbind (zmsg_recv (pipe_in self)) (\<lambda>(msg, p).
        rbind (of_option Uninitialised msg) (\<lambda>msg.
        let (addr, msg) = recv_string msg; (cont, msg) = recv_string msg in
        rbind (zccp_msg_set_address Z (msgout self) addr) (\<lambda>m.
        rbind (of_option Null_pointer cont) (\<lambda>cont.
        Inr (publish_event, self\<lparr>pipe_in := p, msgout := zccp_msg_set_content m (Some [cont])\<rparr>)))))
      else Inr (NULL_event, self))"

section \<open>Actions\<close>

definition connect_to_server_endpoint :: "client_env \<Rightarrow> 'h action" where
  "connect_to_server_endpoint E self =
     rbind (of_option Use_after_free (endpoint self)) (\<lambda>e.
     Inr (if zs_connect E e \<noteq> 0 then engine_set_exception error_event self
          else self\<lparr>connections := connections self @ [e]\<rparr>))"

definition use_connect_timeout :: "'h action" where
  "use_connect_timeout self = Inr (engine_set_timeout (connect_timeout self) self)"

definition use_presence_timeout :: "'h action" where
  "use_presence_timeout self = Inr (engine_set_timeout (presence_timeout self) self)"

definition signal_success :: "'h action" where
  "signal_success self = Inr (self\<lparr>pipe_out := pipe_out self @ [[lit ''SUCCESS'', decimal 0]]\<rparr>)"

definition signal_server_not_present :: "'h action" where
  "signal_server_not_present self = Inr (self\<lparr>pipe_out := pipe_out self @
     [[lit ''FAILURE'', decimal (-1), lit ''Server is not reachable'']]\<rparr>)"

text \<open>\<open>zmsg_popstr\<close> takes the first frame out of the content of the message received.\<close>

definition deliver_message_to_application :: "'h action" where
  "deliver_message_to_application self =
     rbind (of_option Assertion_failed (msgin self)) (\<lambda>m.
     rbind (of_option Null_pointer (zccp_msg_content m)) (\<lambda>msg.
     let (text, msg) = zmsg_popstr msg; m = m\<lparr>content := Some msg\<rparr> in
     rbind (send_string (zccp_msg_sender m)) (\<lambda>sndr.
     rbind (send_string (zccp_msg_address m)) (\<lambda>addr.
     rbind (send_string text) (\<lambda>text.
     Inr (self\<lparr>msgin := Some m, pipe_out := pipe_out self @ [[lit ''MESSAGE'', sndr, addr, text]]\<rparr>))))))"

end
