(* ===== verification/Client_Engine.thy ===== *)
theory Client_Engine
  imports Client_Actions
begin

text \<open>
  The generated engine of the client, \<^verbatim>\<open>src/zccp_client_engine.inc\<close>: the state machine
  \<open>s_client_execute\<close> and the callbacks of its reactor.

  The \<open>while\<close> loop of \<open>s_client_execute\<close> needs no fuel: a turn leaves either no next event or the
  exception \<open>error_event\<close>, and a turn on that event leaves none.
\<close>

section \<open>Protocol events\<close>

definition s_protocol_event :: "'h zccp_msg \<Rightarrow> 'h s_client_t \<Rightarrow> event_t \<times> 'h s_client_t" where
  "s_protocol_event m self =
     (if zccp_msg_id m = ZCCP_MSG_HELLO_OK then (hello_ok_event, self)
      else if zccp_msg_id m = ZCCP_MSG_SUBSCRIBE then (subscribe_event, self)
      else if zccp_msg_id m = ZCCP_MSG_SUBSCRIBE_OK then (subscribe_ok_event, self)
      else if zccp_msg_id m = ZCCP_MSG_PUBLISH then (publish_event, self)
      else if zccp_msg_id m = ZCCP_MSG_DIRECT then (direct_event, self)
      else if zccp_msg_id m = ZCCP_MSG_DELIVER then (deliver_event, self)
      else if zccp_msg_id m = ZCCP_MSG_GOODBYE_OK then (goodbye_ok_event, self)
      else if zccp_msg_id m = ZCCP_MSG_PING then (ping_event, self)
      else if zccp_msg_id m = ZCCP_MSG_INVALID then (invalid_event, self)
      else (NULL_event, self\<lparr>terminated := True\<rparr>))"

section \<open>The state machine\<close>

text \<open>\<open>if (!self->exception) action\<close>\<close>

definition unless_exception :: "'h action \<Rightarrow> 'h action" where
  "unless_exception action s = (if exception s = NULL_event then action s else Inr s)"

definition send_msgout :: "('h, 'r) czmq \<Rightarrow> int \<Rightarrow> 'h action" where
  "send_msgout Z i s =
     rbind (zccp_msg_send Z (zccp_msg_set_id (msgout s) i) False) (\<lambda>wire.
     Inr (s\<lparr>msgout := zccp_msg_new 0, sent := sent s @ [wire]\<rparr>))"

definition set_state :: "state_t \<Rightarrow> 'h action" where
  "set_state st s = Inr (s\<lparr>state := st\<rparr>)"

definition terminate :: "'h action" where
  "terminate s = Inr (s\<lparr>terminated := True\<rparr>)"

definition hello_again :: "('h, 'r) czmq \<Rightarrow> 'h action" where
  "hello_again Z s =
     rbind (unless_exception use_connect_timeout s) (\<lambda>s.
     rbind (unless_exception (send_msgout Z ZCCP_MSG_HELLO) s) (\<lambda>s.
     unless_exception (set_state reconnecting_state) s))"

definition in_start_state :: "('h, 'r) czmq \<Rightarrow> client_env \<Rightarrow> event_t \<Rightarrow> 'h action" where
  "in_start_state Z E ev s =
     (if ev = connect_event then
        rbind (unless_exception (connect_to_server_endpoint E) s) (\<lambda>s.
        rbind (unless_exception use_connect_timeout s) (\<lambda>s.
        rbind (unless_exception (send_msgout Z ZCCP_MSG_HELLO) s) (\<lambda>s.
        unless_exception (set_state connecting_state) s)))
      else
        rbind (name_at s_event_name (event_index ev)) (\<lambda>_.
        rbind (name_at s_state_name (state_index (state s))) (\<lambda>_. Inl Assertion_failed)))"

definition in_connecting_state :: "('h, 'r) czmq \<Rightarrow> event_t \<Rightarrow> 'h action" where
  "in_connecting_state Z ev s =
     (if ev = hello_ok_event then
        rbind (unless_exception signal_success s) (\<lambda>s.
        rbind (unless_exception use_presence_timeout s) (\<lambda>s.
        unless_exception (set_state connected_state) s))
      else if ev = expired_event then
        rbind (unless_exception signal_server_not_present s) (unless_exception terminate)
      else if ev = invalid_event then hello_again Z s
      else Inr s)"

definition in_connected_state :: "('h, 'r) czmq \<Rightarrow> event_t \<Rightarrow> 'h action" where
  "in_connected_state Z ev s =
     (if ev = subscribe_event then
        rbind (unless_exception (send_msgout Z ZCCP_MSG_SUBSCRIBE) s) (\<lambda>s.
        unless_exception (set_state subscribing_state) s)
      else if ev = publish_event then unless_exception (send_msgout Z ZCCP_MSG_PUBLISH) s
      else if ev = direct_event then unless_exception (send_msgout Z ZCCP_MSG_DIRECT) s
      else if ev = deliver_event then unless_exception deliver_message_to_application s
      else if ev = ping_event then unless_exception (send_msgout Z ZCCP_MSG_PING_OK) s
      else if ev = close_connection_event then
        rbind (unless_exception (send_msgout Z ZCCP_MSG_GOODBYE) s) (\<lambda>s.
        unless_exception (set_state disconnecting_state) s)
      else if ev = error_event then unless_exception terminate s
      else if ev = expired_event then hello_again Z s
      else if ev = invalid_event then hello_again Z s
      else Inr s)"

definition in_subscribing_state :: "('h, 'r) czmq \<Rightarrow> event_t \<Rightarrow> 'h action" where
  "in_subscribing_state Z ev s =
     (if ev = subscribe_ok_event then
        rbind (unless_exception signal_success s) (\<lambda>s.
        unless_exception (set_state connected_state) s)
      else if ev = expired_event then hello_again Z s
      else if ev = invalid_event then hello_again Z s
      else Inr s)"

definition in_disconnecting_state :: "('h, 'r) czmq \<Rightarrow> event_t \<Rightarrow> 'h action" where
  "in_disconnecting_state Z ev s =
     (if ev = goodbye_ok_event then unless_exception terminate s
      else if ev = expired_event then unless_exception terminate s
      else if ev = invalid_event then hello_again Z s
      else Inr s)"

definition in_defaults_state :: "('h, 'r) czmq \<Rightarrow> event_t \<Rightarrow> 'h action" where
  "in_defaults_state Z ev s =
     (if ev = expired_event then hello_again Z s
      else if ev = invalid_event then hello_again Z s
      else Inr s)"

definition in_reconnecting_state :: "('h, 'r) czmq \<Rightarrow> event_t \<Rightarrow> 'h action" where
  "in_reconnecting_state Z ev s =
     (if ev = hello_ok_event then unless_exception (set_state connected_state) s
      else if ev = expired_event then hello_again Z s
      else if ev = invalid_event then hello_again Z s
      else Inr s)"

definition s_client_dispatch :: "('h, 'r) czmq \<Rightarrow> client_env \<Rightarrow> state_t \<Rightarrow> event_t \<Rightarrow> 'h action" where
  "s_client_dispatch Z E st ev s = (case st of
      start_state \<Rightarrow> in_start_state Z E ev s
    | connecting_state \<Rightarrow> in_connecting_state Z ev s
    | connected_state \<Rightarrow> in_connected_state Z ev s
    | subscribing_state \<Rightarrow> in_subscribing_state Z ev s
    | disconnecting_state \<Rightarrow> in_disconnecting_state Z ev s
    | defaults_state \<Rightarrow> in_defaults_state Z ev s
    | reconnecting_state \<Rightarrow> in_reconnecting_state Z ev s)"

text \<open>\<open>if (self->verbose) zsys_debug (\<dots>, table [i])\<close>\<close>

definition trace :: "string list \<Rightarrow> int \<Rightarrow> 'h action" where
  "trace table i s = (if verbose s then rbind (name_at table i) (\<lambda>_. Inr s) else Inr s)"

definition s_client_finish :: "'h action" where
  "s_client_finish s =
     (if exception s \<noteq> NULL_event then
        rbind (trace s_event_name (event_index (exception s)) s) (\<lambda>s.
        Inr (s\<lparr>next_event := exception s\<rparr>))
      else trace s_state_name (state_index (state s)) s)"

definition s_client_turn :: "('h, 'r) czmq \<Rightarrow> client_env \<Rightarrow> 'h action" where
  "s_client_turn Z E s =
     (let s = s\<lparr>event := next_event s, next_event := NULL_event, exception := NULL_event\<rparr> in
      rbind (trace s_state_name (state_index (state s)) s) (\<lambda>s.
      rbind (trace s_event_name (event_index (event s)) s) (\<lambda>s.
      rbind (s_client_dispatch Z E (state s) (event s) s) s_client_finish)))"

section \<open>Termination of the loop\<close>

text \<open>The log always finds a name.\<close>

lemma client_trace_state [simp]: "trace s_state_name (state_index st) s = Inr s"
  using client_name_of_state [of st] by (auto simp: trace_def)

lemma client_trace_event [simp]: "trace s_event_name (event_index ev) s = Inr s"
  using client_name_of_event [of ev] by (auto simp: trace_def)

lemma unless_exception_runs [simp]: "exception s = NULL_event \<Longrightarrow> unless_exception action s = action s"
  and unless_exception_skips [simp]: "exception s \<noteq> NULL_event \<Longrightarrow> unless_exception action s = Inr s"
  by (simp_all add: unless_exception_def)

lemma turn_closed:
  "s_client_turn Z E s =
     rbind (s_client_dispatch Z E (state s) (next_event s)
              (s\<lparr>event := next_event s, next_event := NULL_event, exception := NULL_event\<rparr>)) (\<lambda>s.
     Inr (if exception s \<noteq> NULL_event then s\<lparr>next_event := exception s\<rparr> else s))"
  unfolding s_client_turn_def Let_def
  by (simp, intro rbind_cong refl) (simp add: s_client_finish_def)

text \<open>An action that raises no exception and leaves the next event alone.\<close>

definition keeps_events :: "'h action \<Rightarrow> bool" where
  "keeps_events a \<longleftrightarrow> (\<forall>s s'. a s = Inr s' \<longrightarrow> next_event s' = next_event s \<and> exception s' = exception s)"

named_theorems keeps_intros \<open>actions that keep the events\<close>

lemma keeps_unless [keeps_intros]: "keeps_events a \<Longrightarrow> keeps_events (unless_exception a)"
  by (auto simp: keeps_events_def unless_exception_def)

lemma keeps_rbind [keeps_intros]:
  "keeps_events a \<Longrightarrow> keeps_events b \<Longrightarrow> keeps_events (\<lambda>s. rbind (a s) (\<lambda>s. b s))"
  by (auto simp: keeps_events_def rbind_Inr_iff)

lemma keeps_if [keeps_intros]: "keeps_events a \<Longrightarrow> keeps_events b \<Longrightarrow> keeps_events (\<lambda>s. if c then a s else b s)"
  by (auto simp: keeps_events_def)

lemma keeps_Let [keeps_intros]: "keeps_events (\<lambda>s. b (f s) s) \<Longrightarrow> keeps_events (\<lambda>s. Let (f s) (\<lambda>x. b x s))"
  by (simp add: Let_def)

lemma keeps_skip [keeps_intros]: "keeps_events Inr"
  by (simp add: keeps_events_def)

lemma keeps_actions [keeps_intros]:
  "keeps_events use_connect_timeout" "keeps_events use_presence_timeout"
  "keeps_events signal_success" "keeps_events signal_server_not_present"
  "keeps_events deliver_message_to_application" "keeps_events (send_msgout Z i)"
  "keeps_events (set_state st)" "keeps_events terminate"
  by (auto simp: keeps_events_def use_connect_timeout_def use_presence_timeout_def engine_set_timeout_def
      signal_success_def signal_server_not_present_def deliver_message_to_application_def
      send_msgout_def set_state_def terminate_def rbind_Inr_iff split_def Let_def)

lemma keeps_hello_again [keeps_intros]: "keeps_events (hello_again Z)"
  unfolding hello_again_def [abs_def] by (intro keeps_intros)

lemma keeps_states [keeps_intros]:
  "keeps_events (in_connecting_state Z ev)" "keeps_events (in_connected_state Z ev)"
  "keeps_events (in_subscribing_state Z ev)" "keeps_events (in_disconnecting_state Z ev)"
  "keeps_events (in_defaults_state Z ev)" "keeps_events (in_reconnecting_state Z ev)"
  unfolding in_connecting_state_def [abs_def] in_connected_state_def [abs_def]
    in_subscribing_state_def [abs_def] in_disconnecting_state_def [abs_def]
    in_defaults_state_def [abs_def] in_reconnecting_state_def [abs_def]
  by (safe intro!: keeps_intros)

definition after_connecting :: "('h, 'r) czmq \<Rightarrow> 'h action" where
  "after_connecting Z s =
     rbind (unless_exception use_connect_timeout s) (\<lambda>s.
     rbind (unless_exception (send_msgout Z ZCCP_MSG_HELLO) s) (\<lambda>s.
     unless_exception (set_state connecting_state) s))"

lemma keeps_after_connecting: "keeps_events (after_connecting Z)"
  unfolding after_connecting_def [abs_def] by (intro keeps_intros)

lemma start_state_events:
  assumes "in_start_state Z E ev s = Inr s'" and "exception s = NULL_event"
  shows "ev = connect_event \<and> next_event s' = next_event s
    \<and> (exception s' = NULL_event \<or> exception s' = error_event)"
proof -
  from assms(1) have ev: "ev = connect_event"
    by (auto simp: in_start_state_def rbind_Inr_iff split: if_splits)
  then obtain s1 where s1: "connect_to_server_endpoint E s = Inr s1" and s': "after_connecting Z s1 = Inr s'"
    using assms by (auto simp: in_start_state_def rbind_Inr_iff after_connecting_def)
  from s1 assms(2) have "next_event s1 = next_event s \<and> (exception s1 = NULL_event \<or> exception s1 = error_event)"
    by (auto simp: connect_to_server_endpoint_def engine_set_exception_def rbind_Inr_iff split: if_splits)
  with ev s' keeps_after_connecting [of Z] show ?thesis by (simp add: keeps_events_def)
qed

definition turns_left :: "'h s_client_t \<Rightarrow> nat" where
  "turns_left s = (if next_event s = NULL_event then 0 else if next_event s = error_event then 1 else 2)"

lemma turn_decreases:
  assumes "s_client_turn Z E s = Inr s'" and "next_event s \<noteq> NULL_event"
  shows "turns_left s' < turns_left s"
proof -
  let ?s = "s\<lparr>event := next_event s, next_event := NULL_event, exception := NULL_event\<rparr>"
  from assms(1) obtain s1 where d: "s_client_dispatch Z E (state s) (next_event s) ?s = Inr s1"
    and s': "s' = (if exception s1 \<noteq> NULL_event then s1\<lparr>next_event := exception s1\<rparr> else s1)"
    by (auto simp: turn_closed rbind_Inr_iff)
  show ?thesis
  proof (cases "state s = start_state")
    case True
    then have "in_start_state Z E (next_event s) ?s = Inr s1" using d by (simp add: s_client_dispatch_def)
    from start_state_events [OF this] show ?thesis
      using s' by (auto simp: turns_left_def)
  next
    case False
    then have "keeps_events (s_client_dispatch Z E (state s) (next_event s))"
      unfolding s_client_dispatch_def [abs_def] by (cases "state s") (simp_all add: keeps_states)
    then have "next_event s1 = NULL_event \<and> exception s1 = NULL_event"
      using d by (auto simp: keeps_events_def)
    then show ?thesis using s' assms(2) by (simp add: turns_left_def)
  qed
qed

function s_client_loop :: "('h, 'r) czmq \<Rightarrow> client_env \<Rightarrow> 'h action" where
  "s_client_loop Z E s =
     (if terminated s \<or> next_event s = NULL_event then Inr s
      else rbind (s_client_turn Z E s) (\<lambda>s. s_client_loop Z E s))"
  by auto

termination
  by (relation "measure (\<lambda>(Z, E, s). turns_left s)") (auto intro: turn_decreases)

declare s_client_loop.simps [simp del]

lemma loop_stops [simp]: "terminated s \<or> next_event s = NULL_event \<Longrightarrow> s_client_loop Z E s = Inr s"
  by (simp add: s_client_loop.simps)

lemma loop_turns:
  "\<not> terminated s \<Longrightarrow> next_event s \<noteq> NULL_event \<Longrightarrow>
     s_client_loop Z E s = rbind (s_client_turn Z E s) (\<lambda>s. s_client_loop Z E s)"
  by (simp add: s_client_loop.simps [of Z E s])

definition s_client_execute :: "('h, 'r) czmq \<Rightarrow> client_env \<Rightarrow> event_t \<Rightarrow> 'h action" where
  "s_client_execute Z E ev s =
     s_client_loop Z E (s\<lparr>next_event := ev, loop := end_timer (wakeup_timer s) (loop s), wakeup_timer := 0\<rparr>)"

section \<open>The callbacks of the reactor\<close>

definition return_code :: "'h s_client_t \<Rightarrow> int" where
  "return_code s = (if terminated s then -1 else 0)"

definition s_client_handle_timeout :: "('h, 'r) czmq \<Rightarrow> client_env \<Rightarrow> 'h s_client_t
    \<Rightarrow> (int \<times> 'h s_client_t) result" where
  "s_client_handle_timeout Z E self =
     rbind (s_client_execute Z E expired_event self) (\<lambda>self. Inr (return_code self, self))"

definition s_client_handle_wakeup :: "('h, 'r) czmq \<Rightarrow> client_env \<Rightarrow> 'h s_client_t
    \<Rightarrow> (int \<times> 'h s_client_t) result" where
  "s_client_handle_wakeup Z E self =
     rbind (s_client_execute Z E (wakeup_event self) self) (\<lambda>self. Inr (0, self))"

text \<open>
  After \<open>$TERM\<close> the method name has been freed and set to null; the message on trailing frames prints
  it with \<open>%s\<close>.
\<close>

definition trailing_frames :: "cstr option \<Rightarrow> 'h action" where
  "trailing_frames method self =
     (if zsock_rcvmore (pipe_in self) then
        rbind (of_option Null_pointer method) (\<lambda>_.
        rbind (zmsg_recv (pipe_in self)) (\<lambda>(more, p). Inr (self\<lparr>pipe_in := p\<rparr>)))
      else Inr self)"

definition s_client_handle_pipe :: "('h, 'r) czmq \<Rightarrow> client_env \<Rightarrow> 'h s_client_t
    \<Rightarrow> (int \<times> 'h s_client_t) result" where
  "s_client_handle_pipe Z E self =
     rbind (zstr_recv (pipe_in self)) (\<lambda>(m, p).
     let self = self\<lparr>pipe_in := p\<rparr> in
     case m of
       None \<Rightarrow> Inr (-1, self)
     | Some method \<Rightarrow>
         rbind (if method = lit ''VERBOSE'' then Inr (Some method, self\<lparr>verbose := True\<rparr>)
                else if method = lit ''$TERM'' then Inr (None, self\<lparr>terminated := True\<rparr>)
                else rbind (client_method Z E method self) (\<lambda>(ev, self).
                     rbind (s_client_execute Z E ev self) (\<lambda>self. Inr (Some method, self)))) (\<lambda>(method, self).
         rbind (trailing_frames method self) (\<lambda>self. Inr (return_code self, self))))"

definition s_client_handle_protocol :: "('h, 'r) czmq \<Rightarrow> client_env \<Rightarrow> zmsg option \<Rightarrow> 'h s_client_t
    \<Rightarrow> (int \<times> 'h s_client_t) result" where
  "s_client_handle_protocol Z E input self =
     (case zccp_msg_recv (hash Z) False input of
        None \<Rightarrow> Inr (-1, self)
      | Some m \<Rightarrow>
          let (ev, self) = s_protocol_event m (self\<lparr>msgin := Some m\<rparr>) in
          rbind (s_client_execute Z E ev self) (\<lambda>self. Inr (return_code self, self)))"

end
