(* ===== verification/Client_Reactor.thy ===== *)
theory Client_Reactor
  imports Client_Engine
begin

text \<open>
  The client as an actor, \<^verbatim>\<open>src/zccp_client_engine.inc\<close>: construction, destruction, and the reactor
  that calls the handlers, as a run over a sequence of events and as a step relation with the states
  that a running client reaches.

  Failing allocations are not modelled, nor is the signal with which the actor tells
  \<open>zactor_new\<close> that it runs.
\<close>

section \<open>Construction and destruction\<close>

definition s_client_new :: "zsock_in \<Rightarrow> 'h s_client_t" where
  "s_client_new pipe = client_initialize
     \<lparr>msgout = zccp_msg_new 0, msgin = None, endpoint = Some None, connect_timeout = 0,
      presence_timeout = 0, pipe_in = pipe, pipe_out = [], connections = [], sent = [], loop = [],
      readers = [], terminated = False, timeout = 0, state = start_state, event = NULL_event,
      next_event = NULL_event, exception = NULL_event, expiry_timer = 0, wakeup_timer = 0,
      wakeup_event = NULL_event, verbose = False\<rparr>"

definition s_client_destroy :: "'h action" where
  "s_client_destroy self = client_terminate self"

section \<open>The reactor\<close>

text \<open>
  What may happen to a running client: its owner puts a message into the pipe (\<open>None\<close>: a read will be
  interrupted), one of the sockets is reported to have input, or a timer expires.
\<close>

datatype reactor_event =
    Owner_sends "zmsg option"
  | Pipe_ready
  | Dealer_ready "zmsg option"
  | Timer_expired "timer_fn timer"

text \<open>Only a connected dealer receives messages, and only timers that are registered expire.\<close>

definition may_happen :: "reactor_event \<Rightarrow> 'h s_client_t \<Rightarrow> bool" where
  "may_happen e s = (case e of
      Dealer_ready input \<Rightarrow> connections s \<noteq> []
    | Timer_expired t \<Rightarrow> t \<in> set (loop s)
    | _ \<Rightarrow> True)"

definition call_reader :: "('h, 'r) czmq \<Rightarrow> client_env \<Rightarrow> zsock \<Rightarrow> zmsg option \<Rightarrow> 'h s_client_t
    \<Rightarrow> (int \<times> 'h s_client_t) result" where
  "call_reader Z E sock input s = (case map_of (readers s) sock of
      None \<Rightarrow> Inr (0, s)
    | Some s_client_handle_pipe_fn \<Rightarrow> s_client_handle_pipe Z E s
    | Some s_client_handle_protocol_fn \<Rightarrow> s_client_handle_protocol Z E input s)"

definition timer_handler :: "('h, 'r) czmq \<Rightarrow> client_env \<Rightarrow> timer_fn \<Rightarrow> 'h s_client_t
    \<Rightarrow> (int \<times> 'h s_client_t) result" where
  "timer_handler Z E h s = (case h of
      s_client_handle_timeout_fn \<Rightarrow> s_client_handle_timeout Z E s
    | s_client_handle_wakeup_fn \<Rightarrow> s_client_handle_wakeup Z E s)"

definition after_timer :: "timer_fn timer \<Rightarrow> 'h s_client_t \<Rightarrow> 'h s_client_t" where
  "after_timer t s = (if tm_times t = 1 then s\<lparr>loop := zloop_timer_end (tm_id t) (loop s)\<rparr> else s)"

definition handle_event :: "('h, 'r) czmq \<Rightarrow> client_env \<Rightarrow> reactor_event \<Rightarrow> 'h s_client_t
    \<Rightarrow> (int \<times> 'h s_client_t) result" where
  "handle_event Z E e s = (case e of
      Owner_sends m \<Rightarrow> Inr (0, s\<lparr>pipe_in := (pipe_in s)\<lparr>queue := queue (pipe_in s) @ [m]\<rparr>\<rparr>)
    | Pipe_ready \<Rightarrow> call_reader Z E pipe_socket None s
    | Dealer_ready input \<Rightarrow> call_reader Z E dealer_socket input s
    | Timer_expired t \<Rightarrow>
        rbind (timer_handler Z E (tm_handler t) s) (\<lambda>(rc, s). Inr (rc, after_timer t s)))"

fun zloop_run :: "('h, 'r) czmq \<Rightarrow> client_env \<Rightarrow> reactor_event list \<Rightarrow> 'h s_client_t
    \<Rightarrow> (bool \<times> 'h s_client_t) result" where
  "zloop_run Z E [] s = Inr (True, s)"
| "zloop_run Z E (e # es) s =
     rbind (handle_event Z E e s) (\<lambda>(rc, s). if rc = -1 then Inr (False, s) else zloop_run Z E es s)"

definition zccp_client_start :: "zsock_in \<Rightarrow> 'h s_client_t result" where
  "zccp_client_start pipe =
     rbind (engine_handle_socket 0 pipe_socket (Some s_client_handle_pipe_fn) (s_client_new pipe))
       (engine_handle_socket 0 dealer_socket (Some s_client_handle_protocol_fn))"

definition zccp_client :: "('h, 'r) czmq \<Rightarrow> client_env \<Rightarrow> zsock_in \<Rightarrow> reactor_event list
    \<Rightarrow> (bool \<times> 'h s_client_t) result" where
  "zccp_client Z E pipe es =
     rbind (zccp_client_start pipe) (\<lambda>s.
     rbind (zloop_run Z E es s) (\<lambda>(running, s).
     if running then Inr (True, s)
     else rbind (s_client_destroy s) (\<lambda>s. Inr (False, s))))"

text \<open>The reactor goes on as long as the handlers return 0.\<close>

inductive client_step :: "('h, 'r) czmq \<Rightarrow> client_env \<Rightarrow> 'h s_client_t \<Rightarrow> 'h s_client_t \<Rightarrow> bool"
  for Z :: "('h, 'r) czmq" and E :: client_env where
  step: "may_happen e s \<Longrightarrow> handle_event Z E e s = Inr (0, s') \<Longrightarrow> client_step Z E s s'"

inductive_cases client_step_elim: "client_step Z E s s'"
inductive_simps client_step_simps: "client_step Z E s s'"

inductive client_reachable :: "('h, 'r) czmq \<Rightarrow> client_env \<Rightarrow> 'h s_client_t \<Rightarrow> bool"
  for Z :: "('h, 'r) czmq" and E :: client_env where
  init: "zccp_client_start \<lparr>rest_frames = [], queue = []\<rparr> = Inr s \<Longrightarrow> client_reachable Z E s"
| reach: "client_reachable Z E s \<Longrightarrow> client_step Z E s s' \<Longrightarrow> client_reachable Z E s'"

end
