(* ===== verification/Client_Spec.thy ===== *)
theory Client_Spec
  imports Client_Reactor
begin

text \<open>
  The specification of the client's side of the protocol, the invariant of its state, and the proof
  that the engine implements the specification.

  \<open>client_spec\<close> says, for each state and each command received from the server, whether the client
  stops, which state it goes to, which command it sends to the server and what it tells its owner.
  The commands it sends carry the fields of the draft \<open>msgout\<close>.
\<close>

section \<open>Specification\<close>

definition success :: zmsg where
  "success = [lit ''SUCCESS'', decimal 0]"

definition message_for :: "cstr \<Rightarrow> cstr \<Rightarrow> cstr \<Rightarrow> zmsg" where
  "message_for s a t = [lit ''MESSAGE'', s, a, t]"

record reaction =
  halts :: bool
  next_state :: state_t
  says :: "int list"                             \<comment> \<open>identifiers of the commands to the server\<close>
  tells :: "zmsg list"                           \<comment> \<open>messages to the owner\<close>

definition stay :: "state_t \<Rightarrow> reaction" where
  "stay st = \<lparr>halts = False, next_state = st, says = [], tells = []\<rparr>"

definition greet_again :: reaction where
  "greet_again = (stay reconnecting_state)\<lparr>says := [ZCCP_MSG_HELLO]\<rparr>"

fun client_spec :: "state_t \<Rightarrow> command \<Rightarrow> reaction result" where
  "client_spec st (Hello i hs) = Inr ((stay st)\<lparr>halts := True\<rparr>)"
| "client_spec st Goodbye = Inr ((stay st)\<lparr>halts := True\<rparr>)"
| "client_spec st Ping_ok = Inr ((stay st)\<lparr>halts := True\<rparr>)"
| "client_spec start_state _ = Inl Assertion_failed"
| "client_spec connecting_state (Hello_ok hs) = Inr ((stay connected_state)\<lparr>tells := [success]\<rparr>)"
| "client_spec connected_state (Subscribe e hs) = Inr ((stay subscribing_state)\<lparr>says := [ZCCP_MSG_SUBSCRIBE]\<rparr>)"
| "client_spec connected_state (Publish a hs ms) = Inr ((stay connected_state)\<lparr>says := [ZCCP_MSG_PUBLISH]\<rparr>)"
| "client_spec connected_state (Direct a hs ms) = Inr ((stay connected_state)\<lparr>says := [ZCCP_MSG_DIRECT]\<rparr>)"
| "client_spec connected_state (Deliver s a hs ms) = (case ms of
     [] \<Rightarrow> Inl Null_pointer
   | f # fs \<Rightarrow> Inr ((stay connected_state)\<lparr>tells := [message_for s a (c_string f)]\<rparr>))"
| "client_spec connected_state Ping = Inr ((stay connected_state)\<lparr>says := [ZCCP_MSG_PING_OK]\<rparr>)"
| "client_spec subscribing_state Subscribe_ok = Inr ((stay connected_state)\<lparr>tells := [success]\<rparr>)"
| "client_spec disconnecting_state (Goodbye_ok hs) = Inr ((stay disconnecting_state)\<lparr>halts := True\<rparr>)"
| "client_spec reconnecting_state (Hello_ok hs) = Inr (stay connected_state)"
| "client_spec st Invalid = Inr greet_again"
| "client_spec st _ = Inr (stay st)"

text \<open>The message on the dealer socket for a command with the fields of a draft.\<close>

definition draft_wire :: "'h zhash_ops \<Rightarrow> 'h zccp_msg \<Rightarrow> int \<Rightarrow> zmsg" where
  "draft_wire H m i = frame_octets H (m\<lparr>msg_id := i\<rparr>) # encode_content (m\<lparr>msg_id := i\<rparr>)"

section \<open>Invariant\<close>

text \<open>
  Nothing in the client gives the draft an identifier, headers or a sender.
\<close>

definition draft_ok :: "'h zccp_msg \<Rightarrow> bool" where
  "draft_ok m \<longleftrightarrow> msg_ok m \<and> identifier_field m = None \<and> headers m = None \<and> sender m = None"

definition reply_ok :: "zmsg \<Rightarrow> bool" where
  "reply_ok w \<longleftrightarrow> w = success \<or> (\<exists>s a t. w = message_for s a t)"

definition client_ok :: "'h s_client_t \<Rightarrow> bool" where
  "client_ok s \<longleftrightarrow> \<not> terminated s \<and> next_event s = NULL_event \<and> draft_ok (msgout s)
     \<and> loop s = [] \<and> wakeup_timer s = 0 \<and> presence_timeout s = 3000
     \<and> state s \<in> {start_state, connecting_state, connected_state, subscribing_state, reconnecting_state}
     \<and> (state s = start_state \<longleftrightarrow> connections s = [])
     \<and> (\<forall>w \<in> set (pipe_out s). reply_ok w)
     \<and> readers s = [(pipe_socket, s_client_handle_pipe_fn), (dealer_socket, s_client_handle_protocol_fn)]"

lemma client_okD:
  assumes "client_ok s"
  shows "\<not> terminated s" "next_event s = NULL_event" "draft_ok (msgout s)" "loop s = []" "wakeup_timer s = 0"
    "readers s = [(pipe_socket, s_client_handle_pipe_fn), (dealer_socket, s_client_handle_protocol_fn)]"
    "state s \<noteq> disconnecting_state" "state s \<noteq> defaults_state"
  using assms by (auto simp: client_ok_def)

lemma reply_ok_simps [simp]: "reply_ok success" "reply_ok (message_for s a t)"
  by (auto simp: reply_ok_def)

lemma draft_ok_new [simp]: "draft_ok (zccp_msg_new i)"
  by (simp add: draft_ok_def msg_ok_def zccp_msg_new_def)

section \<open>Runs of the engine\<close>

lemma octets_routing_id [simp]:
  "frame_octets H (m\<lparr>routing_id := r\<rparr>) = frame_octets H m"
  "encode_content (m\<lparr>routing_id := r\<rparr>) = encode_content m"
  by (simp_all add: frame_octets_def fields_octets_def encode_content_def Let_def cong: if_cong)

text \<open>Sending a draft never fails, and leaves an empty draft.\<close>

lemma send_draft:
  assumes "zhash_api (hash Z)" and "draft_ok (msgout s)" and "1 \<le> i \<and> i \<le> 12"
  shows "send_msgout Z i s
    = Inr (s\<lparr>msgout := zccp_msg_new 0, sent := sent s @ [draft_wire (hash Z) (msgout s) i]\<rparr>)"
proof -
  let ?m = "(zccp_msg_set_id (msgout s) i)\<lparr>routing_id := None\<rparr>"
  have "msg_ok ?m" "1 \<le> msg_id ?m \<and> msg_id ?m \<le> 12"
    using assms(2,3) by (simp_all add: draft_ok_def msg_ok_def zccp_msg_set_id_def)
  from encode_is_grammar [OF assms(1) this]
  have "zccp_msg_encode Z ?m = Inr (frame_octets (hash Z) ?m # encode_content ?m)" .
  moreover have "frame_octets (hash Z) ?m # encode_content ?m = draft_wire (hash Z) (msgout s) i"
    by (simp only: octets_routing_id draft_wire_def zccp_msg_set_id_def)
  ultimately show ?thesis by (simp add: send_msgout_def zccp_msg_send_def)
qed

text \<open>Outside the start state, one event is one turn.\<close>

lemma keeps_dispatch:
  assumes "st \<noteq> start_state"
  shows "keeps_events (s_client_dispatch Z E st ev)"
  using assms unfolding s_client_dispatch_def [abs_def] by (cases st) (simp_all add: keeps_states)

abbreviation entered :: "event_t \<Rightarrow> 'h s_client_t \<Rightarrow> 'h s_client_t" where
  "entered ev s \<equiv> s\<lparr>event := ev, next_event := NULL_event, exception := NULL_event\<rparr>"

lemma execute_enter:
  assumes "client_ok s"
  shows "s_client_execute Z E ev s = s_client_loop Z E (s\<lparr>next_event := ev\<rparr>)"
proof -
  have "s\<lparr>next_event := ev, loop := end_timer (wakeup_timer s) (loop s), wakeup_timer := 0\<rparr> = s\<lparr>next_event := ev\<rparr>"
    using client_okD [OF assms] by simp
  then show ?thesis by (simp only: s_client_execute_def)
qed

lemma execute_null:
  assumes "client_ok s"
  shows "s_client_execute Z E NULL_event s = Inr s"
proof -
  have "s\<lparr>next_event := NULL_event\<rparr> = s" using client_okD [OF assms] by simp
  then show ?thesis
    using client_okD [OF assms] by (simp add: execute_enter [OF assms] s_client_loop.simps)
qed

lemma execute_one:
  assumes "client_ok s" and "ev \<noteq> NULL_event" and "state s \<noteq> start_state"
  shows "s_client_execute Z E ev s = s_client_dispatch Z E (state s) ev (entered ev s)"
proof -
  let ?d = "s_client_dispatch Z E (state s) ev (entered ev s)"
  have run: "s_client_execute Z E ev s = rbind (s_client_turn Z E (s\<lparr>next_event := ev\<rparr>)) (\<lambda>s. s_client_loop Z E s)"
    using client_okD [OF assms(1)] assms(2)
    by (simp add: execute_enter [OF assms(1)] s_client_loop.simps [of _ _ "_\<lparr>next_event := ev\<rparr>"])
  have turn: "s_client_turn Z E (s\<lparr>next_event := ev\<rparr>) = rbind ?d (\<lambda>s.
      Inr (if exception s \<noteq> NULL_event then s\<lparr>next_event := exception s\<rparr> else s))"
    by (simp add: turn_closed)
  show ?thesis
  proof (cases ?d)
    case (Inl e)
    then show ?thesis by (simp add: run turn)
  next
    case (Inr s1)
    then have "next_event s1 = NULL_event" "exception s1 = NULL_event"
      using keeps_dispatch [OF assms(3), of Z E ev] by (simp_all add: keeps_events_def)
    then show ?thesis by (simp add: run turn Inr s_client_loop.simps [of _ _ s1])
  qed
qed

text \<open>In the start state, the only event that is not a failed assertion is the method CONNECT.\<close>

lemma execute_start:
  assumes "client_ok s" and "ev \<noteq> NULL_event" and "state s = start_state" and "ev \<noteq> connect_event"
  shows "s_client_execute Z E ev s = Inl Assertion_failed"
proof -
  have "in_start_state Z E ev s' = Inl Assertion_failed" for s'
    using assms(4) client_name_of_event [of ev] client_name_of_state [of "state s'"] by (auto simp: in_start_state_def)
  then show ?thesis
    using client_okD [OF assms(1)] assms(2,3)
    by (simp add: execute_enter [OF assms(1)] s_client_loop.simps [of _ _ "_\<lparr>next_event := ev\<rparr>"] turn_closed
        s_client_dispatch_def)
qed

section \<open>The engine implements the specification\<close>

definition reacts :: "'h zhash_ops \<Rightarrow> 'h s_client_t \<Rightarrow> reaction \<Rightarrow> 'h s_client_t \<Rightarrow> bool" where
  "reacts H s r s' \<longleftrightarrow> terminated s' = halts r \<and> state s' = next_state r
     \<and> sent s' = sent s @ map (draft_wire H (msgout s)) (says r) \<and> pipe_out s' = pipe_out s @ tells r
     \<and> msgout s' = (if says r = [] then msgout s else zccp_msg_new 0)
     \<and> pipe_in s' = pipe_in s \<and> connections s' = connections s \<and> endpoint s' = endpoint s
     \<and> connect_timeout s' = connect_timeout s \<and> (\<not> halts r \<longrightarrow> client_ok s')"

text \<open>The event of a command, if it has one.\<close>

fun command_event :: "command \<Rightarrow> event_t option" where
  "command_event (Hello_ok hs) = Some hello_ok_event"
| "command_event (Subscribe e hs) = Some subscribe_event"
| "command_event Subscribe_ok = Some subscribe_ok_event"
| "command_event (Publish a hs ms) = Some publish_event"
| "command_event (Direct a hs ms) = Some direct_event"
| "command_event (Deliver s a hs ms) = Some deliver_event"
| "command_event (Goodbye_ok hs) = Some goodbye_ok_event"
| "command_event Ping = Some ping_event"
| "command_event Invalid = Some invalid_event"
| "command_event _ = None"

lemma client_protocol_event:
  assumes "command_of H m = Some cmd"
  shows "s_protocol_event m s = (case command_event cmd of
     Some ev \<Rightarrow> (ev, s) | None \<Rightarrow> (NULL_event, s\<lparr>terminated := True\<rparr>))"
proof -
  have "1 \<le> msg_id m \<and> msg_id m \<le> 12"
    using assms command_of_None_iff [of H m] by simp
  then show ?thesis
    using assms unfolding known_id_iff
    by (elim disjE; simp add: command_of_def s_protocol_event_def zccp_msg_id_def)
      (auto simp: command_of_def)
qed

lemma command_event_null: "command_event cmd \<noteq> Some NULL_event"
  by (cases cmd) auto

lemma client_ok_msgin [simp]: "client_ok (s\<lparr>msgin := m\<rparr>) = client_ok s"
  by (simp add: client_ok_def)

lemma client_ok_after:
  assumes "client_ok s" and "\<not> terminated s'" and "next_event s' = NULL_event" and "draft_ok (msgout s')"
    and "loop s' = loop s" and "wakeup_timer s' = wakeup_timer s" and "presence_timeout s' = presence_timeout s"
    and "state s' \<in> {connecting_state, connected_state, subscribing_state, reconnecting_state}"
    and "connections s' \<noteq> []" and "pipe_out s' = pipe_out s @ ws" and "\<And>w. w \<in> set ws \<Longrightarrow> reply_ok w"
    and "readers s' = readers s"
  shows "client_ok s'"
  using assms unfolding client_ok_def by auto

lemma connected_before: "client_ok s \<Longrightarrow> state s \<noteq> start_state \<Longrightarrow> connections s \<noteq> []"
  by (simp add: client_ok_def)

text \<open>
  A reaction, from the fields of the state after it; \<open>reacts\<close> follows by simplification once the new
  state is known.
\<close>

lemma reactsI:
  assumes "client_ok s" and "state s \<noteq> start_state"
    and "terminated s' = halts r" and "state s' = next_state r"
    and "sent s' = sent s @ map (draft_wire H (msgout s)) (says r)" and "pipe_out s' = pipe_out s @ tells r"
    and "msgout s' = (if says r = [] then msgout s else zccp_msg_new 0)"
    and "pipe_in s' = pipe_in s" and "connections s' = connections s" and "endpoint s' = endpoint s"
    and "connect_timeout s' = connect_timeout s"
    and "next_event s' = NULL_event" and "loop s' = loop s" and "wakeup_timer s' = wakeup_timer s"
    and "presence_timeout s' = presence_timeout s" and "readers s' = readers s"
    and "next_state r \<in> {connecting_state, connected_state, subscribing_state, reconnecting_state}"
    and "\<forall>w \<in> set (tells r). reply_ok w"
  shows "reacts H s r s'"
proof -
  have "client_ok s'" if "\<not> halts r"
    by (rule client_ok_after [OF assms(1), where ws = "tells r"])
      (use that assms connected_before [OF assms(1,2)] client_okD(3) [OF assms(1)] in auto)
  then show ?thesis using assms by (simp add: reacts_def)
qed

lemma hello_again_run:
  assumes "zhash_api (hash Z)" and "client_ok s" and "state s \<noteq> start_state"
  shows "\<exists>s'. hello_again Z (entered ev s) = Inr s' \<and> reacts (hash Z) s greet_again s'"
proof -
  let ?s = "(entered ev s)\<lparr>timeout := word_of_int (connect_timeout s), msgout := zccp_msg_new 0,
    sent := sent s @ [draft_wire (hash Z) (msgout s) 1], state := reconnecting_state\<rparr>"
  have "hello_again Z (entered ev s) = Inr ?s"
    using assms(1) client_okD [OF assms(2)]
    by (simp add: hello_again_def use_connect_timeout_def engine_set_timeout_def send_draft set_state_def)
  moreover have "reacts (hash Z) s greet_again ?s"
    using client_okD [OF assms(2)] by (intro reactsI [OF assms(2,3)]) (simp_all add: greet_again_def stay_def)
  ultimately show ?thesis by blast
qed

lemma dispatch_invalid:
  assumes "zhash_api (hash Z)" and "client_ok s" and "state s \<noteq> start_state"
  shows "\<exists>s'. s_client_dispatch Z E (state s) invalid_event (entered invalid_event s) = Inr s'
    \<and> reacts (hash Z) s greet_again s'"
  using hello_again_run [OF assms, of invalid_event] client_okD(7,8) [OF assms(2)] assms(3)
  by (cases "state s") (simp_all add: s_client_dispatch_def in_connecting_state_def in_connected_state_def
      in_subscribing_state_def in_reconnecting_state_def)

lemma react_ignore:
  assumes "client_ok s" and "state s \<noteq> start_state"
  shows "reacts H s (stay (state s)) (entered ev s)"
  using assms client_okD [OF assms(1)] by (intro reactsI) (auto simp: stay_def client_ok_def)

lemmas state_defs = in_connecting_state_def in_connected_state_def in_subscribing_state_def
  in_reconnecting_state_def set_state_def use_presence_timeout_def engine_set_timeout_def
  signal_success_def

definition implements_reaction :: "'h zhash_ops \<Rightarrow> 'h s_client_t \<Rightarrow> 'h s_client_t result \<Rightarrow> reaction result \<Rightarrow> bool" where
  "implements_reaction H s res spec \<longleftrightarrow> (case spec of
      Inl e \<Rightarrow> res = Inl e
    | Inr r \<Rightarrow> \<exists>s'. res = Inr s' \<and> reacts H s r s')"

lemma implements_reactionI:
  "reacts H s r s' \<Longrightarrow> implements_reaction H s (Inr s') (Inr r)"
  by (auto simp: implements_reaction_def)

lemma deliver_run:
  assumes "client_ok s" and "state s = connected_state" and "msgin s = Some m" and "sender m = Some sndr"
    and "address m = Some addr" and "content m = Some ms"
  shows "implements_reaction H s (deliver_message_to_application (entered ev s))
    (client_spec connected_state (Deliver sndr addr hs ms))"
proof (cases ms)
  case Nil
  then show ?thesis
    using assms by (simp add: deliver_message_to_application_def zccp_msg_content_def zmsg_popstr_def
        zccp_msg_sender_def zccp_msg_address_def send_string_def implements_reaction_def)
next
  case (Cons f fs)
  let ?s = "(entered ev s)\<lparr>msgin := Some (m\<lparr>content := Some fs\<rparr>),
    pipe_out := pipe_out s @ [message_for sndr addr (c_string f)]\<rparr>"
  have "deliver_message_to_application (entered ev s) = Inr ?s"
    using assms Cons by (simp add: deliver_message_to_application_def zccp_msg_content_def zmsg_popstr_def
        zccp_msg_sender_def zccp_msg_address_def send_string_def message_for_def)
  moreover have "reacts H s ((stay connected_state)\<lparr>tells := [message_for sndr addr (c_string f)]\<rparr>) ?s"
    using client_okD [OF assms(1)] assms(2) by (intro reactsI [OF assms(1)]) (simp_all add: stay_def)
  ultimately show ?thesis by (simp add: Cons implements_reaction_def)
qed

lemma dispatch_implements:
  assumes H: "zhash_api (hash Z)" and s: "client_ok s" and st: "state s \<noteq> start_state"
    and ev: "command_event cmd = Some ev"
    and del: "\<And>sn a hs ms. cmd = Deliver sn a hs ms \<Longrightarrow> \<exists>m. msgin s = Some m \<and> sender m = Some sn
      \<and> address m = Some a \<and> content m = Some ms"
  shows "implements_reaction (hash Z) s (s_client_dispatch Z E (state s) ev (entered ev s))
    (client_spec (state s) cmd)"
proof -
  note ok = client_okD [OF s]
  note runs = s_client_dispatch_def state_defs send_draft [OF H] stay_def success_def
  have invalid: ?thesis if "cmd = Invalid"
  proof -
    have "client_spec (state s) cmd = Inr greet_again"
      using st by (cases "state s") (simp_all add: that)
    then show ?thesis using dispatch_invalid [OF H s st] that ev by (auto simp: implements_reaction_def)
  qed
  have ign: "implements_reaction (hash Z) s (Inr (entered ev s)) (Inr (stay (state s)))"
    by (rule implements_reactionI) (rule react_ignore [OF s st])
  have delivery: ?thesis if "state s = connected_state" "cmd = Deliver sn a hs ms" for sn a hs ms
  proof -
    from del [OF that(2)] obtain m where "msgin s = Some m" "sender m = Some sn" "address m = Some a"
        "content m = Some ms" by auto
    from deliver_run [OF s that(1) this] ev show ?thesis
      by (auto simp: that s_client_dispatch_def in_connected_state_def)
  qed
  note reactI = implements_reactionI [OF reactsI [OF s st]]
  show ?thesis
  proof (cases "state s")
    case start_state
    with st show ?thesis by simp
  next
    case connecting_state
    then show ?thesis using invalid ign ev ok
      by (cases cmd) (auto simp: runs reply_ok_def intro!: reactI)
  next
    case connected_state
    then show ?thesis using invalid ign delivery ev ok
      by (cases cmd) (auto simp: runs intro!: reactI)
  next
    case subscribing_state
    then show ?thesis using invalid ign ev ok
      by (cases cmd) (auto simp: runs reply_ok_def intro!: reactI)
  next
    case reconnecting_state
    then show ?thesis using invalid ign ev ok
      by (cases cmd) (auto simp: runs intro!: reactI)
  qed (use ok in simp_all)
qed

end
