(* ===== verification/Client_Refine.thy ===== *)
theory Client_Refine
  imports Client_Spec
begin

text \<open>
  The callbacks of the client implement their specifications: \<open>client_spec\<close> for a message from the
  server, \<open>call_spec\<close> for a call of the owner.  From these follow the invariant along the reactor and
  the faults of a running client, each with its cause (\<open>owner_fault\<close>).
\<close>

section \<open>Messages from the server\<close>

lemma reacts_msgin [simp]: "reacts H (s\<lparr>msgin := m\<rparr>) r s' = reacts H s r s'"
  by (simp add: reacts_def)

lemma halt_run:
  assumes "client_ok s"
  shows "\<exists>s'. s_client_execute Z E NULL_event (s\<lparr>terminated := True\<rparr>) = Inr s'
    \<and> reacts H s ((stay (state s))\<lparr>halts := True\<rparr>) s'"
  using client_okD [OF assms]
  by (simp add: s_client_execute_def s_client_loop.simps reacts_def stay_def)

lemma protocol_handled:
  assumes H: "zhash_api (hash Z)" and s: "client_ok s"
    and recv: "zccp_msg_recv (hash Z) False input = Some m" and cmd: "command_of (hash Z) m = Some cmd"
  shows "case client_spec (state s) cmd of
      Inl e \<Rightarrow> s_client_handle_protocol Z E input s = Inl e
    | Inr r \<Rightarrow> \<exists>s'. s_client_handle_protocol Z E input s = Inr (if halts r then -1 else 0, s')
        \<and> reacts (hash Z) s r s'"
proof -
  let ?s = "s\<lparr>msgin := Some m\<rparr>"
  have s1: "client_ok ?s" using s by simp
  have run: "s_client_handle_protocol Z E input s = (let (ev, self) = s_protocol_event m ?s in
      rbind (s_client_execute Z E ev self) (\<lambda>self. Inr (return_code self, self)))"
    by (simp add: s_client_handle_protocol_def recv)
  show ?thesis
  proof (cases "command_event cmd")
    case None
    then have spec: "client_spec (state s) cmd = Inr ((stay (state s))\<lparr>halts := True\<rparr>)"
      by (cases cmd) auto
    obtain s' where s': "s_client_execute Z E NULL_event (?s\<lparr>terminated := True\<rparr>) = Inr s'"
        "reacts (hash Z) s ((stay (state s))\<lparr>halts := True\<rparr>) s'"
      using halt_run [OF s1, of Z E "hash Z"] by auto
    then have "return_code s' = -1" by (simp add: return_code_def reacts_def)
    then show ?thesis using s'
      by (simp add: spec run client_protocol_event [OF cmd] None)
  next
    case (Some ev)
    then have ev: "ev \<noteq> NULL_event" "ev \<noteq> connect_event" by (cases cmd; auto)+
    have run1: "s_client_handle_protocol Z E input s
        = rbind (s_client_execute Z E ev ?s) (\<lambda>self. Inr (return_code self, self))"
      by (simp add: run client_protocol_event [OF cmd] Some)
    show ?thesis
    proof (cases "state s = start_state")
      case True
      then have "client_spec (state s) cmd = Inl Assertion_failed" using Some by (cases cmd) auto
      moreover have "s_client_execute Z E ev ?s = Inl Assertion_failed"
        by (rule execute_start [OF s1 ev(1) _ ev(2)]) (simp add: True)
      ultimately show ?thesis by (simp add: run1)
    next
      case False
      have "implements_reaction (hash Z) ?s (s_client_execute Z E ev ?s) (client_spec (state s) cmd)"
        using dispatch_implements [OF H s1 _ Some, of E] recv_dealer(5) [OF H recv] cmd False
          execute_one [OF s1 ev(1), of Z E] by simp
      then show ?thesis
        by (cases "client_spec (state s) cmd")
          (auto simp: implements_reaction_def run1 return_code_def reacts_def)
    qed
  qed
qed

section \<open>Calls of the owner\<close>

datatype call =
    Connect cstr int
  | Subscribe_to cstr
  | Publish_at cstr cstr
  | Be_verbose
  | Stop

fun call_frames :: "call \<Rightarrow> zmsg" where
  "call_frames (Connect ep t) = [lit ''CONNECT'', ep, decimal t]"
| "call_frames (Subscribe_to e) = [lit ''SUBSCRIBE'', e]"
| "call_frames (Publish_at a t) = [lit ''PUBLISH'', a, t]"
| "call_frames Be_verbose = [lit ''VERBOSE'']"
| "call_frames Stop = [lit ''$TERM'']"

fun wf_call :: "call \<Rightarrow> bool" where
  "wf_call (Connect ep t) = wf_cstr ep"
| "wf_call (Subscribe_to e) = wf_cstr e"
| "wf_call (Publish_at a t) = (wf_cstr a \<and> wf_cstr t)"
| "wf_call _ = True"

text \<open>What a call changes before the state machine runs: the draft, the endpoint, the options.\<close>

fun prepare :: "('h, 'r) czmq \<Rightarrow> client_env \<Rightarrow> call \<Rightarrow> 'h action" where
  "prepare Z E (Connect ep t) s = Inr (s\<lparr>endpoint := Some (Some ep), connect_timeout := t,
     connections := connections s @ (if state s = start_state \<and> zs_connect E (Some ep) = 0 then [Some ep] else [])\<rparr>)"
| "prepare Z E (Subscribe_to e) s = rbind (of_option Format_undefined (vprintf Z e)) (\<lambda>e'.
     Inr (s\<lparr>msgout := (msgout s)\<lparr>expression := Some e'\<rparr>\<rparr>))"
| "prepare Z E (Publish_at a t) s = rbind (of_option Format_undefined (vprintf Z a)) (\<lambda>a'.
     Inr (s\<lparr>msgout := (msgout s)\<lparr>address := Some a', content := Some [t]\<rparr>\<rparr>))"
| "prepare Z E Be_verbose s = Inr (s\<lparr>verbose := True\<rparr>)"
| "prepare Z E Stop s = Inr s"

fun call_spec :: "client_env \<Rightarrow> state_t \<Rightarrow> call \<Rightarrow> reaction result" where
  "call_spec E st Be_verbose = Inr (stay st)"
| "call_spec E st Stop = Inr ((stay st)\<lparr>halts := True\<rparr>)"
| "call_spec E start_state (Connect ep t) =
     (if zs_connect E (Some ep) = 0 then Inr ((stay connecting_state)\<lparr>says := [ZCCP_MSG_HELLO]\<rparr>)
      else Inl Assertion_failed)"
| "call_spec E start_state _ = Inl Assertion_failed"
| "call_spec E connected_state (Subscribe_to e) = Inr ((stay subscribing_state)\<lparr>says := [ZCCP_MSG_SUBSCRIBE]\<rparr>)"
| "call_spec E connected_state (Publish_at a t) = Inr ((stay connected_state)\<lparr>says := [ZCCP_MSG_PUBLISH]\<rparr>)"
| "call_spec E st _ = Inr (stay st)"

text \<open>
  The state of the client for which a call is meant: a request before the first \<open>zccp_client_connect\<close>,
  or a connection that cannot be made, is not.
\<close>

fun ready :: "client_env \<Rightarrow> state_t \<Rightarrow> call \<Rightarrow> bool" where
  "ready E st (Connect ep t) \<longleftrightarrow> st \<noteq> start_state \<or> zs_connect E (Some ep) = 0"
| "ready E st (Subscribe_to x) \<longleftrightarrow> st \<noteq> start_state"
| "ready E st (Publish_at a t) \<longleftrightarrow> st \<noteq> start_state"
| "ready E st _ \<longleftrightarrow> True"

text \<open>A pipe that holds a call, and what is left after the call is read.\<close>

definition holds_call :: "'h s_client_t \<Rightarrow> call \<Rightarrow> zmsg option list \<Rightarrow> bool" where
  "holds_call s c q \<longleftrightarrow> pipe_in s = \<lparr>rest_frames = [], queue = Some (call_frames c) # q\<rparr>"

abbreviation read_call :: "zmsg option list \<Rightarrow> 'h s_client_t \<Rightarrow> 'h s_client_t" where
  "read_call q s \<equiv> s\<lparr>pipe_in := \<lparr>rest_frames = [], queue = q\<rparr>\<rparr>"

lemma method_names [simp]:
  "c_string (lit ''CONNECT'') = lit ''CONNECT''" "c_string (lit ''SUBSCRIBE'') = lit ''SUBSCRIBE''"
  "c_string (lit ''PUBLISH'') = lit ''PUBLISH''" "c_string (lit ''VERBOSE'') = lit ''VERBOSE''"
  "c_string (lit ''$TERM'') = lit ''$TERM''"
  "lit ''CONNECT'' \<noteq> lit ''VERBOSE''" "lit ''CONNECT'' \<noteq> lit ''$TERM''"
  "lit ''SUBSCRIBE'' \<noteq> lit ''VERBOSE''" "lit ''SUBSCRIBE'' \<noteq> lit ''$TERM''"
  "lit ''SUBSCRIBE'' \<noteq> lit ''CONNECT''" "lit ''PUBLISH'' \<noteq> lit ''CONNECT''"
  "lit ''PUBLISH'' \<noteq> lit ''VERBOSE''" "lit ''PUBLISH'' \<noteq> lit ''$TERM''"
  "lit ''PUBLISH'' \<noteq> lit ''SUBSCRIBE''" "lit ''$TERM'' \<noteq> lit ''VERBOSE''"
  by code_simp+

lemmas method_names_sym [simp] = method_names(6-15) [THEN not_sym]

lemma client_ok_more [simp]:
  "client_ok (s\<lparr>pipe_in := x1\<rparr>) = client_ok s"
  "client_ok (s\<lparr>endpoint := x2\<rparr>) = client_ok s"
  "client_ok (s\<lparr>connect_timeout := x3\<rparr>) = client_ok s"
  "client_ok (s\<lparr>verbose := x4\<rparr>) = client_ok s"
  by (simp_all add: client_ok_def)

lemma client_ok_draft: "client_ok s \<Longrightarrow> draft_ok m \<Longrightarrow> client_ok (s\<lparr>msgout := m\<rparr>)"
  by (auto simp: client_ok_def)

text \<open>The method CONNECT in the start state; a failed connection ends in a failed assertion.\<close>

lemma execute_connect:
  assumes H: "zhash_api (hash Z)" and s: "client_ok s" "state s = start_state" and e: "endpoint s = Some e"
  shows "s_client_execute Z E connect_event s =
    (if zs_connect E e = 0 then
       Inr ((entered connect_event s)\<lparr>connections := connections s @ [e],
         timeout := word_of_int (connect_timeout s), msgout := zccp_msg_new 0,
         sent := sent s @ [draft_wire (hash Z) (msgout s) ZCCP_MSG_HELLO], state := connecting_state\<rparr>)
     else Inl Assertion_failed)"
proof (cases "zs_connect E e = 0")
  case True
  let ?s = "(entered connect_event s)\<lparr>connections := connections s @ [e],
         timeout := word_of_int (connect_timeout s), msgout := zccp_msg_new 0,
         sent := sent s @ [draft_wire (hash Z) (msgout s) ZCCP_MSG_HELLO], state := connecting_state\<rparr>"
  have "s_client_turn Z E (s\<lparr>next_event := connect_event\<rparr>) = Inr ?s"
    using True client_okD [OF s(1)] by (simp add: turn_closed s_client_dispatch_def s(2) in_start_state_def
        connect_to_server_endpoint_def e use_connect_timeout_def engine_set_timeout_def send_draft [OF H]
        set_state_def)
  then show ?thesis
    using True client_okD [OF s(1)]
    by (simp add: execute_enter [OF s(1)] loop_turns)
next
  case False
  let ?s = "s\<lparr>event := connect_event, next_event := error_event, exception := error_event\<rparr>"
  have "s_client_turn Z E (s\<lparr>next_event := connect_event\<rparr>) = Inr ?s"
    using False client_okD [OF s(1)] by (simp add: turn_closed s_client_dispatch_def s(2) in_start_state_def
        connect_to_server_endpoint_def e engine_set_exception_def)
  moreover have "s_client_turn Z E ?s = Inl Assertion_failed"
    using client_name_of_event [of error_event] client_name_of_state [of start_state]
    by (auto simp: turn_closed s_client_dispatch_def s(2) in_start_state_def)
  ultimately show ?thesis
    using False client_okD [OF s(1)]
    by (simp add: execute_enter [OF s(1)] loop_turns)
qed

lemma execute_connect_late:
  assumes "client_ok s" and "state s \<noteq> start_state"
  shows "s_client_execute Z E connect_event s = Inr (entered connect_event s)"
  using execute_one [OF assms(1) _ assms(2), of connect_event Z E] client_okD(7,8) [OF assms(1)] assms(2)
  by (cases "state s") (simp_all add: s_client_dispatch_def in_connecting_state_def in_connected_state_def
      in_subscribing_state_def in_reconnecting_state_def)

text \<open>The other two methods, once the draft is ready.\<close>

lemma execute_request:
  assumes H: "zhash_api (hash Z)" and s: "client_ok s"
    and c: "(ev, c) = (subscribe_event, Subscribe_to x) \<or> (ev, c) = (publish_event, Publish_at x y)"
  shows "implements_reaction (hash Z) s (s_client_execute Z E ev s) (call_spec E (state s) c)"
proof (cases "state s = start_state")
  case True
  with c execute_start [OF s, of ev Z E] show ?thesis by (auto simp: implements_reaction_def)
next
  case False
  note ok = client_okD [OF s]
  have ev: "ev \<noteq> NULL_event" using c by auto
  have ign: "implements_reaction (hash Z) s (Inr (entered ev s)) (Inr (stay (state s)))"
    by (rule implements_reactionI) (rule react_ignore [OF s False])
  note runs = s_client_dispatch_def state_defs send_draft [OF H] stay_def
  note reactI = implements_reactionI [OF reactsI [OF s False]]
  show ?thesis
    unfolding execute_one [OF s ev False]
    by (cases "state s") (use c ign ok False in \<open>auto simp: runs intro!: reactI\<close>)
qed

lemma handle_method:
  assumes "pipe_in s = \<lparr>rest_frames = [], queue = Some (name # args) # q\<rparr>" and "c_string name = name"
    and "name \<noteq> lit ''VERBOSE''" and "name \<noteq> lit ''$TERM''"
    and "client_method Z E name (s\<lparr>pipe_in := \<lparr>rest_frames = args, queue = q\<rparr>\<rparr>) = Inr (ev, s1)"
    and "\<And>s'. s_client_execute Z E ev s1 = Inr s' \<Longrightarrow> rest_frames (pipe_in s') = []"
  shows "s_client_handle_pipe Z E s = rbind (s_client_execute Z E ev s1) (\<lambda>s'. Inr (return_code s', s'))"
  using assms
  by (cases "s_client_execute Z E ev s1")
    (simp_all add: s_client_handle_pipe_def zstr_recv_def Let_def trailing_frames_def zsock_rcvmore_def)

text \<open>Reading the arguments of a call.\<close>

lemma read_method:
  assumes "holds_call s c q" and "wf_call c" and "endpoint s = Some e" and "c \<noteq> Be_verbose" and "c \<noteq> Stop"
  obtains name args where "pipe_in s = \<lparr>rest_frames = [], queue = Some (name # args) # q\<rparr>"
    and "call_frames c = name # args" and "c_string name = name" and "name \<noteq> lit ''VERBOSE''" and "name \<noteq> lit ''$TERM''"
  using assms by (cases c) (auto simp: holds_call_def)

lemma connect_method:
  assumes "wf_cstr ep" and "endpoint s = Some e"
  shows "client_method Z E (lit ''CONNECT'') (s\<lparr>pipe_in := \<lparr>rest_frames = [ep, decimal t], queue = q\<rparr>\<rparr>)
    = Inr (connect_event, (read_call q s)\<lparr>endpoint := Some (Some ep), connect_timeout := t\<rparr>)"
  using assms by (simp add: client_method_def zmsg_recv_def recv_string_def recv_number_def zmsg_popstr_def
      c_string_wf c_string_decimal atol_decimal)

lemma subscribe_method:
  assumes "wf_cstr x"
  shows "client_method Z E (lit ''SUBSCRIBE'') (s\<lparr>pipe_in := \<lparr>rest_frames = [x], queue = q\<rparr>\<rparr>)
    = rbind (prepare Z E (Subscribe_to x) s) (\<lambda>s1. Inr (subscribe_event, read_call q s1))"
  using assms by (cases "vprintf Z x") (simp_all add: client_method_def zmsg_recv_def recv_string_def
      zmsg_popstr_def c_string_wf zccp_msg_set_expression_def format_string_def)

lemma publish_method:
  assumes "wf_cstr a" and "wf_cstr t"
  shows "client_method Z E (lit ''PUBLISH'') (s\<lparr>pipe_in := \<lparr>rest_frames = [a, t], queue = q\<rparr>\<rparr>)
    = rbind (prepare Z E (Publish_at a t) s) (\<lambda>s1. Inr (publish_event, read_call q s1))"
  using assms by (cases "vprintf Z a") (simp_all add: client_method_def zmsg_recv_def recv_string_def
      zmsg_popstr_def c_string_wf zccp_msg_set_address_def zccp_msg_set_content_def format_string_def)

lemma prepared_ok:
  assumes "client_ok s" and "prepare Z E c s = Inr s1" and "c = Subscribe_to x \<or> c = Publish_at x y"
  shows "client_ok (read_call q s1)" and "state s1 = state s"
  using assms client_okD(3) [OF assms(1)]
  by (auto simp: rbind_Inr_iff of_option_Inr_iff draft_ok_def msg_ok_def intro!: client_ok_draft)

lemma no_wire_method:
  assumes "holds_call s c q" and "client_ok s"
  shows "c = Be_verbose \<Longrightarrow> s_client_handle_pipe Z E s = Inr (0, (read_call q s)\<lparr>verbose := True\<rparr>)"
    and "c = Stop \<Longrightarrow> s_client_handle_pipe Z E s = Inr (-1, (read_call q s)\<lparr>terminated := True\<rparr>)"
  using assms client_okD(1) [OF assms(2)]
  by (simp_all add: holds_call_def s_client_handle_pipe_def zstr_recv_def Let_def trailing_frames_def
      zsock_rcvmore_def return_code_def)

lemma request_handled:
  assumes H: "zhash_api (hash Z)" and s: "client_ok s" and call: "holds_call s c q" "wf_call c"
    and c: "(ev, c) = (subscribe_event, Subscribe_to x) \<or> (ev, c) = (publish_event, Publish_at x y)"
  shows "case prepare Z E c s of
      Inl e \<Rightarrow> s_client_handle_pipe Z E s = Inl e
    | Inr s1 \<Rightarrow> (case call_spec E (state s) c of
        Inl e \<Rightarrow> s_client_handle_pipe Z E s = Inl e
      | Inr r \<Rightarrow> \<exists>s'. s_client_handle_pipe Z E s = Inr (0, s') \<and> \<not> halts r
          \<and> reacts (hash Z) (read_call q s1) r s')"
proof -
  obtain name args where m: "pipe_in s = \<lparr>rest_frames = [], queue = Some (name # args) # q\<rparr>"
      "c_string name = name" "name \<noteq> lit ''VERBOSE''" "name \<noteq> lit ''$TERM''"
    and call_eq: "client_method Z E name (s\<lparr>pipe_in := \<lparr>rest_frames = args, queue = q\<rparr>\<rparr>)
      = rbind (prepare Z E c s) (\<lambda>s1. Inr (ev, read_call q s1))"
    using c call subscribe_method [of x Z E q s] publish_method [of x y Z E q s]
    by (auto simp: holds_call_def simp del: prepare.simps)
  show ?thesis
  proof (cases "prepare Z E c s")
    case (Inl e)
    then show ?thesis using m call_eq
      by (simp add: s_client_handle_pipe_def zstr_recv_def Let_def)
  next
    case (Inr s1)
    have s1: "client_ok (read_call q s1)" "state s1 = state s"
      using prepared_ok [OF s Inr] c by auto
    have run: "implements_reaction (hash Z) (read_call q s1) (s_client_execute Z E ev (read_call q s1)) (call_spec E (state s) c)"
      using execute_request [OF H s1(1) c, of E] s1(2) by simp
    have pipe: "rest_frames (pipe_in s') = []" if "s_client_execute Z E ev (read_call q s1) = Inr s'" for s'
      using run that by (auto simp: implements_reaction_def reacts_def split: sum.splits)
    have handle: "s_client_handle_pipe Z E s
        = rbind (s_client_execute Z E ev (read_call q s1)) (\<lambda>s'. Inr (return_code s', s'))"
      by (rule handle_method [OF m _ pipe]) (simp_all add: call_eq Inr)
    show ?thesis
    proof (cases "call_spec E (state s) c")
      case (Inl e)
      then show ?thesis using run by (simp add: handle implements_reaction_def \<open>prepare Z E c s = Inr s1\<close>)
    next
      case (Inr r)
      have "\<not> halts r" using Inr c by (cases "state s") (auto simp: stay_def split: if_splits)
      then show ?thesis using run Inr
        by (auto simp: handle implements_reaction_def \<open>prepare Z E c s = Inr s1\<close> return_code_def reacts_def)
    qed
  qed
qed

lemma read_call_connect:
  "read_call q (s\<lparr>endpoint := a, connect_timeout := b\<rparr>) = (read_call q s)\<lparr>endpoint := a, connect_timeout := b\<rparr>"
  by simp

lemma connect_handled:
  assumes H: "zhash_api (hash Z)" and s: "client_ok s" and call: "holds_call s c q" "wf_call c"
    and c: "c = Connect ep t" and e: "endpoint s = Some e"
  shows "case call_spec E (state s) c of
        Inl e \<Rightarrow> s_client_handle_pipe Z E s = Inl e
      | Inr r \<Rightarrow> \<exists>s' s1. s_client_handle_pipe Z E s = Inr (0, s') \<and> prepare Z E c s = Inr s1 \<and> \<not> halts r
          \<and> reacts (hash Z) (read_call q s1) r s'"
proof -
  let ?s = "(read_call q s)\<lparr>endpoint := Some (Some ep), connect_timeout := t\<rparr>"
  have ok: "client_ok ?s" using s by simp
  have m: "pipe_in s = \<lparr>rest_frames = [], queue = Some (lit ''CONNECT'' # [ep, decimal t]) # q\<rparr>"
    using call by (simp add: holds_call_def c)
  have wf: "wf_cstr ep" using call(2) c by simp
  note handle = handle_method [OF m _ _ _ connect_method [OF wf e]]
  show ?thesis
  proof (cases "state s = start_state")
    case True
    have run: "s_client_execute Z E connect_event ?s = (if zs_connect E (Some ep) = 0 then
       Inr ((entered connect_event ?s)\<lparr>connections := connections s @ [Some ep],
         timeout := word_of_int t, msgout := zccp_msg_new 0,
         sent := sent s @ [draft_wire (hash Z) (msgout s) ZCCP_MSG_HELLO], state := connecting_state\<rparr>)
     else Inl Assertion_failed)"
      using execute_connect [OF H ok, of "Some ep" E] True by simp
    show ?thesis
    proof (cases "zs_connect E (Some ep) = 0")
      case yes: True
      let ?s' = "(entered connect_event ?s)\<lparr>connections := connections s @ [Some ep],
         timeout := word_of_int t, msgout := zccp_msg_new 0,
         sent := sent s @ [draft_wire (hash Z) (msgout s) ZCCP_MSG_HELLO], state := connecting_state\<rparr>"
      have ok': "client_ok ?s'"
        by (rule client_ok_after [OF s, where ws = "[]"]) (use client_okD [OF s] in simp_all)
      have "s_client_handle_pipe Z E s = rbind (Inr ?s') (\<lambda>s'. Inr (return_code s', s'))"
        using handle [where Z = Z and E = E] run yes by simp
      then have "s_client_handle_pipe Z E s = Inr (0, ?s')"
        using client_okD(1) [OF s] by (simp add: return_code_def)
      moreover have "reacts (hash Z) (read_call q (?s\<lparr>connections := connections s @ [Some ep]\<rparr>))
          ((stay connecting_state)\<lparr>says := [ZCCP_MSG_HELLO]\<rparr>) ?s'"
        using ok' client_okD [OF s] by (simp add: reacts_def stay_def)
      ultimately show ?thesis using True yes by (auto simp: c stay_def)
    next
      case False
      then show ?thesis using handle [where Z = Z and E = E] run True by (simp add: c)
    qed
  next
    case False
    have run: "s_client_execute Z E connect_event ?s = Inr (entered connect_event ?s)"
      using execute_connect_late [OF ok] False by simp
    have "s_client_handle_pipe Z E s = Inr (0, entered connect_event ?s)"
      using handle [where Z = Z and E = E] run client_okD(1) [OF s] by (simp add: return_code_def)
    moreover have "reacts (hash Z) ?s (stay (state ?s)) (entered connect_event ?s)"
      by (rule react_ignore [OF ok]) (simp add: False)
    ultimately show ?thesis using False client_okD(7,8) [OF s]
      by (cases "state s") (auto simp: c stay_def read_call_connect simp del: reacts_msgin)
  qed
qed

text \<open>A call that the start state does not expect ends in a failed assertion.\<close>

lemma early_call_aborts:
  assumes H: "zhash_api (hash Z)" and s: "client_ok s" "state s = start_state" and call: "holds_call s c q" "wf_call c"
    and e: "endpoint s = Some e"
    and c: "(\<exists>ep t. c = Connect ep t \<and> zs_connect E (Some ep) \<noteq> 0)
      \<or> ((\<exists>x y. c = Subscribe_to x \<or> c = Publish_at x y) \<and> (\<exists>s1. prepare Z E c s = Inr s1))"
  shows "s_client_handle_pipe Z E s = Inl Assertion_failed"
  using c
proof (elim disjE exE conjE)
  fix ep t assume "c = Connect ep t" "zs_connect E (Some ep) \<noteq> 0"
  with connect_handled [OF H s(1) call _ e, of ep t E] s(2) show ?thesis by simp
next
  fix x y s1 assume c: "c = Subscribe_to x" and p: "prepare Z E c s = Inr s1"
  with request_handled [OF H s(1) call, of subscribe_event x "[]" E] s(2) show ?thesis
    by (simp del: prepare.simps)
next
  fix x y s1 assume c: "c = Publish_at x y" and p: "prepare Z E c s = Inr s1"
  with request_handled [OF H s(1) call, of publish_event x y E] s(2) show ?thesis
    by (simp del: prepare.simps)
qed

section \<open>What the owner can do wrong\<close>

text \<open>
  The faults of the callback for the pipe, each with its cause.  The callback reads the name of a method
  and then, for CONNECT, SUBSCRIBE and PUBLISH, what is left of the message, or else the next message.
\<close>

abbreviation request_names :: "cstr set" where
  "request_names \<equiv> {lit ''SUBSCRIBE'', lit ''PUBLISH''}"

inductive owner_fault :: "('h, 'r) czmq \<Rightarrow> client_env \<Rightarrow> 'h s_client_t \<Rightarrow> fault \<Rightarrow> bool"
  for Z :: "('h, 'r) czmq" and E :: client_env and s :: "'h s_client_t" where
  no_method: "zstr_recv (pipe_in s) = Inl Blocked \<Longrightarrow> owner_fault Z E s Blocked"
| trailing_term: "zstr_recv (pipe_in s) = Inr (Some (lit ''$TERM''), p) \<Longrightarrow> rest_frames p \<noteq> [] \<Longrightarrow>
    owner_fault Z E s Null_pointer"
| freed_endpoint: "zstr_recv (pipe_in s) = Inr (Some (lit ''CONNECT''), p) \<Longrightarrow> endpoint s = None \<Longrightarrow>
    owner_fault Z E s Use_after_free"
| connect_unread: "zstr_recv (pipe_in s) = Inr (Some (lit ''CONNECT''), p) \<Longrightarrow> endpoint s \<noteq> None \<Longrightarrow>
    zmsg_recv p = Inl Blocked \<Longrightarrow> owner_fault Z E s Blocked"
| connect_interrupted: "zstr_recv (pipe_in s) = Inr (Some (lit ''CONNECT''), p) \<Longrightarrow> endpoint s \<noteq> None \<Longrightarrow>
    zmsg_recv p = Inr (None, p') \<Longrightarrow> state s = start_state \<Longrightarrow> owner_fault Z E s Use_after_free"
| connect_fails: "zstr_recv (pipe_in s) = Inr (Some (lit ''CONNECT''), p) \<Longrightarrow> endpoint s \<noteq> None \<Longrightarrow>
    zmsg_recv p = Inr (Some (ep # args), p') \<Longrightarrow> state s = start_state \<Longrightarrow>
    zs_connect E (Some (c_string ep)) \<noteq> 0 \<Longrightarrow> owner_fault Z E s Assertion_failed"
| request_unread: "zstr_recv (pipe_in s) = Inr (Some name, p) \<Longrightarrow> name \<in> request_names \<Longrightarrow>
    zmsg_recv p = Inl Blocked \<Longrightarrow> owner_fault Z E s Blocked"
| request_interrupted: "zstr_recv (pipe_in s) = Inr (Some name, p) \<Longrightarrow> name \<in> request_names \<Longrightarrow>
    zmsg_recv p = Inr (None, p') \<Longrightarrow> owner_fault Z E s Uninitialised"
| bad_format: "zstr_recv (pipe_in s) = Inr (Some name, p) \<Longrightarrow> name \<in> request_names \<Longrightarrow>
    zmsg_recv p = Inr (Some (x # args), p') \<Longrightarrow> vprintf Z (c_string x) = None \<Longrightarrow>
    owner_fault Z E s Format_undefined"
| no_text: "zstr_recv (pipe_in s) = Inr (Some (lit ''PUBLISH''), p) \<Longrightarrow> zmsg_recv p = Inr (Some [x], p') \<Longrightarrow>
    vprintf Z (c_string x) \<noteq> None \<Longrightarrow> owner_fault Z E s Null_pointer"
| too_early: "zstr_recv (pipe_in s) = Inr (Some name, p) \<Longrightarrow> name \<in> request_names \<Longrightarrow>
    zmsg_recv p = Inr (Some (x # args), p') \<Longrightarrow> vprintf Z (c_string x) \<noteq> None \<Longrightarrow>
    (name = lit ''PUBLISH'' \<longrightarrow> args \<noteq> []) \<Longrightarrow> state s = start_state \<Longrightarrow> owner_fault Z E s Assertion_failed"

inductive_simps owner_fault_iff: "owner_fault Z E s f"

text \<open>Reading from the pipe faults only when there is nothing to read, and returns no empty message.\<close>

lemma recv_faults:
  "zmsg_recv p = Inl f \<Longrightarrow> f = Blocked" "zstr_recv p = Inl f \<Longrightarrow> f = Blocked"
proof -
  have *: "next_frame q = Inl f \<Longrightarrow> f = Blocked" "next_message q = Inl f \<Longrightarrow> f = Blocked" for q
    by (induction q rule: next_frame.induct) auto
  show "zmsg_recv p = Inl f \<Longrightarrow> f = Blocked" "zstr_recv p = Inl f \<Longrightarrow> f = Blocked"
    using * by (auto simp: zmsg_recv_def zstr_recv_def split: list.splits)
qed

lemma zmsg_recv_cases:
  obtains (wait) "zmsg_recv p = Inl Blocked" | (interrupt) p' where "zmsg_recv p = Inr (None, p')"
  | (message) x args p' where "zmsg_recv p = Inr (Some (x # args), p')"
proof -
  have "next_message q = Inr (Some ms, p') \<Longrightarrow> ms \<noteq> []" for q ms p'
    by (induction q rule: next_message.induct) auto
  then have "zmsg_recv p = Inr (Some ms, p') \<Longrightarrow> ms \<noteq> []" for ms p'
    by (auto simp: zmsg_recv_def split: list.splits)
  then show thesis
    using that recv_faults(1) [of p] by (cases "zmsg_recv p") (auto simp: neq_Nil_conv, metis neq_Nil_conv option.exhaust)
qed

text \<open>The frames that trail a method do no harm, unless the method is \<open>$TERM\<close>.\<close>

lemma trailing_ok:
  "\<exists>p. trailing_frames (Some name) s = Inr (s\<lparr>pipe_in := p\<rparr>)"
  "trailing_frames None s = (if rest_frames (pipe_in s) = [] then Inr s else Inl Null_pointer)"
proof -
  have "s\<lparr>pipe_in := pipe_in s\<rparr> = s" by simp
  then show "\<exists>p. trailing_frames (Some name) s = Inr (s\<lparr>pipe_in := p\<rparr>)"
    by (cases "rest_frames (pipe_in s)") (auto simp: trailing_frames_def zsock_rcvmore_def zmsg_recv_def intro: exI [of _ "pipe_in s"])
  show "trailing_frames None s = (if rest_frames (pipe_in s) = [] then Inr s else Inl Null_pointer)"
    by (simp add: trailing_frames_def zsock_rcvmore_def)
qed

text \<open>The state machine, on the events that a method can cause.\<close>

lemma execute_ok:
  assumes H: "zhash_api (hash Z)" and s: "client_ok s"
    and ev: "ev \<in> {NULL_event, connect_event, subscribe_event, publish_event}"
  shows "case s_client_execute Z E ev s of
      Inr s' \<Rightarrow> client_ok s' \<and> (state s = start_state \<longrightarrow> ev = NULL_event \<or> (\<exists>e. ev = connect_event
        \<and> endpoint s = Some e \<and> zs_connect E e = 0))
    | Inl f \<Rightarrow> state s = start_state \<and> (if ev = connect_event
        then (if endpoint s = None then f = Use_after_free
              else f = Assertion_failed \<and> (\<exists>e. endpoint s = Some e \<and> zs_connect E e \<noteq> 0))
        else ev \<noteq> NULL_event \<and> f = Assertion_failed)"
proof -
  have request: ?thesis if c: "(ev, c) = (subscribe_event, Subscribe_to x) \<or> (ev, c) = (publish_event, Publish_at x y)"
    for c x y
  proof -
    have run: "implements_reaction (hash Z) s (s_client_execute Z E ev s) (call_spec E (state s) c)"
      by (rule execute_request [OF H s c])
    have "case call_spec E (state s) c of Inl e \<Rightarrow> e = Assertion_failed \<and> state s = start_state
        | Inr r \<Rightarrow> \<not> halts r \<and> state s \<noteq> start_state"
      using c by (cases "state s") (auto simp: stay_def)
    then show ?thesis using run c
      by (auto simp: implements_reaction_def reacts_def split: sum.splits)
  qed
  consider "ev = NULL_event" | "ev = connect_event" | "ev = subscribe_event" | "ev = publish_event"
    using ev by auto
  then show ?thesis
  proof cases
    case 1
    then show ?thesis using s by (simp add: execute_null [OF s])
  next
    case connect: 2
    show ?thesis
    proof (cases "state s = start_state")
      case True
      show ?thesis
      proof (cases "endpoint s")
        case None
        have "s_client_turn Z E (s\<lparr>next_event := connect_event\<rparr>) = Inl Use_after_free"
          by (simp add: turn_closed s_client_dispatch_def True in_start_state_def
              connect_to_server_endpoint_def None)
        then have "s_client_execute Z E connect_event s = Inl Use_after_free"
          using client_okD(1) [OF s] by (simp add: execute_enter [OF s] loop_turns)
        then show ?thesis by (simp add: connect True None)
      next
        case (Some e)
        have "client_ok ((entered connect_event s)\<lparr>connections := connections s @ [e],
            timeout := t, msgout := zccp_msg_new 0, sent := ws, state := connecting_state\<rparr>)" for t ws
          by (rule client_ok_after [OF s, where ws = "[]"]) (use client_okD [OF s] in simp_all)
        then show ?thesis by (simp add: connect execute_connect [OF H s True Some] True Some)
      qed
    next
      case False
      then show ?thesis using s
        by (simp add: connect execute_connect_late client_ok_def)
    qed
  qed (use request in auto)
qed

text \<open>What a method makes of its arguments, and the faults that are left to the state machine.\<close>

lemma draft_ok_setters:
  "zccp_msg_set_expression Z m x = Inr m' \<Longrightarrow> draft_ok m \<Longrightarrow> draft_ok m'"
  "zccp_msg_set_address Z m x = Inr m' \<Longrightarrow> draft_ok m \<Longrightarrow> draft_ok m'"
  "draft_ok (zccp_msg_set_content m c) = draft_ok m"
  by (auto simp: draft_ok_def msg_ok_def zccp_msg_set_expression_def zccp_msg_set_address_def
      zccp_msg_set_content_def rbind_Inr_iff)

lemma client_ok_read_draft: "client_ok s \<Longrightarrow> draft_ok m \<Longrightarrow> client_ok (s\<lparr>pipe_in := p, msgout := m\<rparr>)"
  by (intro client_ok_draft) simp_all

lemma method_ok:
  assumes "client_method Z E name s = Inr (ev, s1)" and "client_ok s"
  shows "client_ok s1 \<and> state s1 = state s \<and> ev \<in> {NULL_event, connect_event, subscribe_event, publish_event}"
proof -
  note simps = client_method_def rbind_Inr_iff split_def Let_def of_option_Inr_iff
  note draft = client_okD(3) [OF assms(2)]
  consider "name = lit ''CONNECT''" | "name = lit ''SUBSCRIBE''" | "name = lit ''PUBLISH''"
    | "name \<noteq> lit ''CONNECT''" "name \<noteq> lit ''SUBSCRIBE''" "name \<noteq> lit ''PUBLISH''"
    by blast
  then show ?thesis
  proof cases
    case 1
    then show ?thesis using assms by (auto simp: simps split: option.splits)
  next
    case 2
    then show ?thesis using assms draft_ok_setters(1) [OF _ draft]
      by (auto simp: simps intro!: client_ok_read_draft)
  next
    case 3
    then show ?thesis using assms draft_ok_setters(2) [OF _ draft]
      by (auto simp: simps draft_ok_setters(3) intro!: client_ok_read_draft)
  next
    case 4
    then show ?thesis using assms by (auto simp: simps)
  qed
qed

lemma method_outcome:
  assumes name: "zstr_recv (pipe_in s) = Inr (Some name, p)" "name \<noteq> lit ''$TERM''" and E: "missing_number E = Inr i"
  shows "case client_method Z E name (s\<lparr>pipe_in := p\<rparr>) of
      Inl f \<Rightarrow> \<forall>g. owner_fault Z E s g \<longleftrightarrow> g = f
    | Inr (ev, s1) \<Rightarrow> \<forall>g. owner_fault Z E s g \<longleftrightarrow> state s = start_state \<and> (if ev = connect_event
        then (if endpoint s1 = None then g = Use_after_free
              else g = Assertion_failed \<and> (\<exists>e. endpoint s1 = Some e \<and> zs_connect E e \<noteq> 0))
        else ev \<noteq> NULL_event \<and> g = Assertion_failed)"
proof -
  note simps = owner_fault_iff name client_method_def recv_string_def zmsg_popstr_def format_string_def
    zccp_msg_set_expression_def zccp_msg_set_address_def
  have number: "\<exists>j ms. recv_number E msg = Inr (j, ms)" for msg
    using E by (cases msg) (simp_all add: recv_number_def zmsg_popstr_def)
  consider "name = lit ''CONNECT''" | "name = lit ''SUBSCRIBE''" | "name = lit ''PUBLISH''"
    | "name \<noteq> lit ''CONNECT''" "name \<notin> request_names"
    by blast
  then show ?thesis
  proof cases
    case 1
    show ?thesis
    proof (cases p rule: zmsg_recv_cases)
      case (message x args p')
      obtain j ms where "recv_number E args = Inr (j, ms)" using number by blast
      with message 1 show ?thesis by (cases "endpoint s") (auto simp: simps)
    qed (use 1 in \<open>cases "endpoint s"; auto simp: simps\<close>)+
  next
    case 2
    show ?thesis
    proof (cases p rule: zmsg_recv_cases)
      case (message x args p')
      with 2 show ?thesis by (cases "vprintf Z (c_string x)") (auto simp: simps)
    qed (use 2 in \<open>auto simp: simps\<close>)
  next
    case 3
    show ?thesis
    proof (cases p rule: zmsg_recv_cases)
      case (message x args p')
      with 3 show ?thesis by (cases "vprintf Z (c_string x)"; cases args) (auto simp: simps)
    qed (use 3 in \<open>auto simp: simps\<close>)
  next
    case 4
    then show ?thesis using name(2) by (auto simp: simps)
  qed
qed

abbreviation answer :: "'h s_client_t \<Rightarrow> (int \<times> 'h s_client_t) result" where
  "answer self \<equiv> Inr (return_code self, self)"

lemma trailing_answer:
  assumes "client_ok s"
  shows "\<exists>s'. rbind (trailing_frames (Some name) s) answer = Inr (0, s') \<and> client_ok s'"
  using trailing_ok(1) [of name s] assms client_okD(1) [OF assms] by (auto simp: return_code_def)

lemma method_fault_iff:
  assumes H: "zhash_api (hash Z)" and s: "client_ok s" and E: "missing_number E = Inr i"
    and name: "zstr_recv (pipe_in s) = Inr (Some name, p)" "name \<noteq> lit ''VERBOSE''" "name \<noteq> lit ''$TERM''"
  shows "(s_client_handle_pipe Z E s = Inl f \<longleftrightarrow> owner_fault Z E s f)
    \<and> (s_client_handle_pipe Z E s = Inr (0, s') \<longrightarrow> client_ok s')"
proof -
  let ?s = "s\<lparr>pipe_in := p\<rparr>"
  have run: "s_client_handle_pipe Z E s = rbind (client_method Z E name ?s) (\<lambda>(ev, self).
      rbind (s_client_execute Z E ev self) (\<lambda>self. rbind (trailing_frames (Some name) self) answer))"
    using name by (simp add: s_client_handle_pipe_def Let_def split_def rbind_assoc)
  note outcome = method_outcome [OF name(1,3) E, of Z]
  show ?thesis
  proof (cases "client_method Z E name ?s")
    case (Inl g)
    then show ?thesis using outcome by (auto simp: run)
  next
    case (Inr y)
    then obtain ev s1 where y: "client_method Z E name ?s = Inr (ev, s1)" by (cases y) auto
    from method_ok [OF y] s have s1: "client_ok s1" "state s1 = state s"
        "ev \<in> {NULL_event, connect_event, subscribe_event, publish_event}" by auto
    note ex = execute_ok [OF H s1(1,3), of E]
    show ?thesis
    proof (cases "s_client_execute Z E ev s1")
      case (Inl g)
      then show ?thesis using outcome ex s1(2) by (auto simp: run y split: if_splits)
    next
      case (Inr s2)
      then have "client_ok s2" using ex by simp
      from trailing_answer [OF this, of name] show ?thesis
        using outcome ex s1(2) Inr by (auto simp: run y split: if_splits)
    qed
  qed
qed

text \<open>The faults of the callback are those of \<open>owner_fault\<close>; otherwise it keeps the invariant.\<close>

lemma pipe_fault_iff:
  assumes H: "zhash_api (hash Z)" and s: "client_ok s" and E: "missing_number E = Inr i"
  shows "(s_client_handle_pipe Z E s = Inl f \<longleftrightarrow> owner_fault Z E s f)
    \<and> (s_client_handle_pipe Z E s = Inr (0, s') \<longrightarrow> client_ok s')"
proof (cases "zstr_recv (pipe_in s)")
  case (Inl g)
  then show ?thesis using recv_faults(2) [OF Inl]
    by (auto simp: s_client_handle_pipe_def owner_fault_iff)
next
  case (Inr x)
  then obtain m p where x: "zstr_recv (pipe_in s) = Inr (m, p)" by (cases x) auto
  let ?s = "s\<lparr>pipe_in := p\<rparr>"
  consider "m = None" | "m = Some (lit ''VERBOSE'')" | "m = Some (lit ''$TERM'')"
    | name where "m = Some name" "name \<noteq> lit ''VERBOSE''" "name \<noteq> lit ''$TERM''" by (cases m) auto
  then show ?thesis
  proof cases
    case 1
    then show ?thesis by (simp add: s_client_handle_pipe_def x owner_fault_iff)
  next
    case 2
    then have "s_client_handle_pipe Z E s = rbind (trailing_frames m (?s\<lparr>verbose := True\<rparr>)) answer"
      by (simp add: s_client_handle_pipe_def x Let_def)
    then show ?thesis using trailing_answer [of "?s\<lparr>verbose := True\<rparr>" "lit ''VERBOSE''"] s 2
      by (auto simp: owner_fault_iff x)
  next
    case 3
    then show ?thesis
      by (auto simp: s_client_handle_pipe_def x Let_def trailing_ok(2) return_code_def owner_fault_iff)
  next
    case 4
    then show ?thesis using method_fault_iff [OF H s E] x by simp
  qed
qed

section \<open>The invariant along the reactor\<close>

lemma client_start_ok:
  assumes "zccp_client_start p = Inr s"
  shows "client_ok s" and "pipe_in s = p" and "endpoint s = Some None" and "sent s = []" and "pipe_out s = []"
    and "verbose s = False" and "state s = start_state"
  using assms by (auto simp: zccp_client_start_def engine_handle_socket_def s_client_new_def
      client_initialize_def client_ok_def)

text \<open>The faults of a running client, by the event.\<close>

definition client_fault :: "('h, 'r) czmq \<Rightarrow> client_env \<Rightarrow> 'h s_client_t \<Rightarrow> reactor_event \<Rightarrow> fault \<Rightarrow> bool" where
  "client_fault Z E s e f \<longleftrightarrow> (case e of
      Pipe_ready \<Rightarrow> owner_fault Z E s f
    | Dealer_ready input \<Rightarrow> f = Null_pointer \<and> state s = connected_state
        \<and> (\<exists>m sn a hs. zccp_msg_recv (hash Z) False input = Some m
          \<and> command_of (hash Z) m = Some (Deliver sn a hs []))
    | _ \<Rightarrow> False)"

lemma client_event_ok:
  assumes H: "zhash_api (hash Z)" and s: "client_ok s" and E: "missing_number E = Inr i" and e: "may_happen e s"
  shows "handle_event Z E e s = Inl f \<longleftrightarrow> client_fault Z E s e f"
    and "handle_event Z E e s = Inr (0, s') \<Longrightarrow> client_ok s'"
proof -
  have "(handle_event Z E e s = Inl f \<longleftrightarrow> client_fault Z E s e f)
    \<and> (handle_event Z E e s = Inr (0, s') \<longrightarrow> client_ok s')"
  proof (cases e)
    case (Owner_sends m)
    then show ?thesis using s by (auto simp: handle_event_def client_fault_def)
  next
    case Pipe_ready
    have "handle_event Z E e s = s_client_handle_pipe Z E s"
      using client_okD(6) [OF s] by (simp add: Pipe_ready handle_event_def call_reader_def)
    then show ?thesis using pipe_fault_iff [OF H s E] by (simp add: Pipe_ready client_fault_def)
  next
    case (Dealer_ready input)
    have run: "handle_event Z E e s = s_client_handle_protocol Z E input s"
      using client_okD(6) [OF s] by (simp add: Dealer_ready handle_event_def call_reader_def)
    show ?thesis
    proof (cases "zccp_msg_recv (hash Z) False input")
      case None
      then show ?thesis unfolding run by (simp add: s_client_handle_protocol_def client_fault_def Dealer_ready)
    next
      case (Some m)
      obtain cmd where cmd: "command_of (hash Z) m = Some cmd" using recv_dealer(2) [OF H Some] by auto
      have "state s \<noteq> start_state" using e s by (auto simp: Dealer_ready may_happen_def client_ok_def)
      then have spec: "client_spec (state s) cmd = Inl g \<longleftrightarrow>
          g = Null_pointer \<and> state s = connected_state \<and> (\<exists>sn a hs. cmd = Deliver sn a hs [])" for g
        using client_okD(7,8) [OF s] by (cases cmd; cases "state s") (auto split: list.splits)
      note handled = protocol_handled [OF H s Some cmd, of E]
      show ?thesis
      proof (cases "client_spec (state s) cmd")
        case (Inl g)
        with handled have "s_client_handle_protocol Z E input s = Inl g" by simp
        then show ?thesis unfolding run using spec [of g] Inl cmd Some by (auto simp: Dealer_ready client_fault_def)
      next
        case (Inr r)
        with handled obtain s2 where s2: "s_client_handle_protocol Z E input s = Inr (if halts r then -1 else 0, s2)"
            "reacts (hash Z) s r s2" by auto
        have "\<not> client_fault Z E s e f" using spec [of f] Inr cmd Some by (auto simp: client_fault_def Dealer_ready)
        with s2 show ?thesis unfolding run by (auto simp: reacts_def split: if_splits)
      qed
    qed
  next
    case (Timer_expired t)
    then show ?thesis using e client_okD(4) [OF s] by (simp add: may_happen_def)
  qed
  then show "handle_event Z E e s = Inl f \<longleftrightarrow> client_fault Z E s e f"
    and "handle_event Z E e s = Inr (0, s') \<Longrightarrow> client_ok s'" by blast+
qed

lemma client_reachable_ok:
  assumes "client_reachable Z E s" and "zhash_api (hash Z)" and "missing_number E = Inr i"
  shows "client_ok s"
  using assms(1)
proof (induction rule: client_reachable.induct)
  case (init s)
  then show ?case by (rule client_start_ok(1))
next
  case (reach s s')
  from reach.hyps(2) obtain e where "may_happen e s" "handle_event Z E e s = Inr (0, s')"
    by (rule client_step_elim)
  with client_event_ok(2) [OF assms(2) reach.IH assms(3)] show ?case by blast
qed

end
