(* ===== verification/Client_Api.thy ===== *)
theory Client_Api
  imports Client_State
begin

text \<open>
  The class \<open>zccp_client\<close> of \<^verbatim>\<open>src/zccp_client_engine.inc\<close>: what an application calls.  A call sends a
  command to the actor and, except for publishing, waits for the reply.  The messages that the actor
  sends meanwhile are an argument of the call, \<open>arrivals\<close>.

  \<open>s_accept_reply\<close> loops until a reply matches one of its filters.  Each turn takes at least one frame
  from the pipe, so that the loop ends on every finite pipe, at the latest in the fault \<open>Blocked\<close>.
\<close>

section \<open>The object\<close>

record zccp_client_t =
  actor_in :: zsock_in                           \<comment> \<open>what the actor has sent\<close>
  actor_out :: "zmsg list"                       \<comment> \<open>what was sent to the actor\<close>
  status :: int
  reason :: "cstr option"
  last_sender :: "cstr option"
  last_address :: "cstr option"
  last_content :: "cstr option"

definition zccp_client_new :: zccp_client_t where
  "zccp_client_new = \<lparr>actor_in = \<lparr>rest_frames = [], queue = []\<rparr>, actor_out = [], status = 0,
     reason = None, last_sender = None, last_address = None, last_content = None\<rparr>"

text \<open>\<open>zactor_destroy\<close> sends \<open>$TERM\<close> to the actor; the result is what remains to be delivered to it.\<close>

definition zccp_client_destroy :: "zccp_client_t option \<Rightarrow> zmsg list \<times> zccp_client_t option" where
  "zccp_client_destroy self_p = (case self_p of
      None \<Rightarrow> ([], None)
    | Some self \<Rightarrow> (actor_out self @ [[lit ''$TERM'']], None))"

definition send_command :: "frame list \<Rightarrow> zccp_client_t \<Rightarrow> zccp_client_t" where
  "send_command msg self = self\<lparr>actor_out := actor_out self @ [msg]\<rparr>"

definition zccp_client_verbose :: "zccp_client_t \<Rightarrow> zccp_client_t" where
  "zccp_client_verbose self = send_command [lit ''VERBOSE''] self"

section \<open>Accepting a reply\<close>

text \<open>\<open>zsock_recv\<close> leaves its targets alone when it is interrupted.\<close>

definition load_reply :: "client_env \<Rightarrow> cstr \<Rightarrow> zccp_client_t \<Rightarrow> zccp_client_t result" where
  "load_reply E reply self =
     (if reply = lit ''SUCCESS'' then
        rbind (zmsg_recv (actor_in self)) (\<lambda>(msg, p).
        case msg of
          None \<Rightarrow> Inr (self\<lparr>actor_in := p\<rparr>)
        | Some msg \<Rightarrow> rbind (recv_number E msg) (\<lambda>(i, msg). Inr (self\<lparr>actor_in := p, status := i\<rparr>)))
      else if reply = lit ''FAILURE'' then
        let self = self\<lparr>reason := None\<rparr> in
        rbind (zmsg_recv (actor_in self)) (\<lambda>(msg, p).
        case msg of
          None \<Rightarrow> Inr (self\<lparr>actor_in := p\<rparr>)
        | Some msg \<Rightarrow> rbind (recv_number E msg) (\<lambda>(i, msg).
            Inr (self\<lparr>actor_in := p, status := i, reason := fst (recv_string msg)\<rparr>)))
      else if reply = lit ''MESSAGE'' then
        let self = self\<lparr>last_sender := None, last_address := None, last_content := None\<rparr> in
        rbind (zmsg_recv (actor_in self)) (\<lambda>(msg, p).
        case msg of
          None \<Rightarrow> Inr (self\<lparr>actor_in := p\<rparr>)
        | Some msg \<Rightarrow>
            let (s, msg) = recv_string msg; (a, msg) = recv_string msg; (c, msg) = recv_string msg
            in Inr (self\<lparr>actor_in := p, last_sender := s, last_address := a, last_content := c\<rparr>))
      else Inr self)"

text \<open>The loop over the filters; the result says whether one matched.\<close>

fun try_filters :: "client_env \<Rightarrow> cstr \<Rightarrow> cstr list \<Rightarrow> zccp_client_t \<Rightarrow> (bool \<times> zccp_client_t) result" where
  "try_filters E reply [] self = Inr (False, self)"
| "try_filters E reply (f # fs) self =
     (if reply = f then rbind (load_reply E reply self) (\<lambda>self. Inr (True, self))
      else try_filters E reply fs (self\<lparr>actor_in := zsock_flush (actor_in self)\<rparr>))"

fun weight :: "zmsg option \<Rightarrow> nat" where
  "weight None = 1"
| "weight (Some fs) = Suc (length fs)"

definition pending :: "zsock_in \<Rightarrow> nat" where
  "pending p = length (rest_frames p) + sum_list (map weight (queue p))"

lemma next_frame_pending: "next_frame q = Inr (m, p) \<Longrightarrow> pending p < sum_list (map weight q)"
  by (induction q rule: next_frame.induct) (auto simp: pending_def)

lemma zstr_recv_pending: "zstr_recv p = Inr (m, p') \<Longrightarrow> pending p' < pending p"
  using next_frame_pending [of "queue p" m p']
  by (auto simp: zstr_recv_def pending_def split: list.splits)

lemma try_filters_unmatched:
  "try_filters E reply fs self = Inr (False, self') \<Longrightarrow> pending (actor_in self') \<le> pending (actor_in self)"
proof (induction fs arbitrary: self)
  case (Cons f fs)
  then have "pending (actor_in self') \<le> pending (zsock_flush (actor_in self))"
    using Cons.IH [of "self\<lparr>actor_in := zsock_flush (actor_in self)\<rparr>"]
    by (auto simp: rbind_Inr_iff split: if_splits)
  also have "\<dots> \<le> pending (actor_in self)" by (simp add: pending_def zsock_flush_def)
  finally show ?case .
qed simp

function s_accept_reply :: "client_env \<Rightarrow> cstr list \<Rightarrow> zccp_client_t \<Rightarrow> (int \<times> zccp_client_t) result" where
  "s_accept_reply E filters self =
     rbind (zstr_recv (actor_in self)) (\<lambda>(reply, p).
     case reply of
       None \<Rightarrow> Inr (-1, self\<lparr>actor_in := p\<rparr>)
     | Some reply \<Rightarrow>
         rbind (try_filters E reply filters (self\<lparr>actor_in := p\<rparr>)) (\<lambda>(matched, self).
         if matched then Inr (0, self) else s_accept_reply E filters self))"
  by auto

termination
proof (relation "measure (\<lambda>(E, filters, self). pending (actor_in self))")
  fix E filters self x m p reply y matched self'
  assume x: "zstr_recv (actor_in self) = Inr x" "(m, p) = x"
    and y: "try_filters E reply filters (self\<lparr>actor_in := p\<rparr>) = Inr y" "(matched, self') = y" "\<not> matched"
  have "pending p < pending (actor_in self)" using x by (auto intro: zstr_recv_pending)
  moreover have "pending (actor_in self') \<le> pending p"
    using y try_filters_unmatched [of E reply filters "self\<lparr>actor_in := p\<rparr>" self'] by auto
  ultimately show "((E, filters, self'), E, filters, self) \<in> measure (\<lambda>(E, filters, self). pending (actor_in self))"
    by simp
qed simp

declare s_accept_reply.simps [simp del]

section \<open>The calls\<close>

definition arrive :: "zmsg option list \<Rightarrow> zccp_client_t \<Rightarrow> zccp_client_t" where
  "arrive ms self = self\<lparr>actor_in := (actor_in self)\<lparr>queue := queue (actor_in self) @ ms\<rparr>\<rparr>"

abbreviation replies :: "cstr list" where
  "replies \<equiv> [lit ''SUCCESS'', lit ''FAILURE'']"

text \<open>What a call sends, and the wait for its reply.\<close>

definition connect_request :: "cstr option \<Rightarrow> int \<Rightarrow> zccp_client_t \<Rightarrow> zccp_client_t result" where
  "connect_request ep t self =
     rbind (send_string ep) (\<lambda>ep. Inr (send_command [lit ''CONNECT'', ep, decimal t] self))"

definition subscribe_request :: "cstr option \<Rightarrow> zccp_client_t \<Rightarrow> zccp_client_t result" where
  "subscribe_request expr self =
     rbind (send_string expr) (\<lambda>expr. Inr (send_command [lit ''SUBSCRIBE'', expr] self))"

definition await_reply :: "client_env \<Rightarrow> zmsg option list \<Rightarrow> zccp_client_t \<Rightarrow> (int \<times> zccp_client_t) result" where
  "await_reply E arrivals self =
     rbind (s_accept_reply E replies (arrive arrivals self)) (\<lambda>(rc, self).
     if rc \<noteq> 0 then Inr (-1, self) else Inr (status self, self))"

definition zccp_client_connect :: "client_env \<Rightarrow> cstr option \<Rightarrow> int \<Rightarrow> zmsg option list \<Rightarrow> zccp_client_t
    \<Rightarrow> (int \<times> zccp_client_t) result" where
  "zccp_client_connect E ep t arrivals self = rbind (connect_request ep t self) (await_reply E arrivals)"

definition zccp_client_subscribe :: "client_env \<Rightarrow> cstr option \<Rightarrow> zmsg option list \<Rightarrow> zccp_client_t
    \<Rightarrow> (int \<times> zccp_client_t) result" where
  "zccp_client_subscribe E expr arrivals self = rbind (subscribe_request expr self) (await_reply E arrivals)"

text \<open>The function is declared to return an \<open>int\<close>, and returns none.\<close>

definition zccp_client_publish :: "cstr option \<Rightarrow> cstr option \<Rightarrow> zccp_client_t \<Rightarrow> zccp_client_t result" where
  "zccp_client_publish addr cont self =
     rbind (send_string addr) (\<lambda>addr.
     rbind (send_string cont) (\<lambda>cont.
     Inr (send_command [lit ''PUBLISH'', addr, cont] self)))"

definition zccp_client_recv :: "client_env \<Rightarrow> zmsg option list \<Rightarrow> zccp_client_t
    \<Rightarrow> (cstr option \<times> zccp_client_t) result" where
  "zccp_client_recv E arrivals self =
     rbind (s_accept_reply E [lit ''MESSAGE''] (arrive arrivals self)) (\<lambda>(rc, self).
     if rc \<noteq> 0 then Inr (None, self) else Inr (last_content self, self))"

definition zccp_client_status :: "zccp_client_t \<Rightarrow> int" where
  "zccp_client_status self = status self"

definition zccp_client_reason :: "zccp_client_t \<Rightarrow> cstr option" where
  "zccp_client_reason self = reason self"

definition zccp_client_sender :: "zccp_client_t \<Rightarrow> cstr option" where
  "zccp_client_sender self = last_sender self"

definition zccp_client_address :: "zccp_client_t \<Rightarrow> cstr option" where
  "zccp_client_address self = last_address self"

definition zccp_client_content :: "zccp_client_t \<Rightarrow> cstr option" where
  "zccp_client_content self = last_content self"

section \<open>What a reply does\<close>

lemma reply_names [simp]:
  "c_string (lit ''SUCCESS'') = lit ''SUCCESS''" "c_string (lit ''FAILURE'') = lit ''FAILURE''"
  "c_string (lit ''MESSAGE'') = lit ''MESSAGE''"
  "lit ''FAILURE'' \<noteq> lit ''SUCCESS''" "lit ''MESSAGE'' \<noteq> lit ''SUCCESS''" "lit ''MESSAGE'' \<noteq> lit ''FAILURE''"
  by code_simp+

text \<open>One turn of the loop on the next message of the pipe.\<close>

lemma accept_message:
  assumes "actor_in self = \<lparr>rest_frames = [], queue = Some (name # args) # q\<rparr>" and "c_string name = name"
  shows "s_accept_reply E filters self =
    rbind (try_filters E name filters (self\<lparr>actor_in := \<lparr>rest_frames = args, queue = q\<rparr>\<rparr>)) (\<lambda>(matched, self).
      if matched then Inr (0, self) else s_accept_reply E filters self)"
  using assms by (simp add: s_accept_reply.simps [of E filters self] zstr_recv_def)

lemma try_unmatched:
  "reply \<notin> set fs \<Longrightarrow> try_filters E reply fs self = Inr (False, if fs = [] then self
     else self\<lparr>actor_in := zsock_flush (actor_in self)\<rparr>)"
  by (induction fs arbitrary: self) (auto simp: zsock_flush_def)

text \<open>A message that no filter matches is dropped.\<close>

lemma accept_skips:
  assumes "name \<notin> set filters" and "filters \<noteq> []" and "c_string name = name"
    and "actor_in self = \<lparr>rest_frames = [], queue = Some (name # args) # q\<rparr>"
  shows "s_accept_reply E filters self
    = s_accept_reply E filters (self\<lparr>actor_in := \<lparr>rest_frames = [], queue = q\<rparr>\<rparr>)"
  using assms by (simp add: accept_message [OF assms(4,3)] try_unmatched [OF assms(1)] zsock_flush_def)

lemma accept_skips_all:
  assumes "\<forall>m \<in> set ms. \<exists>args. m = name # args" and "name \<notin> set filters" and "filters \<noteq> []"
    and "c_string name = name"
  shows "s_accept_reply E filters (self\<lparr>actor_in := \<lparr>rest_frames = [], queue = map Some ms @ q\<rparr>\<rparr>)
    = s_accept_reply E filters (self\<lparr>actor_in := \<lparr>rest_frames = [], queue = q\<rparr>\<rparr>)"
  using assms(1)
proof (induction ms)
  case (Cons m ms)
  then obtain args where "m = name # args" by auto
  with Cons show ?case
    using accept_skips [OF assms(2-4), of "self\<lparr>actor_in := \<lparr>rest_frames = [], queue = map Some (m # ms) @ q\<rparr>\<rparr>"
        args "map Some ms @ q" E] by simp
qed simp

lemma accept_success:
  assumes "actor_in self = \<lparr>rest_frames = [], queue = Some [lit ''SUCCESS'', decimal i] # q\<rparr>"
  shows "s_accept_reply E replies self = Inr (0, self\<lparr>actor_in := \<lparr>rest_frames = [], queue = q\<rparr>, status := i\<rparr>)"
  by (simp add: accept_message [OF assms] load_reply_def zmsg_recv_def recv_number_def zmsg_popstr_def
      c_string_decimal atol_decimal)

lemma accept_delivery:
  assumes "actor_in self = \<lparr>rest_frames = [], queue = Some [lit ''MESSAGE'', s, a, c] # q\<rparr>"
    and "wf_cstr s" and "wf_cstr a" and "wf_cstr c"
  shows "s_accept_reply E [lit ''MESSAGE''] self = Inr (0, self\<lparr>actor_in := \<lparr>rest_frames = [], queue = q\<rparr>,
    last_sender := Some s, last_address := Some a, last_content := Some c\<rparr>)"
  using assms(2-4) by (simp add: accept_message [OF assms(1)] load_reply_def zmsg_recv_def recv_string_def
      zmsg_popstr_def c_string_wf Let_def)

text \<open>
  A reply \<open>FAILURE\<close> has lost its arguments when its filter is reached: they are flushed when the first
  filter does not match.
\<close>

lemma accept_failure:
  assumes "actor_in self = \<lparr>rest_frames = [], queue = Some (lit ''FAILURE'' # args) # q\<rparr>"
  shows "s_accept_reply E replies self =
    rbind (load_reply E (lit ''FAILURE'') (self\<lparr>actor_in := \<lparr>rest_frames = [], queue = q\<rparr>\<rparr>)) (\<lambda>self. Inr (0, self))"
  by (simp add: accept_message [OF assms] zsock_flush_def rbind_assoc)

end
