(* ===== verification/Client_Claims.thy ===== *)
theory Client_Claims
  imports Client_Refine Client_Api Codec_Claims
begin

text \<open>
  The properties of the client: its side of the protocol, the calls of the application, the invariant
  of its state, and what can go wrong.  The witnesses run on the concrete library \<open>ref_czmq\<close>.
\<close>

section \<open>Concrete clients\<close>

definition ref_cenv :: client_env where
  "ref_cenv = \<lparr>zs_connect = (\<lambda>e. if e = None then -1 else 0), missing_number = Inr 0\<rparr>"

lemma ref_cenv_number: "missing_number ref_cenv = Inr 0"
  by (simp add: ref_cenv_def)

text \<open>A client in a given state, connected to the endpoint \<open>a\<close>, and one that has just started.\<close>

definition client_in :: "state_t \<Rightarrow> (cstr \<times> cstr) list s_client_t" where
  "client_in st = (s_client_new \<lparr>rest_frames = [], queue = []\<rparr>)
     \<lparr>readers := [(pipe_socket, s_client_handle_pipe_fn), (dealer_socket, s_client_handle_protocol_fn)],
      connections := [Some [97]], endpoint := Some (Some [97]), state := st\<rparr>"

definition new_client :: "(cstr \<times> cstr) list s_client_t" where
  "new_client = (client_in start_state)\<lparr>connections := [], endpoint := Some None\<rparr>"

lemma client_in_fields [simp]:
  "state (client_in st) = st" "endpoint (client_in st) = Some (Some [97])" "sent (client_in st) = []"
  "pipe_out (client_in st) = []" "msgout (client_in st) = zccp_msg_new 0" "terminated (client_in st) = False"
  "pipe_in (client_in st) = \<lparr>rest_frames = [], queue = []\<rparr>" "connections (client_in st) = [Some [97]]"
  by (simp_all add: client_in_def s_client_new_def client_initialize_def)

lemma client_in_ok [simp]:
  "st \<in> {connecting_state, connected_state, subscribing_state, reconnecting_state} \<Longrightarrow> client_ok (client_in st)"
  by (auto simp: client_ok_def client_in_def s_client_new_def client_initialize_def)

lemma new_client_ok [simp]: "client_ok new_client"
  by (simp add: client_ok_def new_client_def client_in_def s_client_new_def client_initialize_def)

lemma new_client_fields [simp]:
  "state new_client = start_state" "endpoint new_client = Some None" "sent new_client = []" "pipe_out new_client = []"
  "msgout new_client = zccp_msg_new 0" "pipe_in new_client = \<lparr>rest_frames = [], queue = []\<rparr>"
  "connections new_client = []"
  by (simp_all add: new_client_def client_in_def s_client_new_def client_initialize_def)

lemma new_client_start: "zccp_client_start \<lparr>rest_frames = [], queue = []\<rparr> = Inr new_client"
  by (simp add: zccp_client_start_def engine_handle_socket_def new_client_def client_in_def s_client_new_def
      client_initialize_def)

lemma new_client_reachable: "client_reachable Z E new_client"
  by (rule client_reachable.init) (rule new_client_start)

definition received_command :: "int \<Rightarrow> (cstr \<times> cstr) list zccp_msg" where
  "received_command i = (zccp_msg_new i)\<lparr>headers := Some []\<rparr>"

lemma hello_ok_recv: "zccp_msg_recv (hash ref_czmq) False (Some [[0xAA, 0xAA, 2, 0, 0, 0, 0]])
    = Some (received_command 2)"
  by code_simp

lemma hello_ok_command: "command_of (hash ref_czmq) (received_command 2) = Some (Hello_ok Map.empty)"
  by (simp add: received_command_def command_of_def zccp_msg_new_def)

definition empty_delivery :: "(cstr \<times> cstr) list zccp_msg" where
  "empty_delivery = (zccp_msg_new ZCCP_MSG_DELIVER)
     \<lparr>sender := Some [], address := Some [], headers := Some [], content := Some []\<rparr>"

lemma empty_delivery_recv:
  "zccp_msg_recv (hash ref_czmq) False (Some [[0xAA, 0xAA, 7, 0, 0, 0, 0, 0, 0]]) = Some empty_delivery"
  by code_simp

lemma empty_delivery_command:
  "command_of (hash ref_czmq) empty_delivery = Some (Deliver [] [] Map.empty [])"
  by (simp add: empty_delivery_def command_of_def zccp_msg_new_def)

section \<open>Drafts on the wire\<close>

lemma draft_stands:
  assumes "zhash_api (hash Z)" and "draft_ok m" and "fields_fit (hash Z) (m\<lparr>msg_id := i\<rparr>)"
    and "command_of (hash Z) (m\<lparr>msg_id := i\<rparr>) = Some c"
  shows "stands_for Z (Inr (draft_wire (hash Z) m i)) c"
proof -
  have ok: "msg_ok (m\<lparr>msg_id := i\<rparr>)" using assms(2) by (simp add: draft_ok_def msg_ok_def)
  have "1 \<le> i \<and> i \<le> 12" using assms(4) command_of_None_iff [of "hash Z" "m\<lparr>msg_id := i\<rparr>"] by simp
  then have "zccp_msg_encode Z (m\<lparr>msg_id := i\<rparr>) = Inr (draft_wire (hash Z) m i)"
    using encode_is_grammar [OF assms(1) ok] by (simp add: draft_wire_def)
  with stands_for_encode [OF assms(1) ok assms(3,4)] show ?thesis by simp
qed

lemma no_headers [simp]: "dict_fits H None"
  by (simp add: dict_fits_def entries_of_def)

lemma no_text [simp]: "opt_fits None"
  by (simp add: opt_fits_def sized_fits_def)

lemma opt_fits_Some [simp]: "opt_fits (Some x) = sized_fits 1 x"
  by (simp add: opt_fits_def)

lemma draft_commands:
  assumes "zhash_api (hash Z)" and "draft_ok m"
  shows "stands_for Z (Inr (draft_wire (hash Z) m ZCCP_MSG_HELLO)) (Hello [] Map.empty)"
    and "stands_for Z (Inr (draft_wire (hash Z) m ZCCP_MSG_PING_OK)) Ping_ok"
    and "expression m = Some e \<Longrightarrow> sized_fits 1 e \<Longrightarrow>
      stands_for Z (Inr (draft_wire (hash Z) m ZCCP_MSG_SUBSCRIBE)) (Subscribe e Map.empty)"
    and "address m = Some a \<Longrightarrow> content m = Some c \<Longrightarrow> sized_fits 1 a \<Longrightarrow>
      stands_for Z (Inr (draft_wire (hash Z) m ZCCP_MSG_PUBLISH)) (Publish a Map.empty c)"
  using assms(2)
  by (auto intro!: draft_stands [OF assms] simp: draft_ok_def fields_fit_def command_of_def simp del: One_nat_def)

section \<open>Properties\<close>

text \<open>
  C7: the client refines its specification.  For every command received from the server, in
  every state, the callback sends to the server, tells the owner, and changes the state as
  \<open>client_spec\<close> prescribes; it returns -1, which stops the reactor, exactly when the client halts.
\<close>

theorem client_refines:
  assumes "zhash_api (hash Z)" and "client_ok s"
    and "zccp_msg_recv (hash Z) False input = Some m" and "command_of (hash Z) m = Some cmd"
  shows "case client_spec (state s) cmd of
      Inl e \<Rightarrow> s_client_handle_protocol Z E input s = Inl e
    | Inr r \<Rightarrow> \<exists>s'. s_client_handle_protocol Z E input s = Inr (if halts r then -1 else 0, s')
        \<and> terminated s' = halts r \<and> state s' = next_state r
        \<and> sent s' = sent s @ map (draft_wire (hash Z) (msgout s)) (says r)
        \<and> pipe_out s' = pipe_out s @ tells r \<and> (\<not> halts r \<longrightarrow> client_ok s')"
  using protocol_handled [OF assms, of E]
  by (auto simp: reacts_def split: sum.splits)

theorem client_refines_witness:
  "\<exists>s'. s_client_handle_protocol ref_czmq ref_cenv (Some [[0xAA, 0xAA, 2, 0, 0, 0, 0]]) (client_in connecting_state)
      = Inr (0, s') \<and> state s' = connected_state \<and> pipe_out s' = [success]"
  using client_refines [OF _ _ hello_ok_recv hello_ok_command, of "client_in connecting_state" ref_cenv]
    ref_lib.zhash_api_axioms by (auto simp: stay_def)

text \<open>
  C12: the calls of the owner refine their specification.  What an application writes to the pipe for
  one of the five methods is read completely; the draft, the endpoint and the options change as
  \<open>prepare\<close> says, and the state machine reacts as \<open>call_spec\<close> says.  Outside the states \<open>start\<close> and
  \<open>connected\<close> CONNECT, SUBSCRIBE and PUBLISH are read and forgotten: nothing is sent, nothing is told.
\<close>

theorem calls_refine:
  assumes "zhash_api (hash Z)" and "client_ok s" and "holds_call s c q" and "wf_call c" and "endpoint s = Some e"
  shows "case rbind (prepare Z E c s) (\<lambda>s1. rbind (call_spec E (state s) c) (\<lambda>r. Inr (s1, r))) of
      Inl f \<Rightarrow> s_client_handle_pipe Z E s = Inl f
    | Inr (s1, r) \<Rightarrow> \<exists>s'. s_client_handle_pipe Z E s = Inr (if halts r then -1 else 0, s')
        \<and> terminated s' = halts r \<and> state s' = next_state r
        \<and> sent s' = sent s @ map (draft_wire (hash Z) (msgout s1)) (says r)
        \<and> pipe_out s' = pipe_out s @ tells r \<and> connections s' = connections s1
        \<and> pipe_in s' = \<lparr>rest_frames = [], queue = q\<rparr> \<and> (\<not> halts r \<longrightarrow> client_ok s')"
proof (cases c)
  case (Connect ep t)
  show ?thesis
    using connect_handled [OF assms(1-4) Connect assms(5), of E]
    by (cases "call_spec E (state s) c") (auto simp: reacts_def Connect)
next
  case (Subscribe_to x)
  have same: "prepare Z E c s = Inr s1 \<Longrightarrow> sent s1 = sent s \<and> pipe_out s1 = pipe_out s" for s1
    by (auto simp: Subscribe_to rbind_Inr_iff)
  show ?thesis
    using request_handled [OF assms(1-4), of subscribe_event x "[]" E] same
    by (cases "prepare Z E c s"; cases "call_spec E (state s) c")
      (auto simp: reacts_def Subscribe_to simp del: prepare.simps)
next
  case (Publish_at a t)
  have same: "prepare Z E c s = Inr s1 \<Longrightarrow> sent s1 = sent s \<and> pipe_out s1 = pipe_out s" for s1
    by (auto simp: Publish_at rbind_Inr_iff)
  show ?thesis
    using request_handled [OF assms(1-4), of publish_event a t E] same
    by (cases "prepare Z E c s"; cases "call_spec E (state s) c")
      (auto simp: reacts_def Publish_at simp del: prepare.simps)
next
  case Be_verbose
  then show ?thesis
    using no_wire_method(1) [OF assms(3,2) Be_verbose, of Z E] assms(2) client_okD(1) [OF assms(2)]
    by (simp add: stay_def)
next
  case Stop
  then show ?thesis
    using no_wire_method(2) [OF assms(3,2) Stop, of Z E] by (simp add: stay_def)
qed

theorem calls_refine_witness:
  "\<exists>s'. s_client_handle_pipe ref_czmq ref_cenv
        ((client_in connected_state)\<lparr>pipe_in := \<lparr>rest_frames = [], queue = [Some [lit ''SUBSCRIBE'', [99]]]\<rparr>\<rparr>)
      = Inr (0, s') \<and> state s' = subscribing_state \<and> length (sent s') = 1"
proof -
  let ?s = "(client_in connected_state)\<lparr>pipe_in := \<lparr>rest_frames = [], queue = [Some [lit ''SUBSCRIBE'', [99]]]\<rparr>\<rparr>"
  have "vprintf ref_czmq [99] = Some [99]" by (simp add: ref_czmq_def)
  then show ?thesis
    using calls_refine [of ref_czmq ?s "Subscribe_to [99]" "[]" "Some [97]" ref_cenv] ref_lib.zhash_api_axioms
    by (auto simp: holds_call_def wf_cstr_def stay_def)
qed

text \<open>A call as \<open>zsys_vprintf\<close> renders its expression or address, and what then has to fit.\<close>

fun rendered :: "('h, 'r) czmq \<Rightarrow> call \<Rightarrow> call option" where
  "rendered Z (Subscribe_to x) = map_option Subscribe_to (vprintf Z x)"
| "rendered Z (Publish_at a t) = map_option (\<lambda>a. Publish_at a t) (vprintf Z a)"
| "rendered Z c = Some c"

fun call_fits :: "call \<Rightarrow> bool" where
  "call_fits (Subscribe_to x) = sized_fits 1 x"
| "call_fits (Publish_at a t) = sized_fits 1 a"
| "call_fits c = True"

text \<open>The commands that a call sends to the server, by the state of the client.\<close>

fun commands_of :: "state_t \<Rightarrow> call \<Rightarrow> command list" where
  "commands_of start_state (Connect ep t) = [Hello [] Map.empty]"
| "commands_of connected_state (Subscribe_to x) = [Subscribe x Map.empty]"
| "commands_of connected_state (Publish_at a t) = [Publish a Map.empty [t]]"
| "commands_of st c = []"

text \<open>
  C31: what the client sends.  The callback for the pipe, on any of the five calls in a state that is
  ready for it, puts on the dealer exactly the commands of the call: HELLO for the first CONNECT, with
  neither identifier nor headers; in the connected state SUBSCRIBE with the expression and PUBLISH with
  the address, each as \<open>zsys_vprintf\<close> renders it, without headers, and with the text as the only frame of
  the content; and nothing otherwise.
\<close>

theorem client_wires:
  assumes "zhash_api (hash Z)" and "client_ok s" and "holds_call s c q" and "wf_call c" and "endpoint s = Some e"
    and "ready E (state s) c" and "rendered Z c = Some c'" and "call_fits c'"
  shows "\<exists>s' ws. s_client_handle_pipe Z E s = Inr (if c = Stop then -1 else 0, s') \<and> sent s' = sent s @ ws
    \<and> list_all2 (\<lambda>cmd w. stands_for Z (Inr w) cmd) (commands_of (state s) c') ws"
proof -
  have d: "draft_ok (msgout s)" by (rule client_okD(3) [OF assms(2)])
  have states: "state s \<in> {start_state, connecting_state, connected_state, subscribing_state, reconnecting_state}"
    using assms(2) by (auto simp: client_ok_def)
  show ?thesis
  proof (cases c)
    case (Connect ep t)
    then show ?thesis
      using connect_handled [OF assms(1-4) Connect assms(5), of E] assms(6,7) states draft_commands(1) [OF assms(1) d]
      by (auto simp: reacts_def stay_def)
  next
    case (Subscribe_to x)
    then obtain x' where x': "vprintf Z x = Some x'" "c' = Subscribe_to x'" using assms(7) by auto
    have "draft_ok ((msgout s)\<lparr>expression := Some x'\<rparr>)" using d by (simp add: draft_ok_def msg_ok_def)
    from draft_commands(3) [OF assms(1) this] show ?thesis
      using request_handled [OF assms(1-4), of subscribe_event x "[]" E] assms(6,8) states x'
      by (auto simp: Subscribe_to reacts_def stay_def)
  next
    case (Publish_at a t)
    then obtain a' where a': "vprintf Z a = Some a'" "c' = Publish_at a' t" using assms(7) by auto
    have "draft_ok ((msgout s)\<lparr>address := Some a', content := Some [t]\<rparr>)" using d by (simp add: draft_ok_def msg_ok_def)
    from draft_commands(4) [OF assms(1) this] show ?thesis
      using request_handled [OF assms(1-4), of publish_event a t E] assms(6,8) states a'
      by (auto simp: Publish_at reacts_def stay_def)
  next
    case Be_verbose
    then show ?thesis using no_wire_method(1) [OF assms(3,2), of Z E] assms(7) states by auto
  next
    case Stop
    then show ?thesis using no_wire_method(2) [OF assms(3,2), of Z E] assms(7) states by auto
  qed
qed

theorem client_wires_witness:
  "\<exists>s' w. s_client_handle_pipe ref_czmq ref_cenv
      ((client_in connected_state)\<lparr>pipe_in := \<lparr>rest_frames = [], queue = [Some [lit ''PUBLISH'', [99, 37, 37], [57]]]\<rparr>\<rparr>)
      = Inr (0, s') \<and> sent s' = [w] \<and> stands_for ref_czmq (Inr w) (Publish [99, 37] Map.empty [[57]])"
proof -
  let ?s = "(client_in connected_state)\<lparr>pipe_in := \<lparr>rest_frames = [], queue = [Some [lit ''PUBLISH'', [99, 37, 37], [57]]]\<rparr>\<rparr>"
  have "vprintf ref_czmq [99, 37, 37] = Some [99, 37]" by (simp add: ref_czmq_def)
  then show ?thesis
    using client_wires [of ref_czmq ?s "Publish_at [99, 37, 37] [57]" "[]" "Some [97]" ref_cenv "Publish_at [99, 37] [57]"]
      ref_lib.zhash_api_axioms
    by (auto simp: holds_call_def wf_cstr_def sized_fits_def list_all2_Cons1)
qed

text \<open>
  C14: in every state that a running client reaches, its context is consistent; it is never in the
  states \<open>disconnecting\<close> or \<open>defaults\<close>, so that it never says GOODBYE, and no timer is ever set.
  It therefore never times out: nothing it tells its owner is a FAILURE, whatever the timeouts.
\<close>

theorem client_never_times_out:
  assumes "zhash_api (hash Z)" and "missing_number E = Inr i" and "client_reachable Z E s"
  shows "client_ok s \<and> state s \<notin> {disconnecting_state, defaults_state} \<and> loop s = []
    \<and> (\<forall>t. \<not> may_happen (Timer_expired t) s)
    \<and> (\<forall>w \<in> set (pipe_out s). w = success \<or> (\<exists>sn a t. w = message_for sn a t))"
proof -
  have ok: "client_ok s" by (rule client_reachable_ok [OF assms(3,1,2)])
  then show ?thesis by (auto simp: client_ok_def may_happen_def reply_ok_def)
qed

theorem client_never_times_out_witness: "loop new_client = []"
  using client_never_times_out [OF ref_lib.zhash_api_axioms ref_cenv_number new_client_reachable] by simp

text \<open>
  C19: everything that can go wrong in a running client, and why.  A message from the server is a fault
  exactly when it is a DELIVER without content frames in the connected state: the client then hands a
  null string to \<open>zsock_send\<close>.  Input from the owner is a fault exactly in the cases of \<open>owner_fault\<close>: a read that
  finds nothing (\<open>Blocked\<close>); a CONNECT after an interrupted one, or interrupted itself (\<open>Use_after_free\<close>);
  a request that is interrupted (\<open>Uninitialised\<close>) or whose string is a directive without argument
  (\<open>Format_undefined\<close>); a PUBLISH without text and a \<open>$TERM\<close> with trailing frames (\<open>Null_pointer\<close>); and in
  the start state a request, or a CONNECT that cannot be connected (\<open>Assertion_failed\<close>).  Adding to the
  pipe, and timers, do no harm.
\<close>

theorem client_faults:
  assumes "zhash_api (hash Z)" and "missing_number E = Inr i" and "client_reachable Z E s" and "may_happen e s"
  shows "handle_event Z E e s = Inl f \<longleftrightarrow> (case e of
      Pipe_ready \<Rightarrow> owner_fault Z E s f
    | Dealer_ready input \<Rightarrow> f = Null_pointer \<and> state s = connected_state
        \<and> (\<exists>m sn a hs. zccp_msg_recv (hash Z) False input = Some m
          \<and> command_of (hash Z) m = Some (Deliver sn a hs []))
    | _ \<Rightarrow> False)"
  using client_event_ok(1) [OF assms(1) client_reachable_ok [OF assms(3,1,2)] assms(2,4)]
  by (simp add: client_fault_def)

text \<open>A client that has started and is told to end, with a frame too many.\<close>

theorem client_faults_witness:
  "\<exists>s. client_reachable ref_czmq ref_cenv s \<and> pipe_in s = \<lparr>rest_frames = [], queue = [Some [lit ''$TERM'', [99]]]\<rparr>
    \<and> handle_event ref_czmq ref_cenv Pipe_ready s = Inl Null_pointer
    \<and> handle_event ref_czmq ref_cenv Pipe_ready s \<noteq> Inl Use_after_free"
proof -
  let ?s = "new_client\<lparr>pipe_in := \<lparr>rest_frames = [], queue = [Some [lit ''$TERM'', [99]]]\<rparr>\<rparr>"
  have "client_step ref_czmq ref_cenv new_client ?s"
    by (rule client_step.step [of "Owner_sends (Some [lit ''$TERM'', [99]])"]) (simp_all add: may_happen_def handle_event_def)
  then have s: "client_reachable ref_czmq ref_cenv ?s" by (rule client_reachable.reach [OF new_client_reachable])
  note faults = client_faults [OF ref_lib.zhash_api_axioms ref_cenv_number s, of Pipe_ready]
  have "owner_fault ref_czmq ref_cenv ?s Null_pointer" "\<not> owner_fault ref_czmq ref_cenv ?s Use_after_free"
    by (simp_all add: owner_fault_iff zstr_recv_def)
  then show ?thesis using s faults [of Null_pointer] faults [of Use_after_free] by (auto simp: may_happen_def)
qed

text \<open>
  A DELIVER whose content is empty crashes a connected client.
\<close>

theorem empty_delivery_crashes:
  assumes "zhash_api (hash Z)" and "client_ok s" and "state s = connected_state"
    and "zccp_msg_recv (hash Z) False input = Some m"
    and "command_of (hash Z) m = Some (Deliver sn a hs [])"
  shows "s_client_handle_protocol Z E input s = Inl Null_pointer"
  using protocol_handled [OF assms(1,2,4,5), of E] by (simp add: assms(3))

theorem empty_delivery_crashes_witness:
  "s_client_handle_protocol ref_czmq ref_cenv (Some [[0xAA, 0xAA, 7, 0, 0, 0, 0, 0, 0]])
     (client_in connected_state) = Inl Null_pointer"
  using empty_delivery_crashes [OF _ _ _ empty_delivery_recv empty_delivery_command]
    ref_lib.zhash_api_axioms by simp

text \<open>
  C20: the handshake.  A client that has just started is told CONNECT, connects its dealer, says HELLO,
  and waits.  A HELLO-OK then makes it tell its owner SUCCESS with status 0, and the call
  \<open>zccp_client_connect\<close> to which that reply arrives returns 0.
\<close>

theorem connect_handshake:
  assumes "zhash_api (hash Z)" and "zccp_client_start \<lparr>rest_frames = [], queue = []\<rparr> = Inr s"
    and "zs_connect E (Some ep) = 0" and "wf_cstr ep"
    and "zccp_msg_recv (hash Z) False reply = Some m" and "command_of (hash Z) m = Some (Hello_ok hs)"
    and "actor_in self = \<lparr>rest_frames = [], queue = []\<rparr>"
  shows "\<exists>s' hello self'. zloop_run Z E [Owner_sends (Some (call_frames (Connect ep t))), Pipe_ready, Dealer_ready reply] s
        = Inr (True, s')
    \<and> state s' = connected_state \<and> connections s' = [Some ep] \<and> sent s' = [hello]
    \<and> stands_for Z (Inr hello) (Hello [] Map.empty) \<and> pipe_out s' = [success]
    \<and> zccp_client_connect E (Some ep) t (map Some (pipe_out s')) self = Inr (0, self')
    \<and> actor_out self' = actor_out self @ [call_frames (Connect ep t)]"
proof -
  note s0 = client_start_ok [OF assms(2)]
  let ?c = "Connect ep t"
  let ?s1 = "s\<lparr>pipe_in := \<lparr>rest_frames = [], queue = [Some (call_frames ?c)]\<rparr>\<rparr>"
  have s1: "client_ok ?s1" "holds_call ?s1 ?c []" "wf_call ?c" "endpoint ?s1 = Some None" "state ?s1 = start_state"
    using s0 assms(4) by (simp_all add: holds_call_def)
  have e1: "handle_event Z E (Owner_sends (Some (call_frames ?c))) s = Inr (0, ?s1)"
    using s0 by (simp add: handle_event_def)
  have "call_spec E (state ?s1) ?c = Inr ((stay connecting_state)\<lparr>says := [ZCCP_MSG_HELLO]\<rparr>)"
    using s0 assms(3) by simp
  with connect_handled [OF assms(1) s1(1-3) refl s1(4), of E] obtain s2 s2' where
    p2: "s_client_handle_pipe Z E ?s1 = Inr (0, s2)" and prep: "prepare Z E ?c ?s1 = Inr s2'"
    and r2: "reacts (hash Z) (read_call [] s2') ((stay connecting_state)\<lparr>says := [ZCCP_MSG_HELLO]\<rparr>) s2" by auto
  have s2: "client_ok s2" "state s2 = connecting_state" "pipe_out s2 = []" "connections s2 = [Some ep]"
      "sent s2 = [draft_wire (hash Z) (msgout s) ZCCP_MSG_HELLO]"
    using r2 prep s0 s1(5) assms(3) s0(1) by (auto simp: reacts_def stay_def client_ok_def)
  have e2: "handle_event Z E Pipe_ready ?s1 = Inr (0, s2)"
    using p2 client_okD(6) [OF s1(1)] by (simp add: handle_event_def call_reader_def)
  from protocol_handled [OF assms(1) s2(1) assms(5,6), of E] s2(2) obtain s3 where
    p3: "s_client_handle_protocol Z E reply s2 = Inr (0, s3)"
    and r3: "reacts (hash Z) s2 ((stay connected_state)\<lparr>tells := [success]\<rparr>) s3"
    by (auto simp: stay_def)
  have e3: "handle_event Z E (Dealer_ready reply) s2 = Inr (0, s3)"
    using p3 client_okD(6) [OF s2(1)] by (simp add: handle_event_def call_reader_def)
  have "zloop_run Z E [Owner_sends (Some (call_frames ?c)), Pipe_ready, Dealer_ready reply] s = Inr (True, s3)"
    using e1 e2 e3 by simp
  moreover have "stands_for Z (Inr (draft_wire (hash Z) (msgout s) ZCCP_MSG_HELLO)) (Hello [] Map.empty)"
    by (rule draft_commands(1) [OF assms(1) client_okD(3) [OF s0(1)]])
  moreover have "pipe_out s3 = [success]" "state s3 = connected_state" "connections s3 = [Some ep]"
      "sent s3 = [draft_wire (hash Z) (msgout s) ZCCP_MSG_HELLO]"
    using r3 s2 by (auto simp: reacts_def stay_def)
  moreover have "\<exists>self'. zccp_client_connect E (Some ep) t [Some success] self = Inr (0, self')
      \<and> actor_out self' = actor_out self @ [call_frames ?c]"
  proof -
    let ?self = "arrive [Some success] (send_command [lit ''CONNECT'', ep, decimal t] self)"
    have "actor_in ?self = \<lparr>rest_frames = [], queue = Some [lit ''SUCCESS'', decimal 0] # []\<rparr>"
      using assms(7) by (simp add: arrive_def send_command_def success_def)
    from accept_success [OF this] show ?thesis
      by (simp add: zccp_client_connect_def connect_request_def await_reply_def send_string_def send_command_def arrive_def Let_def)
  qed
  ultimately show ?thesis by auto
qed

theorem connect_handshake_witness:
  "\<exists>s'. zloop_run ref_czmq ref_cenv [Owner_sends (Some (call_frames (Connect [97] 250))), Pipe_ready,
      Dealer_ready (Some [[0xAA, 0xAA, 2, 0, 0, 0, 0]])] new_client = Inr (True, s') \<and> state s' = connected_state"
proof -
  have "zs_connect ref_cenv (Some [97]) = 0" by (simp add: ref_cenv_def)
  moreover have "actor_in zccp_client_new = \<lparr>rest_frames = [], queue = []\<rparr>" by (simp add: zccp_client_new_def)
  ultimately show ?thesis
    using connect_handshake [OF _ new_client_start _ _ hello_ok_recv hello_ok_command, of ref_cenv "[97]" zccp_client_new 250]
      ref_lib.zhash_api_axioms by (auto simp: wf_cstr_def)
qed

text \<open>
  C25: when the dealer cannot be connected, CONNECT does not end in a reply but in a failed assertion:
  the exception \<open>error_event\<close> is handled in the start state, where no event but CONNECT is expected.
  The same happens when SUBSCRIBE or PUBLISH is called first.
\<close>

theorem start_state_aborts:
  assumes "zhash_api (hash Z)" and "client_ok s" and "state s = start_state" and "holds_call s c q"
    and "wf_call c" and "endpoint s = Some e"
    and "(\<exists>ep t. c = Connect ep t \<and> zs_connect E (Some ep) \<noteq> 0)
      \<or> ((\<exists>x y. c = Subscribe_to x \<or> c = Publish_at x y) \<and> (\<exists>s1. prepare Z E c s = Inr s1))"
  shows "s_client_handle_pipe Z E s = Inl Assertion_failed"
  using assms by (rule early_call_aborts)

theorem start_state_aborts_witness:
  "s_client_handle_pipe ref_czmq (ref_cenv\<lparr>zs_connect := (\<lambda>e. -1)\<rparr>)
     (new_client\<lparr>pipe_in := \<lparr>rest_frames = [], queue = [Some (call_frames (Connect [97] 250))]\<rparr>\<rparr>) = Inl Assertion_failed"
  by (rule start_state_aborts [of _ _ "Connect [97] 250" "[]" None])
    (simp_all add: alist_hash.zhash_api_axioms holds_call_def wf_cstr_def)

text \<open>
  C32: a reply that \<open>s_accept_reply\<close> does not wait for is dropped.  An application that subscribes while
  deliveries are waiting in its pipe loses them: the call returns the status of the SUCCESS that
  follows, and nothing of the deliveries is left.
\<close>

theorem waiting_drops_deliveries:
  assumes "actor_in self = \<lparr>rest_frames = [], queue = map (\<lambda>(s, a, t). Some (message_for s a t)) ds\<rparr>"
  shows "\<exists>self'. zccp_client_subscribe E (Some x) (Some [lit ''SUCCESS'', decimal i] # q) self = Inr (i, self')
    \<and> actor_in self' = \<lparr>rest_frames = [], queue = q\<rparr> \<and> last_content self' = last_content self"
proof -
  let ?self = "arrive (Some [lit ''SUCCESS'', decimal i] # q) (send_command [lit ''SUBSCRIBE'', x] self)"
  let ?rest = "Some [lit ''SUCCESS'', decimal i] # q"
  let ?ms = "map (\<lambda>(s, a, t). message_for s a t) ds"
  have self: "?self = ?self\<lparr>actor_in := \<lparr>rest_frames = [], queue = map Some ?ms @ ?rest\<rparr>\<rparr>"
    using assms by (simp add: arrive_def send_command_def comp_def split_def)
  have "s_accept_reply E replies ?self
      = s_accept_reply E replies (?self\<lparr>actor_in := \<lparr>rest_frames = [], queue = ?rest\<rparr>\<rparr>)"
    by (subst self, rule accept_skips_all [where name = "lit ''MESSAGE''"]) (auto simp: message_for_def)
  also have "\<dots> = Inr (0, ?self\<lparr>actor_in := \<lparr>rest_frames = [], queue = q\<rparr>, status := i\<rparr>)"
    by (subst accept_success [of _ i q]) simp_all
  finally show ?thesis
    by (simp add: zccp_client_subscribe_def subscribe_request_def await_reply_def send_string_def send_command_def arrive_def Let_def)
qed

theorem waiting_drops_deliveries_witness:
  "\<exists>self'. zccp_client_subscribe ref_cenv (Some [99]) [Some [lit ''SUCCESS'', decimal 0]]
      (zccp_client_new\<lparr>actor_in := \<lparr>rest_frames = [], queue = [Some (message_for [] [99] [57])]\<rparr>\<rparr>) = Inr (0, self')
    \<and> last_content self' = None"
  using waiting_drops_deliveries [of "zccp_client_new\<lparr>actor_in := \<lparr>rest_frames = [], queue = [Some (message_for [] [99] [57])]\<rparr>\<rparr>"
      "[([], [99], [57])]" ref_cenv "[99]" 0 "[]"]
  by (auto simp: zccp_client_new_def)

text \<open>
  C24: a FAILURE cannot be received.  \<open>s_accept_reply\<close> flushes the rest of the message when the first
  filter, SUCCESS, does not match; when the second one does, the status and the reason are gone, and
  the call waits for a further message.
\<close>

theorem failure_reply_blocks:
  assumes "actor_in self = \<lparr>rest_frames = [], queue = []\<rparr>"
  shows "zccp_client_connect E (Some ep) t [Some (lit ''FAILURE'' # args)] self = Inl Blocked"
proof -
  let ?self = "arrive [Some (lit ''FAILURE'' # args)] (send_command [lit ''CONNECT'', ep, decimal t] self)"
  have "actor_in ?self = \<lparr>rest_frames = [], queue = Some (lit ''FAILURE'' # args) # []\<rparr>"
    using assms by (simp add: arrive_def send_command_def)
  from accept_failure [OF this, of E] have "s_accept_reply E replies ?self = Inl Blocked"
    by (simp add: load_reply_def zmsg_recv_def Let_def)
  then show ?thesis by (simp add: zccp_client_connect_def connect_request_def await_reply_def send_string_def Let_def)
qed

theorem failure_reply_blocks_witness:
  "zccp_client_connect ref_cenv (Some [97]) 250
     [Some [lit ''FAILURE'', decimal (-1), lit ''Server is not reachable'']] zccp_client_new = Inl Blocked"
  by (rule failure_reply_blocks) (simp add: zccp_client_new_def)

end
