(* ===== verification/Network.thy ===== *)
theory Network
  imports Server_Claims Client_Claims
begin

text \<open>
  The client and the broker together.

  The locale \<open>broker_service\<close> states what clients rely on: a broker that takes a message from the
  router socket, sends messages, and refines \<open>broker_step\<close>.  What clients obtain from it, through the
  messages of the codec, is proved inside the locale; the broker of this repository interprets it.  The
  properties at the end are about the two programs joined: what the dealer of a client sends arrives
  at the router preceded by the routing identifier of the client, and a message of the router goes
  without its first frame to the client that the frame names.
\<close>

section \<open>Messages in transit\<close>

lemma stands_for_arrives:
  assumes "stands_for Z (Inr body) cmd"
  shows "\<exists>m. zccp_msg_recv (hash Z) True (Some (r # body)) = Some m \<and> routing_id m = Some r
      \<and> command_of (hash Z) m = Some cmd"
    and "\<exists>m. zccp_msg_recv (hash Z) False (Some body) = Some m \<and> command_of (hash Z) m = Some cmd"
proof -
  from assms obtain m where m: "zccp_msg_decode (hash Z) (Some body) = Some m" "command_of (hash Z) m = Some cmd"
    by (auto simp: stands_for_def)
  have "body \<noteq> []" using m(1) by (auto simp: zccp_msg_decode_def)
  moreover have "command_of (hash Z) (m\<lparr>routing_id := Some r\<rparr>) = command_of (hash Z) m"
    by (simp add: command_of_def)
  then have "command_of (hash Z) (m\<lparr>routing_id := Some r\<rparr>) = Some cmd" using m(2) by (simp only:)
  ultimately show "\<exists>m. zccp_msg_recv (hash Z) True (Some (r # body)) = Some m \<and> routing_id m = Some r
      \<and> command_of (hash Z) m = Some cmd"
    using m(1) by (auto simp: zccp_msg_recv_def)
  show "\<exists>m. zccp_msg_recv (hash Z) False (Some body) = Some m \<and> command_of (hash Z) m = Some cmd"
    using m by (simp add: zccp_msg_recv_def)
qed

lemma carries_to:
  assumes "carries Z (r, cmd) w"
  obtains body where "w = r # body" and "stands_for Z (Inr body) cmd"
  using assms by (auto simp: carries_def)

section \<open>The service of a broker\<close>

locale broker_service =
  fixes Z :: "('h, 'r) czmq" and serve :: "zmsg \<Rightarrow> 's \<Rightarrow> ('s \<times> zmsg list) result"
    and good :: "'s \<Rightarrow> bool" and view :: "'s \<Rightarrow> broker"
  assumes library: "good b \<Longrightarrow> czmq_api Z"
    and serves: "good b \<Longrightarrow> zccp_msg_recv (hash Z) True (Some w) = Some m \<Longrightarrow> routing_id m = Some r
      \<Longrightarrow> command_of (hash Z) m = Some cmd \<Longrightarrow> Server_Refine.command_event cmd \<noteq> terminate_event
      \<Longrightarrow> (case broker_step Z (view b) r cmd of
            Inl e \<Rightarrow> serve w b = Inl e
          | Inr (B, outs) \<Rightarrow> \<exists>b' ws. serve w b = Inr (b', ws) \<and> good b' \<and> view b' = B
              \<and> list_all2 (carries Z) outs ws)"
begin

lemma hash_laws: "good b \<Longrightarrow> zhash_api (hash Z)"
  using library by (simp add: czmq_api_def)

text \<open>A command that arrives from the peer \<open>r\<close>.\<close>

lemma arrives:
  assumes "good b" and "stands_for Z (Inr body) cmd" and "Server_Refine.command_event cmd \<noteq> terminate_event"
    and "broker_step Z (view b) r cmd = Inr (B, outs)"
  shows "\<exists>b' ws. serve (r # body) b = Inr (b', ws) \<and> good b' \<and> view b' = B \<and> list_all2 (carries Z) outs ws"
  using stands_for_arrives(1) [OF assms(2), of r] serves [OF assms(1) _ _ _ assms(3), of "r # body" _ r] assms(4)
  by auto

text \<open>A message for a client, in the terms of its specification.\<close>

lemma reaches_client:
  assumes "good b" and "stands_for Z (Inr body) cmd" and "client_ok c"
    and "client_spec (state c) cmd = Inr r"
  shows "\<exists>c'. s_client_handle_protocol Z E (Some body) c = Inr (if halts r then -1 else 0, c')
    \<and> reacts (hash Z) c r c'"
proof -
  obtain m where "zccp_msg_recv (hash Z) False (Some body) = Some m" "command_of (hash Z) m = Some cmd"
    using stands_for_arrives(2) [OF assms(2)] by auto
  from protocol_handled [OF hash_laws [OF assms(1)] assms(3) this, of E] assms(4) show ?thesis by simp
qed

text \<open>A subscription, from the call to the acknowledgement.\<close>

lemma subscription_made:
  assumes "good b" and "client_ok c" and "state c = connected_state"
    and "holds_call c (Subscribe_to x) q" and "wf_cstr x"
    and "vprintf Z x = Some e" and "sized_fits 1 e" and "sessions (view b) r = Some (Some ident)"
  shows "\<exists>c1 wire b' ack c2. s_client_handle_pipe Z E c = Inr (0, c1) \<and> sent c1 = sent c @ [wire]
    \<and> serve (r # wire) b = Inr (b', [r # ack]) \<and> good b'
    \<and> view b' = (view b)\<lparr>table := subscribe_table e r (table (view b))\<rparr>
    \<and> s_client_handle_protocol Z E (Some ack) c1 = Inr (0, c2) \<and> client_ok c2
    \<and> state c2 = connected_state \<and> pipe_out c2 = pipe_out c @ [success]"
proof -
  let ?c = "Subscribe_to x"
  let ?c1 = "c\<lparr>msgout := (msgout c)\<lparr>expression := Some e\<rparr>\<rparr>"
  have wf: "wf_call ?c" using assms(5) by simp
  have prep: "prepare Z E ?c c = Inr ?c1" by (simp add: assms(6))
  from request_handled [OF hash_laws [OF assms(1)] assms(2,4) wf, of subscribe_event x "[]" E] assms(3) prep
  obtain c1 where c1: "s_client_handle_pipe Z E c = Inr (0, c1)"
      "reacts (hash Z) (read_call q ?c1) ((stay subscribing_state)\<lparr>says := [ZCCP_MSG_SUBSCRIBE]\<rparr>) c1"
    by (auto simp del: prepare.simps)
  let ?wire = "draft_wire (hash Z) (msgout ?c1) ZCCP_MSG_SUBSCRIBE"
  have c1f: "client_ok c1" "state c1 = subscribing_state" "sent c1 = sent c @ [?wire]"
      "pipe_out c1 = pipe_out c"
    using c1(2) by (auto simp: reacts_def stay_def)
  have "draft_ok (msgout ?c1)" using client_okD(3) [OF assms(2)] by (simp add: draft_ok_def msg_ok_def)
  then have "stands_for Z (Inr ?wire) (Subscribe e Map.empty)"
    using assms(7) by (intro draft_commands(3) [OF hash_laws [OF assms(1)]]) simp_all
  from arrives [OF assms(1) this, of r] assms(8) obtain b' ws where
    b': "serve (r # ?wire) b = Inr (b', ws)" "good b'" "view b' = (view b)\<lparr>table := subscribe_table e r (table (view b))\<rparr>"
      "list_all2 (carries Z) [(r, Subscribe_ok)] ws"
    by (auto simp: broker_step_def)
  then obtain ack where ack: "ws = [r # ack]" "stands_for Z (Inr ack) Subscribe_ok"
    by (auto simp: list_all2_Cons1 elim!: carries_to)
  from reaches_client [OF assms(1) ack(2) c1f(1), of _ E] c1f(2) obtain c2 where
    "s_client_handle_protocol Z E (Some ack) c1 = Inr (0, c2)"
    "reacts (hash Z) c1 ((stay connected_state)\<lparr>tells := [success]\<rparr>) c2"
    by (auto simp: stay_def)
  then show ?thesis
    using c1(1) c1f(3,4) b'(1-3) by (auto simp: ack(1) reacts_def stay_def)
qed

text \<open>Deliveries to a list of peers.\<close>

lemma carried_to_all:
  "list_all2 (carries Z) (map (\<lambda>q. (q, cmd)) qs) ws \<Longrightarrow>
     map hd ws = qs \<and> (\<forall>m \<in> set ws. stands_for Z (Inr (tl m)) cmd)"
  by (induction qs arbitrary: ws) (auto simp: list_all2_Cons1 elim!: carries_to)

lemma publish_arrives:
  assumes "good b" and "stands_for Z (Inr body) (Publish a hs ms)" and "sessions (view b) r = Some (Some ident)"
    and "vprintf Z ident = Some i" and "vprintf Z a = Some a'"
  shows "\<exists>b' ws. serve (r # body) b = Inr (b', ws) \<and> good b' \<and> view b' = view b
    \<and> map hd ws = recipients Z (view b) r a \<and> (\<forall>m \<in> set ws. stands_for Z (Inr (tl m)) (Deliver i a' Map.empty ms))"
proof -
  have "broker_step Z (view b) r (Publish a hs ms)
      = Inr (view b, map (\<lambda>q. (q, Deliver i a' Map.empty ms)) (recipients Z (view b) r a))"
    using assms(3-5) by (simp add: broker_step_def)
  from arrives [OF assms(1,2) _ this] carried_to_all show ?thesis by fastforce
qed

text \<open>A publication, from the call to the deliveries in the applications.\<close>

lemma publication_delivered:
  assumes "good b" and "client_ok c" and "state c = connected_state"
    and "holds_call c (Publish_at a t) q" and "wf_cstr a" and "wf_cstr t"
    and "vprintf Z a = Some a1" and "sized_fits 1 a1"
    and "sessions (view b) r = Some (Some ident)" and "vprintf Z ident = Some i" and "vprintf Z a1 = Some a2"
  shows "\<exists>c1 wire b' ws. s_client_handle_pipe Z E c = Inr (0, c1) \<and> client_ok c1 \<and> sent c1 = sent c @ [wire]
    \<and> serve (r # wire) b = Inr (b', ws) \<and> good b' \<and> view b' = view b
    \<and> map hd ws = recipients Z (view b) r a1
    \<and> (\<forall>m \<in> set ws. \<forall>d. client_ok d \<longrightarrow> state d = connected_state \<longrightarrow>
        (\<exists>d'. s_client_handle_protocol Z E (Some (tl m)) d = Inr (0, d') \<and> client_ok d'
          \<and> pipe_out d' = pipe_out d @ [message_for i a2 t]))"
proof -
  let ?c = "Publish_at a t"
  let ?c1 = "c\<lparr>msgout := (msgout c)\<lparr>address := Some a1, content := Some [t]\<rparr>\<rparr>"
  have wf: "wf_call ?c" using assms(5,6) by simp
  have prep: "prepare Z E ?c c = Inr ?c1" by (simp add: assms(7))
  from request_handled [OF hash_laws [OF assms(1)] assms(2,4) wf, of publish_event a t E] assms(3) prep
  obtain c1 where c1: "s_client_handle_pipe Z E c = Inr (0, c1)"
      "reacts (hash Z) (read_call q ?c1) ((stay connected_state)\<lparr>says := [ZCCP_MSG_PUBLISH]\<rparr>) c1"
    by (auto simp del: prepare.simps)
  let ?wire = "draft_wire (hash Z) (msgout ?c1) ZCCP_MSG_PUBLISH"
  have c1f: "client_ok c1" "sent c1 = sent c @ [?wire]" using c1(2) by (auto simp: reacts_def stay_def)
  have "draft_ok (msgout ?c1)" using client_okD(3) [OF assms(2)] by (simp add: draft_ok_def msg_ok_def)
  then have "stands_for Z (Inr ?wire) (Publish a1 Map.empty [t])"
    using assms(8) by (intro draft_commands(4) [OF hash_laws [OF assms(1)]]) simp_all
  from publish_arrives [OF assms(1) this assms(9-11)] obtain b' ws where
    b': "serve (r # ?wire) b = Inr (b', ws)" "good b'" "view b' = view b" "map hd ws = recipients Z (view b) r a1"
    and ws: "\<forall>m \<in> set ws. stands_for Z (Inr (tl m)) (Deliver i a2 Map.empty [t])" by auto
  have "\<exists>d'. s_client_handle_protocol Z E (Some (tl m)) d = Inr (0, d') \<and> client_ok d'
      \<and> pipe_out d' = pipe_out d @ [message_for i a2 t]"
    if "m \<in> set ws" "client_ok d" "state d = connected_state" for m d
  proof -
    have "stands_for Z (Inr (tl m)) (Deliver i a2 Map.empty [t])" using ws that(1) by auto
    from reaches_client [OF assms(1) this that(2), of _ E] that(3) show ?thesis
      by (auto simp: stay_def reacts_def c_string_wf assms(6))
  qed
  with c1(1) c1f b' show ?thesis by blast
qed

text \<open>A publication without content, from whatever peer.\<close>

lemma empty_publication_crashes:
  assumes "good b" and "stands_for Z (Inr body) (Publish a hs [])" and "sessions (view b) r = Some (Some ident)"
    and "vprintf Z ident = Some i" and "vprintf Z a = Some a'"
  shows "\<exists>b' ws. serve (r # body) b = Inr (b', ws) \<and> map hd ws = recipients Z (view b) r a
    \<and> (\<forall>m \<in> set ws. \<forall>d. client_ok d \<longrightarrow> state d = connected_state \<longrightarrow>
        s_client_handle_protocol Z E (Some (tl m)) d = Inl Null_pointer)"
proof -
  from publish_arrives [OF assms] obtain b' ws where
    b': "serve (r # body) b = Inr (b', ws)" "map hd ws = recipients Z (view b) r a"
    and ws: "\<forall>m \<in> set ws. stands_for Z (Inr (tl m)) (Deliver i a' Map.empty [])" by auto
  have "s_client_handle_protocol Z E (Some (tl m)) d = Inl Null_pointer"
    if m: "m \<in> set ws" and d: "client_ok d" "state d = connected_state" for m d
  proof -
    have "stands_for Z (Inr (tl m)) (Deliver i a' Map.empty [])" using ws m by auto
    then obtain x where x: "zccp_msg_recv (hash Z) False (Some (tl m)) = Some x"
        "command_of (hash Z) x = Some (Deliver i a' Map.empty [])"
      using stands_for_arrives(2) by blast
    from protocol_handled [OF hash_laws [OF assms(1)] d(1) x, of E] d(2) show ?thesis by simp
  qed
  with b' show ?thesis by blast
qed

text \<open>
  A client that the broker has forgotten: its next command is answered by INVALID, upon which it greets
  the broker again and considers itself connected.
\<close>

lemma session_renewed:
  assumes "good b" and "client_ok c" and "state c = connected_state"
    and "stands_for Z (Inr body) cmd" and "Server_Refine.command_event cmd \<noteq> terminate_event"
    and "\<forall>i hs. cmd \<noteq> Hello i hs" and "cmd \<noteq> Goodbye" and "sessions (view b) r = None"
  shows "\<exists>b1 inv c1 hello b2 ok c2. serve (r # body) b = Inr (b1, [r # inv])
    \<and> s_client_handle_protocol Z E (Some inv) c = Inr (0, c1) \<and> sent c1 = sent c @ [hello]
    \<and> serve (r # hello) b1 = Inr (b2, [r # ok])
    \<and> s_client_handle_protocol Z E (Some ok) c1 = Inr (0, c2)
    \<and> client_ok c2 \<and> state c2 = connected_state \<and> sent c2 = sent c1 \<and> pipe_out c2 = pipe_out c
    \<and> good b2 \<and> sessions (view b2) r = Some (Some [])
    \<and> (\<forall>(e, rs) \<in> set (table (view b2)). r \<notin> set rs)"
proof -
  have "broker_step Z (view b) r cmd = Inr (leave r (view b), [(r, Invalid)])"
    using assms(6-8) by (cases cmd) (auto simp: broker_step_def)
  from arrives [OF assms(1,4,5) this] obtain b1 ws where b1: "serve (r # body) b = Inr (b1, ws)" "good b1"
      "view b1 = leave r (view b)" "list_all2 (carries Z) [(r, Invalid)] ws" by auto
  then obtain inv where inv: "ws = [r # inv]" "stands_for Z (Inr inv) Invalid"
    by (auto simp: list_all2_Cons1 elim!: carries_to)
  from reaches_client [OF assms(1) inv(2) assms(2), of _ E] assms(3) obtain c1 where
    c1: "s_client_handle_protocol Z E (Some inv) c = Inr (0, c1)" "reacts (hash Z) c greet_again c1"
    by (auto simp: greet_again_def stay_def)
  let ?hello = "draft_wire (hash Z) (msgout c) ZCCP_MSG_HELLO"
  have c1f: "client_ok c1" "state c1 = reconnecting_state" "sent c1 = sent c @ [?hello]" "pipe_out c1 = pipe_out c"
    using c1(2) by (auto simp: reacts_def greet_again_def stay_def)
  have hello: "stands_for Z (Inr ?hello) (Hello [] Map.empty)"
    by (rule draft_commands(1) [OF hash_laws [OF assms(1)] client_okD(3) [OF assms(2)]])
  have "broker_step Z (view b1) r (Hello [] Map.empty)
      = Inr ((leave r (view b))\<lparr>sessions := (sessions (leave r (view b)))(r \<mapsto> Some [])\<rparr>, [(r, Hello_ok Map.empty)])"
    by (simp add: broker_step_def b1(3) leave_def)
  from arrives [OF b1(2) hello _ this] obtain b2 ws2 where b2: "serve (r # ?hello) b1 = Inr (b2, ws2)" "good b2"
      "view b2 = (leave r (view b))\<lparr>sessions := (sessions (leave r (view b)))(r \<mapsto> Some [])\<rparr>"
      "list_all2 (carries Z) [(r, Hello_ok Map.empty)] ws2" by auto
  then obtain ok where ok: "ws2 = [r # ok]" "stands_for Z (Inr ok) (Hello_ok Map.empty)"
    by (auto simp: list_all2_Cons1 elim!: carries_to)
  from reaches_client [OF assms(1) ok(2) c1f(1), of _ E] c1f(2) obtain c2 where
    c2: "s_client_handle_protocol Z E (Some ok) c1 = Inr (0, c2)" "reacts (hash Z) c1 (stay connected_state) c2"
    by (auto simp: stay_def)
  have "client_ok c2" "state c2 = connected_state" "sent c2 = sent c1" "pipe_out c2 = pipe_out c"
    using c2(2) c1f(4) by (auto simp: reacts_def stay_def)
  moreover have "sessions (view b2) r = Some (Some [])" "\<forall>(e, rs) \<in> set (table (view b2)). r \<notin> set rs"
    by (auto simp: b2(3) leave_def)
  ultimately show ?thesis
    using b1(1) c1(1) c1f(3) b2(1,2) c2(1) unfolding inv(1) ok(1) by blast
qed

end

section \<open>The broker of this repository\<close>

text \<open>The callback for the router socket, with what it adds to the messages sent.\<close>

definition serve_broker :: "('h, 'r) czmq \<Rightarrow> zmsg \<Rightarrow> ('h, 'r, 'c) s_server_t
    \<Rightarrow> (('h, 'r, 'c) s_server_t \<times> zmsg list) result" where
  "serve_broker Z w s = rbind (s_server_client_message Z 3 (Some w) s)
     (\<lambda>(rc, s'). Inr (s', drop (length (out s)) (out s')))"

definition good_broker :: "('h, 'r) czmq \<Rightarrow> ('h, 'r, 'c) s_server_t \<Rightarrow> bool" where
  "good_broker Z s \<longleftrightarrow> czmq_api Z \<and> server_ok Z s"

lemma broker_serves:
  assumes good: "good_broker Z s" and msg: "zccp_msg_recv (hash Z) True (Some w) = Some m" "routing_id m = Some r"
    "command_of (hash Z) m = Some cmd" and ev: "Server_Refine.command_event cmd \<noteq> terminate_event"
  shows "case broker_step Z (broker_of Z s) r cmd of
      Inl e \<Rightarrow> serve_broker Z w s = Inl e
    | Inr (B, outs) \<Rightarrow> \<exists>s' ws. serve_broker Z w s = Inr (s', ws) \<and> good_broker Z s' \<and> broker_of Z s' = B
        \<and> list_all2 (carries Z) outs ws"
proof -
  have s: "czmq_api Z" "server_ok Z s" using good by (simp_all add: good_broker_def)
  obtain res where res: "s_server_client_message Z 3 (Some w) s = rbind res (\<lambda>s. Inr (0, s))"
    "implements Z s res (broker_step Z (broker_of Z s) r cmd)"
    using client_message [OF s order.refl msg] ev by auto
  show ?thesis
  proof (cases "broker_step Z (broker_of Z s) r cmd")
    case (Inl e)
    then show ?thesis using res by (simp add: implements_def serve_broker_def)
  next
    case (Inr x)
    then obtain B outs where x: "broker_step Z (broker_of Z s) r cmd = Inr (B, outs)" by (cases x) simp
    then have "implements Z s res (Inr (B, outs))" using res(2) by (simp only:)
    from implements_run [OF res(1) this] obtain s' wires where
      "s_server_client_message Z 3 (Some w) s = Inr (0, s')" "server_ok Z s'"
      "s_server_t.verbose s' = s_server_t.verbose s" "broker_of Z s' = B" "out s' = out s @ wires"
      "list_all2 (carries Z) outs wires" by blast
    then show ?thesis using s by (auto simp: x serve_broker_def good_broker_def)
  qed
qed

interpretation net: broker_service Z "serve_broker Z" "good_broker Z" "broker_of Z"
  for Z :: "('h, 'r) czmq"
  by (rule broker_service.intro) (simp add: good_broker_def, rule broker_serves)

end
