(* ===== verification/Application.thy ===== *)
theory Application
  imports Network
begin

text \<open>
  Applications, clients and the broker in one machine: the objects of the class \<open>zccp_client\<close>, the
  actors behind them, and the broker that their dealer sockets are connected to.  The programs of the
  repository that use the class run on it: the self test of the client (\<open>zccp_client_test\<close> of
  \<^verbatim>\<open>src/zccp_client.c\<close>), the shell (\<^verbatim>\<open>src/zccp_sh.c\<close>) and, on the broker's side, the daemon
  (\<^verbatim>\<open>src/zccpd.c\<close>).

  The machine is driven by the calls of the application.  What a call sends is handled by the actor at
  once, what the actor sends by the broker, and the answers of the broker by the actors they go to, in
  the order in which the clients are listed; no timer expires meanwhile.
\<close>

section \<open>The machine\<close>

record ('h, 'r, 'c) world =
  hub :: "('h, 'r, 'c) rig"
  actors :: "frame \<Rightarrow> 'h s_client_t option"       \<comment> \<open>the running actors, by routing identifier\<close>
  unread :: "frame \<Rightarrow> zmsg list"                  \<comment> \<open>sent by the actor and not yet read by its owner\<close>

fun send_all :: "('h, 'r) czmq \<Rightarrow> frame \<Rightarrow> zmsg list \<Rightarrow> ('h, 'r, 'c) rig \<Rightarrow> ('h, 'r, 'c) rig result" where
  "send_all Z r [] rig = Inr rig"
| "send_all Z r (w # ws) rig = rbind (peer_send Z 3 r (Inr w) rig) (send_all Z r ws)"

text \<open>
  An actor handles one event, and its messages reach the broker.  When the reactor ends, the actor is
  destroyed.
\<close>

definition actor_event :: "('h, 'r) czmq \<Rightarrow> client_env \<Rightarrow> frame \<Rightarrow> Client_Reactor.reactor_event
    \<Rightarrow> ('h, 'r, 'c) world \<Rightarrow> ('h, 'r, 'c) world result" where
  "actor_event Z E r e w = (case actors w r of
      None \<Rightarrow> Inr w
    | Some c \<Rightarrow>
        rbind (Client_Reactor.handle_event Z E e c) (\<lambda>(rc, c').
        rbind (send_all Z r (drop (length (sent c)) (sent c')) (hub w)) (\<lambda>rig.
        rbind (if rc = -1 then rbind (Client_Reactor.s_client_destroy c') (\<lambda>_. Inr None) else Inr (Some c')) (\<lambda>actor.
        Inr \<lparr>hub = rig, actors = (actors w)(r := actor),
             unread = (unread w)(r := unread w r
               @ drop (length (s_client_t.pipe_out c)) (s_client_t.pipe_out c'))\<rparr>))))"

definition next_input :: "('h, 'r) czmq \<Rightarrow> client_env \<Rightarrow> frame \<Rightarrow> ('h, 'r, 'c) world \<Rightarrow> ('h, 'r, 'c) world result" where
  "next_input Z E r w = (case inbox (hub w) r of
      [] \<Rightarrow> Inr w
    | m # ms \<Rightarrow> actor_event Z E r (Dealer_ready (Some m))
        (w\<lparr>hub := (hub w)\<lparr>inbox := (inbox (hub w))(r := ms)\<rparr>\<rparr>))"

fun inputs :: "('h, 'r) czmq \<Rightarrow> client_env \<Rightarrow> nat \<Rightarrow> frame \<Rightarrow> ('h, 'r, 'c) world \<Rightarrow> ('h, 'r, 'c) world result" where
  "inputs Z E 0 r w = Inr w"
| "inputs Z E (Suc n) r w = rbind (next_input Z E r w) (inputs Z E n r)"

text \<open>Every client in turn handles the messages that wait in its dealer.\<close>

fun settle :: "('h, 'r) czmq \<Rightarrow> client_env \<Rightarrow> frame list \<Rightarrow> ('h, 'r, 'c) world \<Rightarrow> ('h, 'r, 'c) world result" where
  "settle Z E [] w = Inr w"
| "settle Z E (r # rs) w = rbind (inputs Z E (length (inbox (hub w) r)) r w) (settle Z E rs)"

fun owner_sends :: "('h, 'r) czmq \<Rightarrow> client_env \<Rightarrow> frame list \<Rightarrow> frame \<Rightarrow> zmsg list
    \<Rightarrow> ('h, 'r, 'c) world \<Rightarrow> ('h, 'r, 'c) world result" where
  "owner_sends Z E rs r [] w = Inr w"
| "owner_sends Z E rs r (msg # msgs) w =
     rbind (actor_event Z E r (Owner_sends (Some msg)) w) (\<lambda>w.
     rbind (actor_event Z E r Pipe_ready w) (\<lambda>w.
     rbind (settle Z E rs w) (owner_sends Z E rs r msgs)))"

text \<open>
  A call: first what it sends, then the wait for its answer with what the actor has sent meanwhile.
\<close>

definition send_request :: "('h, 'r) czmq \<Rightarrow> client_env \<Rightarrow> frame list \<Rightarrow> frame \<Rightarrow> (zccp_client_t \<Rightarrow> zccp_client_t result)
    \<Rightarrow> zccp_client_t \<Rightarrow> ('h, 'r, 'c) world \<Rightarrow> (zccp_client_t \<times> ('h, 'r, 'c) world) result" where
  "send_request Z E rs r f self w =
     rbind (f self) (\<lambda>self'.
     rbind (owner_sends Z E rs r (drop (length (actor_out self)) (actor_out self')) w) (\<lambda>w.
     Inr (self', w)))"

definition await :: "frame \<Rightarrow> (zmsg option list \<Rightarrow> zccp_client_t \<Rightarrow> ('a \<times> zccp_client_t) result)
    \<Rightarrow> zccp_client_t \<Rightarrow> ('h, 'r, 'c) world \<Rightarrow> ('a \<times> zccp_client_t \<times> ('h, 'r, 'c) world) result" where
  "await r g self w =
     rbind (g (map Some (unread w r)) self) (\<lambda>(x, self).
     Inr (x, self, w\<lparr>unread := (unread w)(r := [])\<rparr>))"

definition call_connect :: "('h, 'r) czmq \<Rightarrow> client_env \<Rightarrow> frame list \<Rightarrow> frame \<Rightarrow> cstr option \<Rightarrow> int
    \<Rightarrow> zccp_client_t \<Rightarrow> ('h, 'r, 'c) world \<Rightarrow> (int \<times> zccp_client_t \<times> ('h, 'r, 'c) world) result" where
  "call_connect Z E rs r ep t self w =
     rbind (send_request Z E rs r (connect_request ep t) self w) (\<lambda>(self, w). await r (await_reply E) self w)"

definition call_subscribe :: "('h, 'r) czmq \<Rightarrow> client_env \<Rightarrow> frame list \<Rightarrow> frame \<Rightarrow> cstr option
    \<Rightarrow> zccp_client_t \<Rightarrow> ('h, 'r, 'c) world \<Rightarrow> (int \<times> zccp_client_t \<times> ('h, 'r, 'c) world) result" where
  "call_subscribe Z E rs r expr self w =
     rbind (send_request Z E rs r (subscribe_request expr) self w) (\<lambda>(self, w). await r (await_reply E) self w)"

definition call_publish :: "('h, 'r) czmq \<Rightarrow> client_env \<Rightarrow> frame list \<Rightarrow> frame \<Rightarrow> cstr option \<Rightarrow> cstr option
    \<Rightarrow> zccp_client_t \<Rightarrow> ('h, 'r, 'c) world \<Rightarrow> (zccp_client_t \<times> ('h, 'r, 'c) world) result" where
  "call_publish Z E rs r addr cont self w = send_request Z E rs r (zccp_client_publish addr cont) self w"

definition call_recv :: "client_env \<Rightarrow> frame \<Rightarrow> zccp_client_t \<Rightarrow> ('h, 'r, 'c) world
    \<Rightarrow> (cstr option \<times> zccp_client_t \<times> ('h, 'r, 'c) world) result" where
  "call_recv E r self w = await r (zccp_client_recv E) self w"

definition call_verbose :: "('h, 'r) czmq \<Rightarrow> client_env \<Rightarrow> frame list \<Rightarrow> frame
    \<Rightarrow> zccp_client_t \<Rightarrow> ('h, 'r, 'c) world \<Rightarrow> (zccp_client_t \<times> ('h, 'r, 'c) world) result" where
  "call_verbose Z E rs r self w = send_request Z E rs r (\<lambda>self. Inr (zccp_client_verbose self)) self w"

text \<open>\<open>zccp_client_new\<close> starts an actor.\<close>

definition call_new :: "frame \<Rightarrow> ('h, 'r, 'c) world \<Rightarrow> (zccp_client_t \<times> ('h, 'r, 'c) world) result" where
  "call_new r w =
     rbind (zccp_client_start \<lparr>rest_frames = [], queue = []\<rparr>) (\<lambda>c.
     Inr (zccp_client_new, w\<lparr>actors := (actors w)(r \<mapsto> c)\<rparr>))"

text \<open>\<open>zccp_client_destroy\<close> stops the actor, and waits until it has ended.\<close>

definition call_destroy :: "('h, 'r) czmq \<Rightarrow> client_env \<Rightarrow> frame list \<Rightarrow> frame
    \<Rightarrow> zccp_client_t \<Rightarrow> ('h, 'r, 'c) world \<Rightarrow> ('h, 'r, 'c) world result" where
  "call_destroy Z E rs r self w =
     rbind (owner_sends Z E rs r (drop (length (actor_out self)) (fst (zccp_client_destroy (Some self)))) w) (\<lambda>w.
     if actors w r = None then Inr w else Inl Blocked)"

section \<open>The self test of the client\<close>

text \<open>\<open>puts\<close> of a string, with the lines written so far.\<close>

definition puts :: "cstr option \<Rightarrow> cstr list \<Rightarrow> cstr list result" where
  "puts s ls = rbind (of_option Null_pointer s) (\<lambda>s. Inr (ls @ [s]))"

definition test_clients :: "('h, 'r) czmq \<Rightarrow> client_env \<Rightarrow> frame \<Rightarrow> frame \<Rightarrow> bool \<Rightarrow> ('h, 'r, 'c) world
    \<Rightarrow> (zccp_client_t \<times> zccp_client_t \<times> ('h, 'r, 'c) world) result" where
  "test_clients Z E rd wr verb w =
     rbind (call_new rd w) (\<lambda>(reader, w).
     rbind (call_new wr w) (\<lambda>(writer, w).
     if verb then
       rbind (call_verbose Z E [rd, wr] rd reader w) (\<lambda>(reader, w).
       rbind (call_verbose Z E [rd, wr] wr writer w) (\<lambda>(writer, w).
       Inr (reader, writer, w)))
     else Inr (reader, writer, w)))"

text \<open>The steps between the connections and the end: one subscription, three publications, two deliveries.\<close>

definition test_exchange :: "('h, 'r) czmq \<Rightarrow> client_env \<Rightarrow> frame \<Rightarrow> frame \<Rightarrow> cstr list
    \<Rightarrow> zccp_client_t \<times> zccp_client_t \<times> ('h, 'r, 'c) world
    \<Rightarrow> (cstr list \<times> zccp_client_t \<times> zccp_client_t \<times> ('h, 'r, 'c) world) result" where
  "test_exchange Z E rd wr ls = (\<lambda>(reader, writer, w).
     rbind (call_subscribe Z E [rd, wr] rd (Some (lit ''^cpu'' @ [92, 46])) reader w) (\<lambda>(rc, reader, w).
     rbind (c_assert (rc = 0)) (\<lambda>_.
     rbind (call_publish Z E [rd, wr] wr (Some (lit ''cpu.1'')) (Some (lit ''95'')) writer w) (\<lambda>(writer, w).
     rbind (call_publish Z E [rd, wr] wr (Some (lit ''cpu.2'')) (Some (lit ''12'')) writer w) (\<lambda>(writer, w).
     rbind (call_publish Z E [rd, wr] wr (Some (lit ''cpu-count'')) (Some (lit ''2'')) writer w) (\<lambda>(writer, w).
     rbind (call_recv E rd reader w) (\<lambda>(content, reader, w).
     rbind (puts content ls) (\<lambda>ls.
     rbind (call_recv E rd reader w) (\<lambda>(content, reader, w).
     rbind (puts content ls) (\<lambda>ls.
     Inr (ls, reader, writer, w)))))))))))"

definition test_connections :: "('h, 'r) czmq \<Rightarrow> client_env \<Rightarrow> frame \<Rightarrow> frame \<Rightarrow> cstr
    \<Rightarrow> zccp_client_t \<times> zccp_client_t \<times> ('h, 'r, 'c) world
    \<Rightarrow> (zccp_client_t \<times> zccp_client_t \<times> ('h, 'r, 'c) world) result" where
  "test_connections Z E rd wr ep = (\<lambda>(reader, writer, w).
     rbind (call_connect Z E [rd, wr] rd (Some ep) 250 reader w) (\<lambda>(rc, reader, w).
     rbind (c_assert (rc = 0)) (\<lambda>_.
     rbind (call_connect Z E [rd, wr] wr (Some ep) 250 writer w) (\<lambda>(rc, writer, w).
     rbind (c_assert (rc = 0)) (\<lambda>_.
     Inr (reader, writer, w))))))"

text \<open>The result is what the test prints.\<close>

definition zccp_client_test :: "('h, 'r) czmq \<Rightarrow> 'c zenv \<Rightarrow> client_env \<Rightarrow> 32 word \<Rightarrow> (cstr set \<Rightarrow> cstr list)
    \<Rightarrow> frame \<Rightarrow> frame \<Rightarrow> bool \<Rightarrow> cstr list result" where
  "zccp_client_test Z SE E random order rd wr verb =
     (let ls = [lit '' * zccp_client: ''] @ (if verb then [[]] else []);
          endpoint = lit ''ipc://@/zccp'' in
      rbind (start_test_broker Z SE (lit ''zccp_client_test'') random 3 verb endpoint) (\<lambda>rig.
      rbind (test_clients Z E rd wr verb \<lparr>hub = rig, actors = Map.empty, unread = (\<lambda>_. [])\<rparr>) (\<lambda>clients.
      rbind (test_connections Z E rd wr endpoint clients) (\<lambda>clients.
      rbind (test_exchange Z E rd wr ls clients) (\<lambda>(ls, reader, writer, w).
      rbind (call_destroy Z E [rd, wr] wr writer w) (\<lambda>w.
      rbind (call_destroy Z E [rd, wr] rd reader w) (\<lambda>w.
      rbind (stop_test_broker Z SE 3 order (hub w)) (\<lambda>_.
      Inr (ls @ [lit ''OK''])))))))))"

text \<open>The self test of the repository runs both tests.\<close>

definition zccp_selftest :: "('h, 'r) czmq \<Rightarrow> 'c zenv \<Rightarrow> client_env \<Rightarrow> 32 word \<Rightarrow> (cstr set \<Rightarrow> cstr list)
    \<Rightarrow> frame \<Rightarrow> frame \<Rightarrow> cstr list result" where
  "zccp_selftest Z SE E random order rd wr =
     rbind (zccp_server_test Z SE random 3 order rd wr True) (\<lambda>_.
     zccp_client_test Z SE E random order rd wr True)"

section \<open>What the machine stands for\<close>

text \<open>
  The broker is in the abstract state \<open>B\<close>; the commands \<open>ib r\<close> wait in the dealer of \<open>r\<close>; the actors
  are in the states \<open>st\<close>, with nothing in their pipes; the messages \<open>u r\<close> wait for the owner of \<open>r\<close>.
\<close>

definition idle :: "state_t \<Rightarrow> 'h s_client_t \<Rightarrow> bool" where
  "idle x c \<longleftrightarrow> client_ok c \<and> state c = x \<and> pipe_in c = \<lparr>rest_frames = [], queue = []\<rparr> \<and> endpoint c \<noteq> None"

definition world_is :: "('h, 'r) czmq \<Rightarrow> broker \<Rightarrow> (frame \<Rightarrow> command list) \<Rightarrow> (frame \<rightharpoonup> state_t)
    \<Rightarrow> (frame \<Rightarrow> zmsg list) \<Rightarrow> ('h, 'r, 'c) world \<Rightarrow> bool" where
  "world_is Z B ib st u w \<longleftrightarrow> rig_is Z B ib (hub w) \<and> unread w = u
     \<and> (\<forall>r x. st r = Some x \<longrightarrow> (\<exists>c. actors w r = Some c \<and> idle x c))"

lemma world_isD:
  assumes "world_is Z B ib st u w"
  shows "rig_is Z B ib (hub w)" and "unread w = u"
    and "st r = Some x \<Longrightarrow> \<exists>c. actors w r = Some c \<and> idle x c"
  using assms by (auto simp: world_is_def)

text \<open>A message of the broker that is answered by a message to the owner, or by none.\<close>

lemma input_handled:
  assumes Z: "czmq_api Z" and w: "world_is Z B ib st u w" and waits: "ib r = cmd # cs" and x: "st r = Some x"
    and spec: "client_spec x cmd = Inr R" "\<not> halts R" "says R = []"
  shows "\<exists>w'. next_input Z E r w = Inr w'
    \<and> world_is Z B (ib(r := cs)) (st(r \<mapsto> next_state R)) (u(r := u r @ tells R)) w'"
proof -
  have H: "zhash_api (hash Z)" using Z by (simp add: czmq_api_def)
  obtain c where c: "actors w r = Some c" "idle x c" using world_isD(3) [OF w x] by blast
  have ok: "client_ok c" "state c = x" using c(2) by (simp_all add: idle_def)
  have "list_all2 (\<lambda>cmd msg. stands_for Z (Inr msg) cmd) (cmd # cs) (inbox (hub w) r)"
    using world_isD(1) [OF w] waits by (metis rig_is_def)
  then obtain m ms where m: "inbox (hub w) r = m # ms" "stands_for Z (Inr m) cmd"
      "list_all2 (\<lambda>cmd msg. stands_for Z (Inr msg) cmd) cs ms"
    by (auto simp: list_all2_Cons1)
  obtain a where a: "zccp_msg_recv (hash Z) False (Some m) = Some a" "command_of (hash Z) a = Some cmd"
    using stands_for_arrives(2) [OF m(2)] by blast
  obtain c' where c': "s_client_handle_protocol Z E (Some m) c = Inr (0, c')" "reacts (hash Z) c R c'"
    using protocol_handled [OF H ok(1) a, of E] spec ok(2) by auto
  let ?hub = "(hub w)\<lparr>inbox := (inbox (hub w))(r := ms)\<rparr>"
  let ?w' = "\<lparr>hub = ?hub, actors = (actors w)(r \<mapsto> c'), unread = u(r := u r @ tells R)\<rparr>"
  have "Client_Reactor.handle_event Z E (Dealer_ready (Some m)) c = Inr (0, c')"
    using client_okD(6) [OF ok(1)] c'(1)
    by (simp add: Client_Reactor.handle_event_def call_reader_def)
  moreover have "sent c' = sent c" "s_client_t.pipe_out c' = s_client_t.pipe_out c @ tells R"
    using c'(2) spec(3) by (simp_all add: reacts_def)
  ultimately have "next_input Z E r w = Inr ?w'"
    using m(1) c(1) world_isD(2) [OF w] by (simp add: next_input_def actor_event_def)
  moreover have "idle (next_state R) c'"
    using c' c(2) spec(2) by (auto simp: reacts_def idle_def)
  then have "world_is Z B (ib(r := cs)) (st(r \<mapsto> next_state R)) (u(r := u r @ tells R)) ?w'"
    using w m(3) by (auto simp: world_is_def rig_is_def)
  ultimately show ?thesis by blast
qed

text \<open>What a list of such messages does.\<close>

fun absorb :: "state_t \<Rightarrow> command list \<Rightarrow> (state_t \<times> zmsg list) option" where
  "absorb x [] = Some (x, [])"
| "absorb x (cmd # cs) = (case client_spec x cmd of
      Inl e \<Rightarrow> None
    | Inr R \<Rightarrow> if halts R \<or> says R \<noteq> [] then None
               else map_option (\<lambda>(y, ts). (y, tells R @ ts)) (absorb (next_state R) cs))"

lemma inputs_handled:
  assumes Z: "czmq_api Z"
  shows "world_is Z B ib st u w \<Longrightarrow> ib r = cs \<Longrightarrow> st r = Some x \<Longrightarrow> absorb x cs = Some (y, ts) \<Longrightarrow>
    \<exists>w'. inputs Z E (length cs) r w = Inr w' \<and> world_is Z B (ib(r := [])) (st(r \<mapsto> y)) (u(r := u r @ ts)) w'"
proof (induction cs arbitrary: ib st u w x ts)
  case Nil
  then show ?case by (simp add: fun_upd_idem)
next
  case (Cons cmd cs)
  from Cons.prems(4) obtain R ts' where R: "client_spec x cmd = Inr R" "\<not> halts R" "says R = []"
      "absorb (next_state R) cs = Some (y, ts')" "ts = tells R @ ts'"
    by (auto split: sum.splits if_splits)
  obtain w1 where w1: "next_input Z E r w = Inr w1"
      "world_is Z B (ib(r := cs)) (st(r \<mapsto> next_state R)) (u(r := u r @ tells R)) w1"
    using input_handled [OF Z Cons.prems(1-3) R(1-3)] by blast
  obtain w2 where w2: "inputs Z E (length cs) r w1 = Inr w2"
      "world_is Z B ((ib(r := cs))(r := [])) ((st(r \<mapsto> next_state R))(r \<mapsto> y))
        ((u(r := u r @ tells R))(r := (u(r := u r @ tells R)) r @ ts')) w2"
    using Cons.IH [OF w1(2) _ _ R(4)] by fastforce
  have "inputs Z E (length (cmd # cs)) r w = Inr w2" using w1(1) w2(1) by simp
  moreover have "world_is Z B (ib(r := [])) (st(r \<mapsto> y)) (u(r := u r @ ts)) w2"
    using w2(2) by (simp only: fun_upd_upd fun_upd_same append_assoc R(5))
  ultimately show ?case by blast
qed

lemma settle_handled:
  assumes Z: "czmq_api Z" and w: "world_is Z B ib st u w" and "rd \<noteq> wr"
    and rd: "st rd = Some x" "absorb x (ib rd) = Some (x', ts)"
    and wr: "st wr = Some y" "absorb y (ib wr) = Some (y', vs)"
    and rest: "\<forall>r. r \<noteq> rd \<longrightarrow> r \<noteq> wr \<longrightarrow> ib r = []"
  shows "\<exists>w'. settle Z E [rd, wr] w = Inr w'
    \<and> world_is Z B (\<lambda>_. []) (st(rd \<mapsto> x', wr \<mapsto> y')) (u(rd := u rd @ ts, wr := u wr @ vs)) w'"
proof -
  have len: "length (inbox (hub w) r) = length (ib r)" if "world_is Z B ib st u w" for ib st u w r
    using world_isD(1) [OF that] unfolding rig_is_def by (metis list_all2_lengthD)
  obtain w1 where w1: "inputs Z E (length (ib rd)) rd w = Inr w1"
      "world_is Z B (ib(rd := [])) (st(rd \<mapsto> x')) (u(rd := u rd @ ts)) w1"
    using inputs_handled [OF Z w refl rd] by blast
  obtain w2 where w2: "inputs Z E (length (ib wr)) wr w1 = Inr w2"
      "world_is Z B ((ib(rd := []))(wr := [])) ((st(rd \<mapsto> x'))(wr \<mapsto> y')) ((u(rd := u rd @ ts))(wr := u wr @ vs)) w2"
    using inputs_handled [OF Z w1(2), of wr "ib wr" y y' vs] assms(3) wr by auto
  have none: "(ib(rd := []))(wr := []) = (\<lambda>_. [])" using rest by auto
  have "length (inbox (hub w1) wr) = length (ib wr)" using len [OF w1(2), of wr] assms(3) by simp
  then have "settle Z E [rd, wr] w = Inr w2" using w1(1) w2(1) len [OF w, of rd] by (simp)
  then show ?thesis using w2(2) unfolding none by blast
qed

declare settle.simps [simp del] owner_sends.simps [simp del]

section \<open>Calls of the application\<close>

text \<open>What an actor does with a call: it changes its state and sends a command.\<close>

definition performs :: "('h, 'r) czmq \<Rightarrow> client_env \<Rightarrow> state_t \<Rightarrow> call \<Rightarrow> state_t \<Rightarrow> command list \<Rightarrow> bool" where
  "performs Z E x c x' cmds \<longleftrightarrow> (\<forall>s. client_ok s \<longrightarrow> state s = x \<longrightarrow> endpoint s \<noteq> None \<longrightarrow> holds_call s c [] \<longrightarrow>
     (\<exists>s' ws. s_client_handle_pipe Z E s = Inr (0, s') \<and> idle x' s' \<and> sent s' = sent s @ ws
       \<and> list_all2 (\<lambda>cmd w. stands_for Z (Inr w) cmd) cmds ws
       \<and> s_client_t.pipe_out s' = s_client_t.pipe_out s))"

lemma performs_verbose: "performs Z E x Be_verbose x []"
proof -
  have "client_ok (s\<lparr>verbose := True\<rparr>) = client_ok s" for s :: "'a s_client_t" by (simp add: client_ok_def)
  then show ?thesis by (auto simp: performs_def no_wire_method idle_def)
qed

lemma performs_connect:
  assumes "zhash_api (hash Z)" and "zs_connect E (Some ep) = 0" and "wf_cstr ep"
  shows "performs Z E start_state (Connect ep t) connecting_state [Hello [] Map.empty]"
  unfolding performs_def
proof (intro allI impI)
  fix s :: "'a s_client_t"
  assume s: "client_ok s" "state s = start_state" "endpoint s \<noteq> None" "holds_call s (Connect ep t) []"
  obtain e where e: "endpoint s = Some e" using s(3) by blast
  have wf: "wf_call (Connect ep t)" using assms(3) by simp
  obtain s' s1 where s': "s_client_handle_pipe Z E s = Inr (0, s')" "prepare Z E (Connect ep t) s = Inr s1"
      "reacts (hash Z) (read_call [] s1) ((stay connecting_state)\<lparr>says := [ZCCP_MSG_HELLO]\<rparr>) s'"
    using connect_handled [OF assms(1) s(1,4) wf refl e, of E] s(2) assms(2)
    by (auto simp del: prepare.simps)
  have "stands_for Z (Inr (draft_wire (hash Z) (msgout s) ZCCP_MSG_HELLO)) (Hello [] Map.empty)"
    by (rule draft_commands(1) [OF assms(1) client_okD(3) [OF s(1)]])
  then show "\<exists>s' ws. s_client_handle_pipe Z E s = Inr (0, s') \<and> idle connecting_state s' \<and> sent s' = sent s @ ws
      \<and> list_all2 (\<lambda>cmd w. stands_for Z (Inr w) cmd) [Hello [] Map.empty] ws
      \<and> s_client_t.pipe_out s' = s_client_t.pipe_out s"
    using s' by (intro exI [of _ s'] exI [of _ "[draft_wire (hash Z) (msgout s) ZCCP_MSG_HELLO]"])
      (auto simp: reacts_def stay_def idle_def)
qed

lemma performs_request:
  assumes H: "zhash_api (hash Z)" and wf: "wf_call c"
    and c: "(ev, c) = (subscribe_event, Subscribe_to x) \<or> (ev, c) = (publish_event, Publish_at x y)"
    and spec: "call_spec E connected_state c = Inr ((stay st)\<lparr>says := [i]\<rparr>)"
    and prep: "\<And>s. client_ok s \<Longrightarrow> \<exists>s1. prepare Z E c s = Inr s1 \<and> sent s1 = sent s
      \<and> s_client_t.pipe_out s1 = s_client_t.pipe_out s \<and> endpoint s1 = endpoint s
      \<and> stands_for Z (Inr (draft_wire (hash Z) (msgout s1) i)) cmd"
  shows "performs Z E connected_state c st [cmd]"
  unfolding performs_def
proof (intro allI impI)
  fix s :: "'a s_client_t"
  assume s: "client_ok s" "state s = connected_state" "endpoint s \<noteq> None" "holds_call s c []"
  obtain s1 where s1: "prepare Z E c s = Inr s1" "sent s1 = sent s" "s_client_t.pipe_out s1 = s_client_t.pipe_out s"
      "endpoint s1 = endpoint s" "stands_for Z (Inr (draft_wire (hash Z) (msgout s1) i)) cmd"
    using prep [OF s(1)] by blast
  obtain s' where "s_client_handle_pipe Z E s = Inr (0, s')"
      "reacts (hash Z) (read_call [] s1) ((stay st)\<lparr>says := [i]\<rparr>) s'"
    using request_handled [OF H s(1,4) wf c, of E] s1(1) spec s(2) by auto
  then show "\<exists>s' ws. s_client_handle_pipe Z E s = Inr (0, s') \<and> idle st s' \<and> sent s' = sent s @ ws
      \<and> list_all2 (\<lambda>cmd w. stands_for Z (Inr w) cmd) [cmd] ws \<and> s_client_t.pipe_out s' = s_client_t.pipe_out s"
    using s1 s(3) by (intro exI [of _ s'] exI [of _ "[draft_wire (hash Z) (msgout s1) i]"])
      (auto simp: reacts_def stay_def idle_def)
qed

lemma performs_subscribe:
  assumes "zhash_api (hash Z)" and "wf_cstr x" and "vprintf Z x = Some e" and "sized_fits 1 e"
  shows "performs Z E connected_state (Subscribe_to x) subscribing_state [Subscribe e Map.empty]"
proof (rule performs_request [OF assms(1)])
  show "(subscribe_event, Subscribe_to x) = (subscribe_event, Subscribe_to x)
      \<or> (subscribe_event, Subscribe_to x) = (publish_event, Publish_at x [])" by simp
  fix s :: "'a s_client_t" assume "client_ok s"
  then have d: "draft_ok ((msgout s)\<lparr>expression := Some e\<rparr>)" using client_okD(3) by (auto simp: draft_ok_def msg_ok_def)
  show "\<exists>s1. prepare Z E (Subscribe_to x) s = Inr s1 \<and> sent s1 = sent s
      \<and> s_client_t.pipe_out s1 = s_client_t.pipe_out s \<and> endpoint s1 = endpoint s
      \<and> stands_for Z (Inr (draft_wire (hash Z) (msgout s1) ZCCP_MSG_SUBSCRIBE)) (Subscribe e Map.empty)"
    using draft_commands(3) [OF assms(1) d _ assms(4)] by (simp add: assms(3))
qed (use assms(2) in simp_all)

lemma performs_publish:
  assumes "zhash_api (hash Z)" and "wf_cstr x" and "wf_cstr y" and "vprintf Z x = Some a" and "sized_fits 1 a"
  shows "performs Z E connected_state (Publish_at x y) connected_state [Publish a Map.empty [y]]"
proof (rule performs_request [OF assms(1)])
  show "(publish_event, Publish_at x y) = (subscribe_event, Subscribe_to x)
      \<or> (publish_event, Publish_at x y) = (publish_event, Publish_at x y)" by simp
  fix s :: "'a s_client_t" assume "client_ok s"
  then have d: "draft_ok ((msgout s)\<lparr>address := Some a, content := Some [y]\<rparr>)"
    using client_okD(3) by (auto simp: draft_ok_def msg_ok_def)
  show "\<exists>s1. prepare Z E (Publish_at x y) s = Inr s1 \<and> sent s1 = sent s
      \<and> s_client_t.pipe_out s1 = s_client_t.pipe_out s \<and> endpoint s1 = endpoint s
      \<and> stands_for Z (Inr (draft_wire (hash Z) (msgout s1) ZCCP_MSG_PUBLISH)) (Publish a Map.empty [y])"
    using draft_commands(4) [OF assms(1) d _ _ assms(5)] by (simp add: assms(4))
qed (use assms(2,3) in simp_all)

lemma sent_all:
  assumes "czmq_api Z" and "rig_is Z B (\<lambda>_. []) rig" and "list_all2 (\<lambda>cmd w. stands_for Z (Inr w) cmd) cmds ws"
    and "cmds = [] \<and> B' = B \<and> outs = [] \<or> (\<exists>cmd. cmds = [cmd] \<and> broker_step Z B r cmd = Inr (B', outs)
      \<and> Server_Refine.command_event cmd \<noteq> Server_State.terminate_event)"
  shows "\<exists>rig'. send_all Z r ws rig = Inr rig' \<and> rig_is Z B' (\<lambda>q. for_peer q outs) rig'"
  using assms(4)
proof (elim disjE exE conjE)
  assume "cmds = []" "B' = B" "outs = []"
  then show ?thesis using assms(2,3) by simp
next
  fix cmd
  assume cmd: "cmds = [cmd]" "broker_step Z B r cmd = Inr (B', outs)"
    "Server_Refine.command_event cmd \<noteq> Server_State.terminate_event"
  then obtain w where w: "ws = [w]" "stands_for Z (Inr w) cmd" using assms(3) by (auto simp: list_all2_Cons1)
  obtain rig' where "peer_send Z 3 r (Inr w) rig = Inr rig'" "rig_is Z B' (\<lambda>q. [] @ for_peer q outs) rig'"
    using sent_to_broker [OF assms(1) order.refl assms(2) w(2) cmd(3,2)] by blast
  then show ?thesis by (simp add: w(1))
qed

lemma owner_sends_none: "owner_sends Z E rs r [] = Inr"
  by (rule ext) (simp add: owner_sends.simps)

text \<open>A call of the application at \<open>r\<close>, until the broker has handled what the actor sent.\<close>

lemma call_handled:
  assumes Z: "czmq_api Z" and w: "world_is Z B (\<lambda>_. []) st u w" and x: "st r = Some x"
    and call: "performs Z E x c x' cmds"
    and step: "cmds = [] \<and> B' = B \<and> outs = [] \<or> (\<exists>cmd. cmds = [cmd] \<and> broker_step Z B r cmd = Inr (B', outs)
      \<and> Server_Refine.command_event cmd \<noteq> Server_State.terminate_event)"
  shows "\<exists>w2. owner_sends Z E rs r [call_frames c] w = settle Z E rs w2
    \<and> world_is Z B' (\<lambda>q. for_peer q outs) (st(r \<mapsto> x')) u w2"
proof -
  obtain s where s: "actors w r = Some s" "idle x s" using world_isD(3) [OF w x] by blast
  let ?s = "s\<lparr>pipe_in := \<lparr>rest_frames = [], queue = [Some (call_frames c)]\<rparr>\<rparr>"
  let ?w = "w\<lparr>actors := (actors w)(r \<mapsto> ?s)\<rparr>"
  have ok: "client_ok ?s" "state ?s = x" "endpoint ?s \<noteq> None" "holds_call ?s c []"
    using s(2) by (simp_all add: idle_def holds_call_def)
  have first: "actor_event Z E r (Owner_sends (Some (call_frames c))) w = Inr ?w"
    using s by (simp add: actor_event_def Client_Reactor.handle_event_def idle_def)
  obtain s' ws where s': "s_client_handle_pipe Z E ?s = Inr (0, s')" "idle x' s'" "sent s' = sent ?s @ ws"
      "list_all2 (\<lambda>cmd w. stands_for Z (Inr w) cmd) cmds ws" "s_client_t.pipe_out s' = s_client_t.pipe_out ?s"
    using call ok unfolding performs_def by blast
  obtain rig' where rig': "send_all Z r ws (hub w) = Inr rig'" "rig_is Z B' (\<lambda>q. for_peer q outs) rig'"
    using sent_all [OF Z world_isD(1) [OF w] s'(4) step] by blast
  let ?w2 = "\<lparr>hub = rig', actors = (actors w)(r \<mapsto> s'), unread = unread w\<rparr>"
  have second: "actor_event Z E r Pipe_ready ?w = Inr ?w2"
    using s' rig'(1) client_okD(6) [OF ok(1)]
    by (simp add: actor_event_def Client_Reactor.handle_event_def call_reader_def)
  have w2: "world_is Z B' (\<lambda>q. for_peer q outs) (st(r \<mapsto> x')) u ?w2"
    using w rig'(2) s'(2) by (auto simp: world_is_def)
  have "owner_sends Z E rs r [call_frames c] w = rbind (settle Z E rs ?w2) Inr"
    using first second by (simp add: owner_sends.simps owner_sends_none)
  with w2 show ?thesis by (auto simp only: rbind_return)
qed

text \<open>The same until nothing is left to do, with two clients and with one.\<close>

lemma call_settled:
  assumes Z: "czmq_api Z" and w: "world_is Z B (\<lambda>_. []) st u w" and x: "st r = Some x"
    and call: "performs Z E x c x' cmds"
    and step: "cmds = [] \<and> B' = B \<and> outs = [] \<or> (\<exists>cmd. cmds = [cmd] \<and> broker_step Z B r cmd = Inr (B', outs)
      \<and> Server_Refine.command_event cmd \<noteq> Server_State.terminate_event)"
    and clients: "rd \<noteq> wr" "(st(r \<mapsto> x')) rd = Some y" "(st(r \<mapsto> x')) wr = Some z"
    and rd: "absorb y (for_peer rd outs) = Some (y', ts)" and wr: "absorb z (for_peer wr outs) = Some (z', vs)"
    and peers: "\<forall>q cmd. (q, cmd) \<in> set outs \<longrightarrow> q = rd \<or> q = wr"
  shows "\<exists>w'. owner_sends Z E [rd, wr] r [call_frames c] w = Inr w'
    \<and> world_is Z B' (\<lambda>_. []) (st(r \<mapsto> x', rd \<mapsto> y', wr \<mapsto> z')) (u(rd := u rd @ ts, wr := u wr @ vs)) w'"
proof -
  obtain w2 where w2: "owner_sends Z E [rd, wr] r [call_frames c] w = settle Z E [rd, wr] w2"
      "world_is Z B' (\<lambda>q. for_peer q outs) (st(r \<mapsto> x')) u w2"
    using call_handled [OF Z w x call step] by blast
  have "\<forall>q. q \<noteq> rd \<longrightarrow> q \<noteq> wr \<longrightarrow> for_peer q outs = []"
    using peers by (auto simp: for_peer_def filter_empty_conv)
  from settle_handled [OF Z w2(2) clients(1,2) rd clients(3) wr this, of E] w2(1) show ?thesis by (simp only:)
qed

lemma lone_call_settled:
  assumes Z: "czmq_api Z" and w: "world_is Z B (\<lambda>_. []) st u w" and x: "st r = Some x"
    and call: "performs Z E x c x' cmds"
    and step: "cmds = [] \<and> B' = B \<and> outs = [] \<or> (\<exists>cmd. cmds = [cmd] \<and> broker_step Z B r cmd = Inr (B', outs)
      \<and> Server_Refine.command_event cmd \<noteq> Server_State.terminate_event)"
    and outs: "absorb x' (for_peer r outs) = Some (x2, ts)" "\<forall>q cmd. (q, cmd) \<in> set outs \<longrightarrow> q = r"
  shows "\<exists>w'. owner_sends Z E [r] r [call_frames c] w = Inr w'
    \<and> world_is Z B' (\<lambda>_. []) (st(r \<mapsto> x2)) (u(r := u r @ ts)) w'"
proof -
  obtain w2 where w2: "owner_sends Z E [r] r [call_frames c] w = settle Z E [r] w2"
      "world_is Z B' (\<lambda>q. for_peer q outs) (st(r \<mapsto> x')) u w2"
    using call_handled [OF Z w x call step] by blast
  obtain w3 where w3: "inputs Z E (length (for_peer r outs)) r w2 = Inr w3"
      "world_is Z B' ((\<lambda>q. for_peer q outs)(r := [])) ((st(r \<mapsto> x'))(r \<mapsto> x2)) (u(r := u r @ ts)) w3"
    using inputs_handled [OF Z w2(2) refl _ outs(1), of E] by auto
  have "list_all2 (\<lambda>cmd msg. stands_for Z (Inr msg) cmd) (for_peer r outs) (inbox (hub w2) r)"
    using world_isD(1) [OF w2(2)] by (simp add: rig_is_def)
  then have "owner_sends Z E [r] r [call_frames c] w = Inr w3"
    using w2(1) w3(1) list_all2_lengthD by (fastforce simp: settle.simps)
  moreover have "(\<lambda>q. for_peer q outs)(r := []) = (\<lambda>_. [])"
    using outs(2) by (auto simp: for_peer_def filter_empty_conv fun_eq_iff)
  ultimately show ?thesis using w3(2) by (metis fun_upd_upd)
qed

section \<open>The run of the self test\<close>

text \<open>The states of the two clients, and what they have not read.\<close>

abbreviation two :: "frame \<Rightarrow> 'a \<Rightarrow> frame \<Rightarrow> 'a \<Rightarrow> frame \<rightharpoonup> 'a" where
  "two rd x wr y \<equiv> [rd \<mapsto> x, wr \<mapsto> y]"

definition left :: "frame \<Rightarrow> zmsg list \<Rightarrow> frame \<Rightarrow> zmsg list" where
  "left rd ts = (\<lambda>r. if r = rd then ts else [])"

lemma call_of_reader:
  assumes Z: "czmq_api Z" and w: "world_is Z B (\<lambda>_. []) (two rd x wr y) (left rd us) w" and "rd \<noteq> wr"
    and call: "performs Z E x c x' cmds"
    and step: "cmds = [] \<and> B' = B \<and> outs = [] \<or> (\<exists>cmd. cmds = [cmd] \<and> broker_step Z B rd cmd = Inr (B', outs)
      \<and> Server_Refine.command_event cmd \<noteq> Server_State.terminate_event)"
    and outs: "absorb x' (for_peer rd outs) = Some (x2, ts)" "\<forall>q cmd. (q, cmd) \<in> set outs \<longrightarrow> q = rd"
  shows "\<exists>w'. owner_sends Z E [rd, wr] rd [call_frames c] w = Inr w'
    \<and> world_is Z B' (\<lambda>_. []) (two rd x2 wr y) (left rd (us @ ts)) w'"
proof -
  have wr: "for_peer wr outs = []" using outs(2) assms(3) by (auto simp: for_peer_def filter_empty_conv)
  have "\<exists>w'. owner_sends Z E [rd, wr] rd [call_frames c] w = Inr w' \<and> world_is Z B' (\<lambda>_. [])
      ((two rd x wr y)(rd \<mapsto> x', rd \<mapsto> x2, wr \<mapsto> y)) ((left rd us)(rd := left rd us rd @ ts, wr := left rd us wr @ [])) w'"
    by (rule call_settled [OF Z w _ call step assms(3) _ _ outs(1)]) (use assms(3) outs(2) wr in auto)
  moreover have "(two rd x wr y)(rd \<mapsto> x', rd \<mapsto> x2, wr \<mapsto> y) = two rd x2 wr y" using assms(3) by auto
  moreover have "(left rd us)(rd := left rd us rd @ ts, wr := left rd us wr @ []) = left rd (us @ ts)"
    using assms(3) by (auto simp: left_def)
  ultimately show ?thesis by (simp only:)
qed

text \<open>A call of the writer; what the broker sends goes to the reader, or is an answer to the writer.\<close>

lemma call_of_writer:
  assumes Z: "czmq_api Z" and w: "world_is Z B (\<lambda>_. []) (two rd x wr y) u w" and "rd \<noteq> wr"
    and call: "performs Z E y c y' cmds"
    and step: "cmds = [] \<and> B' = B \<and> outs = [] \<or> (\<exists>cmd. cmds = [cmd] \<and> broker_step Z B wr cmd = Inr (B', outs)
      \<and> Server_Refine.command_event cmd \<noteq> Server_State.terminate_event)"
    and outs: "absorb x (for_peer rd outs) = Some (x', ts)" "absorb y' (for_peer wr outs) = Some (y2, vs)"
      "\<forall>q cmd. (q, cmd) \<in> set outs \<longrightarrow> q = rd \<or> q = wr"
  shows "\<exists>w'. owner_sends Z E [rd, wr] wr [call_frames c] w = Inr w'
    \<and> world_is Z B' (\<lambda>_. []) (two rd x' wr y2) (u(rd := u rd @ ts, wr := u wr @ vs)) w'"
proof -
  have "\<exists>w'. owner_sends Z E [rd, wr] wr [call_frames c] w = Inr w' \<and> world_is Z B' (\<lambda>_. [])
      ((two rd x wr y)(wr \<mapsto> y', rd \<mapsto> x', wr \<mapsto> y2)) (u(rd := u rd @ ts, wr := u wr @ vs)) w'"
    by (rule call_settled [OF Z w _ call step assms(3) _ _ outs]) (use assms(3) in auto)
  moreover have "(two rd x wr y)(wr \<mapsto> y', rd \<mapsto> x', wr \<mapsto> y2) = two rd x' wr y2" using assms(3) by auto
  ultimately show ?thesis by (simp only:)
qed

text \<open>The calls as the application sees them.\<close>

abbreviation no_input :: zsock_in where
  "no_input \<equiv> \<lparr>rest_frames = [], queue = []\<rparr>"

lemma request_sends:
  assumes "f self = Inr (send_command msg self)" and "owner_sends Z E rs r [msg] w = Inr w'"
  shows "send_request Z E rs r f self w = Inr (send_command msg self, w')"
  using assms by (simp add: send_request_def send_command_def)

lemma reply_awaited:
  assumes "actor_in self = no_input" and "unread w r = [success]"
  shows "\<exists>self'. await r (await_reply E) self w = Inr (0, self', w\<lparr>unread := (unread w)(r := [])\<rparr>)
    \<and> actor_in self' = no_input"
proof -
  have "actor_in (arrive [Some success] self) = \<lparr>rest_frames = [], queue = Some [lit ''SUCCESS'', decimal 0] # []\<rparr>"
    using assms(1) by (simp add: arrive_def success_def)
  from accept_success [OF this, of E] show ?thesis
    by (simp add: await_def await_reply_def assms(2))
qed

lemma world_read:
  assumes "world_is Z B ib st u w"
  shows "world_is Z B ib st (u(r := [])) (w\<lparr>unread := (unread w)(r := [])\<rparr>)"
  using assms by (simp add: world_is_def)

lemma left_upd:
  "(left r ts)(r := us) = left r us" "q \<noteq> r \<Longrightarrow> (left r ts)(q := []) = left r ts"
  "left r ts r = ts" "q \<noteq> r \<Longrightarrow> left r ts q = []"
  by (auto simp: left_def)

text \<open>A call that waits for its answer.\<close>

lemma answered:
  assumes "f self = Inr (send_command (call_frames c) self)" and "actor_in self = no_input"
    and "owner_sends Z E rs r [call_frames c] w = Inr w1" and "unread w1 r = [success]"
  shows "\<exists>self'. rbind (send_request Z E rs r f self w) (\<lambda>(self, w). await r (await_reply E) self w)
      = Inr (0, self', w1\<lparr>unread := (unread w1)(r := [])\<rparr>) \<and> actor_in self' = no_input"
proof -
  have "actor_in (send_command (call_frames c) self) = no_input" using assms(2) by (simp add: send_command_def)
  from reply_awaited [OF this assms(4), of E] request_sends [of f self, OF assms(1,3)] show ?thesis by auto
qed

lemma reader_asks:
  assumes Z: "czmq_api Z" and w: "world_is Z B (\<lambda>_. []) (two rd x wr y) (left rd []) w" and "rd \<noteq> wr"
    and api: "f self = Inr (send_command (call_frames c) self)" "actor_in self = no_input"
    and call: "performs Z E x c x' [cmd]"
    and step: "broker_step Z B rd cmd = Inr (B', [(rd, ans)])"
      "Server_Refine.command_event cmd \<noteq> Server_State.terminate_event"
    and ans: "absorb x' [ans] = Some (x2, [success])"
  shows "\<exists>self' w'. rbind (send_request Z E [rd, wr] rd f self w) (\<lambda>(self, w). await rd (await_reply E) self w)
      = Inr (0, self', w') \<and> actor_in self' = no_input
    \<and> world_is Z B' (\<lambda>_. []) (two rd x2 wr y) (left rd []) w'"
proof -
  obtain w1 where w1: "owner_sends Z E [rd, wr] rd [call_frames c] w = Inr w1"
      "world_is Z B' (\<lambda>_. []) (two rd x2 wr y) (left rd ([] @ [success])) w1"
    using call_of_reader [OF Z w assms(3) call, of B' "[(rd, ans)]" x2 "[success]"] step ans by auto
  have "unread w1 rd = [success]" using world_isD(2) [OF w1(2)] by (simp add: left_def)
  from answered [of f self, OF api w1(1) this] world_read [OF w1(2), of rd] show ?thesis
    by (auto simp: left_upd)
qed

lemma lone_asks:
  assumes Z: "czmq_api Z" and w: "world_is Z B (\<lambda>_. []) [r \<mapsto> x] (left r []) w"
    and api: "f self = Inr (send_command (call_frames c) self)" "actor_in self = no_input"
    and call: "performs Z E x c x' [cmd]"
    and step: "broker_step Z B r cmd = Inr (B', [(r, ans)])"
      "Server_Refine.command_event cmd \<noteq> Server_State.terminate_event"
    and ans: "absorb x' [ans] = Some (x2, [success])"
  shows "\<exists>self' w'. rbind (send_request Z E [r] r f self w) (\<lambda>(self, w). await r (await_reply E) self w)
      = Inr (0, self', w') \<and> actor_in self' = no_input
    \<and> world_is Z B' (\<lambda>_. []) [r \<mapsto> x2] (left r []) w'"
proof -
  obtain w1 where w1: "owner_sends Z E [r] r [call_frames c] w = Inr w1"
      "world_is Z B' (\<lambda>_. []) ([r \<mapsto> x](r \<mapsto> x2)) ((left r [])(r := left r [] r @ [success])) w1"
    using lone_call_settled [OF Z w _ call, of r B' "[(r, ans)]" x2 "[success]"] step ans by auto
  have "unread w1 r = [success]" using world_isD(2) [OF w1(2)] by (simp add: left_def)
  from answered [of f self, OF api w1(1) this] world_read [OF w1(2), of r] show ?thesis
    by (auto simp: left_upd)
qed

lemma writer_asks:
  assumes Z: "czmq_api Z" and w: "world_is Z B (\<lambda>_. []) (two rd x wr y) (left rd []) w" and "rd \<noteq> wr"
    and api: "f self = Inr (send_command (call_frames c) self)" "actor_in self = no_input"
    and call: "performs Z E y c y' [cmd]"
    and step: "broker_step Z B wr cmd = Inr (B', [(wr, ans)])"
      "Server_Refine.command_event cmd \<noteq> Server_State.terminate_event"
    and ans: "absorb y' [ans] = Some (y2, [success])"
  shows "\<exists>self' w'. rbind (send_request Z E [rd, wr] wr f self w) (\<lambda>(self, w). await wr (await_reply E) self w)
      = Inr (0, self', w') \<and> actor_in self' = no_input
    \<and> world_is Z B' (\<lambda>_. []) (two rd x wr y2) (left rd []) w'"
proof -
  obtain w1 where w1: "owner_sends Z E [rd, wr] wr [call_frames c] w = Inr w1"
      "world_is Z B' (\<lambda>_. []) (two rd x wr y2) ((left rd [])(rd := left rd [] rd @ [], wr := left rd [] wr @ [success])) w1"
    using call_of_writer [OF Z w assms(3) call, of B' "[(wr, ans)]" x "[]" y2 "[success]"] step ans assms(3) by auto
  have "unread w1 wr = [success]" using world_isD(2) [OF w1(2)] assms(3) by (simp add: left_def)
  from answered [of f self, OF api w1(1) this] world_read [OF w1(2), of wr] assms(3) show ?thesis
    by (auto simp: left_upd)
qed

text \<open>The broker between the calls of the test.\<close>

definition joined :: "frame \<Rightarrow> frame \<Rightarrow> cstr \<Rightarrow> broker" where
  "joined rd wr e = \<lparr>sessions = [rd \<mapsto> Some [], wr \<mapsto> Some []], table = [(e, [rd])]\<rparr>"

lemma writer_publishes:
  assumes Z: "czmq_api Z" and w: "world_is Z (joined rd wr e) (\<lambda>_. []) (two rd connected_state wr connected_state) (left rd us) w"
    and "rd \<noteq> wr" and a: "percent \<notin> set a" "wf_cstr a" "sized_fits 1 a" and t: "wf_cstr t"
  shows "\<exists>self' w'. call_publish Z E [rd, wr] wr (Some a) (Some t) self w = Inr (self', w')
    \<and> world_is Z (joined rd wr e) (\<lambda>_. []) (two rd connected_state wr connected_state)
        (left rd (us @ (if rex_matches Z (rex_new Z e) a then [message_for [] a t] else []))) w'"
proof -
  have H: "zhash_api (hash Z)" using Z by (simp add: czmq_api_def)
  have v: "vprintf Z a = Some a" "vprintf Z [] = Some []" by (simp_all add: czmq_api.vprintf_plain [OF Z] a(1))
  let ?to = "if rex_matches Z (rex_new Z e) a then [rd] else []"
  let ?outs = "map (\<lambda>q. (q, Deliver [] a Map.empty [t])) ?to"
  let ?ts = "if rex_matches Z (rex_new Z e) a then [message_for [] a t] else []"
  have "recipients Z (joined rd wr e) wr a = ?to" using assms(3) by (simp add: recipients_def joined_def)
  then have step: "broker_step Z (joined rd wr e) wr (Publish a Map.empty [t]) = Inr (joined rd wr e, ?outs)"
    using assms(3) v by (simp add: broker_step_def) (simp add: joined_def)
  have got: "absorb connected_state (for_peer rd ?outs) = Some (connected_state, ?ts)"
      "absorb connected_state (for_peer wr ?outs) = Some (connected_state, [])"
      "\<forall>q cmd. (q, cmd) \<in> set ?outs \<longrightarrow> q = rd \<or> q = wr"
    using assms(3) t by (auto simp: stay_def c_string_wf)
  obtain w1 where w1: "owner_sends Z E [rd, wr] wr [call_frames (Publish_at a t)] w = Inr w1"
      "world_is Z (joined rd wr e) (\<lambda>_. []) (two rd connected_state wr connected_state)
        ((left rd us)(rd := left rd us rd @ ?ts, wr := left rd us wr @ [])) w1"
    using call_of_writer [OF Z w assms(3) performs_publish [OF H a(2) t v(1) a(3)] _ got, where B' = "joined rd wr e"]
      step by auto
  have "(left rd us)(rd := left rd us rd @ ?ts, wr := left rd us wr @ []) = left rd (us @ ?ts)"
    using assms(3) by (auto simp: left_def)
  moreover have "zccp_client_publish (Some a) (Some t) self = Inr (send_command (call_frames (Publish_at a t)) self)"
    by (simp add: zccp_client_publish_def send_string_def)
  ultimately show ?thesis
    using request_sends [of "zccp_client_publish (Some a) (Some t)" self, OF _ w1(1)] w1(2)
    by (auto simp: call_publish_def)
qed

text \<open>The two clients before they connect.\<close>

lemma verbose_sends: "zccp_client_verbose self = send_command (call_frames Be_verbose) self"
  by (simp add: zccp_client_verbose_def)

lemma clients_started:
  assumes Z: "czmq_api Z" and rig: "rig_is Z B (\<lambda>_. []) rig" and "rd \<noteq> wr"
  shows "\<exists>reader writer w. test_clients Z E rd wr verb \<lparr>hub = rig, actors = Map.empty, unread = (\<lambda>_. [])\<rparr>
      = Inr (reader, writer, w) \<and> actor_in reader = no_input \<and> actor_in writer = no_input
    \<and> world_is Z B (\<lambda>_. []) (two rd start_state wr start_state) (left rd []) w"
proof -
  obtain c where c: "zccp_client_start no_input = Inr (c :: 'a s_client_t)"
    by (simp add: zccp_client_start_def engine_handle_socket_def)
  have idle: "idle start_state c" using client_start_ok [OF c] by (simp add: idle_def)
  let ?w = "\<lparr>hub = rig, actors = Map.empty(rd \<mapsto> c, wr \<mapsto> c), unread = (\<lambda>_. [])\<rparr> :: ('a, 'b, 'c) world"
  have w: "world_is Z B (\<lambda>_. []) (two rd start_state wr start_state) (left rd []) ?w"
    using rig idle by (auto simp: world_is_def left_def)
  show ?thesis
  proof (cases verb)
    case False
    then show ?thesis
      using w by (simp add: test_clients_def call_new_def c zccp_client_new_def)
  next
    case True
    obtain w1 where w1: "owner_sends Z E [rd, wr] rd [call_frames Be_verbose] ?w = Inr w1"
        "world_is Z B (\<lambda>_. []) (two rd start_state wr start_state) (left rd ([] @ [])) w1"
      using call_of_reader [OF Z w assms(3) performs_verbose, of B "[]" start_state "[]"] by auto
    obtain w2 where w2: "owner_sends Z E [rd, wr] wr [call_frames Be_verbose] w1 = Inr w2"
        "world_is Z B (\<lambda>_. []) (two rd start_state wr start_state)
          ((left rd ([] @ []))(rd := left rd ([] @ []) rd @ [], wr := left rd ([] @ []) wr @ [])) w2"
      using call_of_writer [OF Z w1(2) assms(3) performs_verbose, of B "[]" start_state "[]" start_state "[]"] by auto
    have "(left rd ([] @ []))(rd := left rd ([] @ []) rd @ [], wr := left rd ([] @ []) wr @ []) = left rd []"
      by (auto simp: left_def)
    then have w2': "world_is Z B (\<lambda>_. []) (two rd start_state wr start_state) (left rd []) w2"
      using w2(2) by (simp only:)
    have "test_clients Z E rd wr verb \<lparr>hub = rig, actors = Map.empty, unread = (\<lambda>_. [])\<rparr>
        = Inr (zccp_client_verbose zccp_client_new, zccp_client_verbose zccp_client_new, w2)"
      using True request_sends [of "\<lambda>self. Inr (zccp_client_verbose self)" zccp_client_new, OF _ w1(1)]
        request_sends [of "\<lambda>self. Inr (zccp_client_verbose self)" zccp_client_new, OF _ w2(1)]
      by (simp add: test_clients_def call_new_def c call_verbose_def verbose_sends)
    then show ?thesis using w2' by (simp add: zccp_client_verbose_def send_command_def zccp_client_new_def)
  qed
qed

text \<open>Reading the deliveries.\<close>

lemma delivery_read:
  assumes "actor_in self = \<lparr>rest_frames = [], queue = q\<rparr>" and "q @ map Some (unread w r) = Some (message_for s a t) # q'"
    and "wf_cstr s" and "wf_cstr a" and "wf_cstr t"
  shows "\<exists>self'. call_recv E r self w = Inr (Some t, self', w\<lparr>unread := (unread w)(r := [])\<rparr>)
    \<and> actor_in self' = \<lparr>rest_frames = [], queue = q'\<rparr>"
proof -
  have "actor_in (arrive (map Some (unread w r)) self)
      = \<lparr>rest_frames = [], queue = Some [lit ''MESSAGE'', s, a, t] # q'\<rparr>"
    using assms(1,2) by (simp add: arrive_def message_for_def)
  from accept_delivery [OF this assms(3-5), of E] show ?thesis
    by (simp add: call_recv_def await_def zccp_client_recv_def)
qed

lemma test_texts:
  "x \<in> {''cpu.1'', ''cpu.2'', ''cpu-count'', ''95'', ''12'', ''2''} \<Longrightarrow>
     percent \<notin> set (lit x) \<and> wf_cstr (lit x) \<and> sized_fits 1 (lit x)"
  "percent \<notin> set (lit ''^cpu'' @ [92, 46])" "wf_cstr (lit ''^cpu'' @ [92, 46])"
  "sized_fits 1 (lit ''^cpu'' @ [92, 46])"
  by (auto simp: sized_fits_def wf_cstr_def lit_simps)

lemma deliveries_received:
  assumes "world_is Z B ib st (left rd (message_for [] a s # message_for [] b t # us)) w" and "actor_in self = no_input"
    and "wf_cstr a" and "wf_cstr b" and "wf_cstr s" and "wf_cstr t"
  shows "\<exists>self1 w1 self2 w2. call_recv E rd self w = Inr (Some s, self1, w1)
    \<and> call_recv E rd self1 w1 = Inr (Some t, self2, w2) \<and> world_is Z B ib st (left rd []) w2"
proof -
  have "unread w rd = message_for [] a s # message_for [] b t # us"
    using world_isD(2) [OF assms(1)] by (simp add: left_def)
  then obtain self1 where self1: "call_recv E rd self w = Inr (Some s, self1, w\<lparr>unread := (unread w)(rd := [])\<rparr>)"
      "actor_in self1 = \<lparr>rest_frames = [], queue = map Some (message_for [] b t # us)\<rparr>"
    using delivery_read [OF assms(2), of w rd "[]" a s "map Some (message_for [] b t # us)" E] assms(3,5) by auto
  let ?w1 = "w\<lparr>unread := (unread w)(rd := [])\<rparr>"
  obtain self2 where self2: "call_recv E rd self1 ?w1 = Inr (Some t, self2, ?w1\<lparr>unread := (unread ?w1)(rd := [])\<rparr>)"
    using delivery_read [OF self1(2), of ?w1 rd "[]" b t "map Some us" E] assms(4,6) by auto
  have "((left rd (message_for [] a s # message_for [] b t # us))(rd := []))(rd := []) = left rd []"
    by (auto simp: left_def)
  then have "world_is Z B ib st (left rd []) (?w1\<lparr>unread := (unread ?w1)(rd := [])\<rparr>)"
    using world_read [OF world_read [OF assms(1), of rd], of rd] by (simp only:)
  then show ?thesis using self1(1) self2 by blast
qed

text \<open>The end of a client.\<close>

lemma settle_idle:
  assumes "rig_is Z B (\<lambda>_. []) (hub w)"
  shows "settle Z E rs w = Inr w"
proof -
  have "inbox (hub w) r = []" for r using assms by (simp add: rig_is_def)
  then show ?thesis by (induction rs) (simp_all add: settle.simps)
qed

lemma client_destroyed:
  assumes w: "world_is Z B (\<lambda>_. []) st u w" and x: "st r = Some x"
  shows "\<exists>w'. call_destroy Z E rs r self w = Inr w' \<and> world_is Z B (\<lambda>_. []) (st(r := None)) u w'"
proof -
  obtain s where s: "actors w r = Some s" "idle x s" using world_isD(3) [OF w x] by blast
  let ?s = "s\<lparr>pipe_in := \<lparr>rest_frames = [], queue = [Some (call_frames Stop)]\<rparr>\<rparr>"
  let ?w = "w\<lparr>actors := (actors w)(r \<mapsto> ?s)\<rparr>"
  let ?w2 = "w\<lparr>actors := (actors w)(r := None)\<rparr>"
  have ok: "client_ok ?s" "endpoint ?s \<noteq> None" "holds_call ?s Stop []"
    using s(2) by (simp_all add: idle_def holds_call_def)
  have first: "actor_event Z E r (Owner_sends (Some (call_frames Stop))) w = Inr ?w"
    using s by (simp add: actor_event_def Client_Reactor.handle_event_def idle_def)
  have "s_client_handle_pipe Z E ?s = Inr (-1, (read_call [] ?s)\<lparr>terminated := True\<rparr>)"
    by (rule no_wire_method(2) [OF ok(3,1) refl])
  moreover obtain e where "endpoint s = Some e" using s(2) by (auto simp: idle_def)
  ultimately have second: "actor_event Z E r Pipe_ready ?w = Inr ?w2"
    using client_okD(6) [OF ok(1)]
    by (simp add: actor_event_def Client_Reactor.handle_event_def call_reader_def
        Client_Reactor.s_client_destroy_def Client_Actions.client_terminate_def)
  have w2: "world_is Z B (\<lambda>_. []) (st(r := None)) u ?w2"
    using w by (auto simp: world_is_def)
  have "owner_sends Z E rs r [call_frames Stop] w = Inr ?w2"
    using first second settle_idle [OF world_isD(1) [OF w2]] by (simp add: owner_sends.simps)
  then have "call_destroy Z E rs r self w = Inr ?w2"
    by (simp add: call_destroy_def zccp_client_destroy_def)
  with w2 show ?thesis by blast
qed

abbreviation cpu_pattern :: cstr where
  "cpu_pattern \<equiv> lit ''^cpu'' @ [92, 46]"

lemma connections_made:
  assumes Z: "czmq_api Z" and "rd \<noteq> wr" and conn: "zs_connect E (Some ep) = 0" and "wf_cstr ep"
    and w: "world_is Z \<lparr>sessions = Map.empty, table = []\<rparr> (\<lambda>_. []) (two rd start_state wr start_state) (left rd []) w"
    and api: "actor_in reader = no_input" "actor_in writer = no_input"
  shows "\<exists>reader' writer' w'. test_connections Z E rd wr ep (reader, writer, w) = Inr (reader', writer', w')
    \<and> actor_in reader' = no_input
    \<and> world_is Z \<lparr>sessions = [rd \<mapsto> Some [], wr \<mapsto> Some []], table = []\<rparr> (\<lambda>_. [])
        (two rd connected_state wr connected_state) (left rd []) w'"
proof -
  have H: "zhash_api (hash Z)" using Z by (simp add: czmq_api_def)
  note greets = performs_connect [OF H conn assms(4), of 250]
  obtain r1 w1 where c1: "call_connect Z E [rd, wr] rd (Some ep) 250 reader w = Inr (0, r1, w1)" "actor_in r1 = no_input"
      "world_is Z \<lparr>sessions = [rd \<mapsto> Some []], table = []\<rparr> (\<lambda>_. []) (two rd connected_state wr start_state) (left rd []) w1"
    using reader_asks [OF Z w assms(2) _ api(1) greets, of "connect_request (Some ep) 250"
        "\<lparr>sessions = [rd \<mapsto> Some []], table = []\<rparr>" "Hello_ok Map.empty" connected_state]
    by (auto simp: call_connect_def connect_request_def send_string_def broker_step_def stay_def)
  obtain p2 w2 where c2: "call_connect Z E [rd, wr] wr (Some ep) 250 writer w1 = Inr (0, p2, w2)"
      "world_is Z \<lparr>sessions = [rd \<mapsto> Some [], wr \<mapsto> Some []], table = []\<rparr> (\<lambda>_. [])
        (two rd connected_state wr connected_state) (left rd []) w2"
    using writer_asks [OF Z c1(3) assms(2) _ api(2) greets, of "connect_request (Some ep) 250"
        "\<lparr>sessions = [rd \<mapsto> Some [], wr \<mapsto> Some []], table = []\<rparr>" "Hello_ok Map.empty" connected_state] assms(2)
    by (auto simp: call_connect_def connect_request_def send_string_def broker_step_def stay_def)
  have "test_connections Z E rd wr ep (reader, writer, w) = Inr (r1, p2, w2)"
    by (simp add: test_connections_def c1(1) c2(1) c_assert_def)
  with c1(2) c2(2) show ?thesis by blast
qed

lemma reader_subscribes:
  assumes Z: "czmq_api Z" and "rd \<noteq> wr" and self: "actor_in self = no_input"
    and p: "percent \<notin> set p" "wf_cstr p" "sized_fits 1 p"
    and w: "world_is Z \<lparr>sessions = [rd \<mapsto> Some [], wr \<mapsto> Some []], table = []\<rparr> (\<lambda>_. [])
      (two rd connected_state wr connected_state) (left rd []) w"
  shows "\<exists>self' w'. call_subscribe Z E [rd, wr] rd (Some p) self w = Inr (0, self', w') \<and> actor_in self' = no_input
    \<and> world_is Z (joined rd wr p) (\<lambda>_. []) (two rd connected_state wr connected_state) (left rd []) w'"
proof -
  have H: "zhash_api (hash Z)" using Z by (simp add: czmq_api_def)
  have step: "broker_step Z \<lparr>sessions = [rd \<mapsto> Some [], wr \<mapsto> Some []], table = []\<rparr> rd (Subscribe p Map.empty)
      = Inr (joined rd wr p, [(rd, Subscribe_ok)])"
    using assms(2) by (simp add: broker_step_def joined_def fun_upd_idem_iff)
  have asks: "subscribe_request (Some p) self = Inr (send_command (call_frames (Subscribe_to p)) self)"
    by (simp add: subscribe_request_def send_string_def)
  have on: "absorb subscribing_state [Subscribe_ok] = Some (connected_state, [success])" by (simp add: stay_def)
  show ?thesis
    using reader_asks [OF Z w assms(2), of "subscribe_request (Some p)" self "Subscribe_to p",
        OF asks self performs_subscribe [OF H p(2) czmq_api.vprintf_plain [OF Z p(1)] p(3)] step _ on, of E]
    unfolding call_subscribe_def by (simp only: Server_Refine.command_event.simps) blast
qed

lemma exchange_made:
  assumes Z: "czmq_api Z" and "rd \<noteq> wr" and self: "actor_in reader = no_input"
    and rex: "rex_matches Z (rex_new Z cpu_pattern) (lit ''cpu.1'')" "rex_matches Z (rex_new Z cpu_pattern) (lit ''cpu.2'')"
    and w: "world_is Z \<lparr>sessions = [rd \<mapsto> Some [], wr \<mapsto> Some []], table = []\<rparr> (\<lambda>_. [])
      (two rd connected_state wr connected_state) (left rd []) w"
  shows "\<exists>reader' writer' w'. test_exchange Z E rd wr ls (reader, writer, w)
      = Inr (ls @ [lit ''95'', lit ''12''], reader', writer', w')
    \<and> world_is Z (joined rd wr cpu_pattern) (\<lambda>_. []) (two rd connected_state wr connected_state) (left rd []) w'"
proof -
  let ?st = "two rd connected_state wr connected_state" and ?B = "joined rd wr cpu_pattern"
  obtain r3 w3 where c3: "call_subscribe Z E [rd, wr] rd (Some cpu_pattern) reader w = Inr (0, r3, w3)"
      "actor_in r3 = no_input" "world_is Z ?B (\<lambda>_. []) ?st (left rd []) w3"
    using reader_subscribes [OF Z assms(2) self test_texts(2-4) w] by blast
  note publishes = writer_publishes [OF Z _ assms(2)]
  obtain p4 w4 where c4: "call_publish Z E [rd, wr] wr (Some (lit ''cpu.1'')) (Some (lit ''95'')) writer w3 = Inr (p4, w4)"
      "world_is Z ?B (\<lambda>_. []) ?st (left rd [message_for [] (lit ''cpu.1'') (lit ''95'')]) w4"
    using publishes [OF c3(3), of "lit ''cpu.1''" "lit ''95''" E writer] test_texts(1) rex by auto
  obtain p5 w5 where c5: "call_publish Z E [rd, wr] wr (Some (lit ''cpu.2'')) (Some (lit ''12'')) p4 w4 = Inr (p5, w5)"
      "world_is Z ?B (\<lambda>_. []) ?st
        (left rd [message_for [] (lit ''cpu.1'') (lit ''95''), message_for [] (lit ''cpu.2'') (lit ''12'')]) w5"
    using publishes [OF c4(2), of "lit ''cpu.2''" "lit ''12''" E p4] test_texts(1) rex by auto
  obtain p6 w6 us where c6: "call_publish Z E [rd, wr] wr (Some (lit ''cpu-count'')) (Some (lit ''2'')) p5 w5 = Inr (p6, w6)"
      "world_is Z ?B (\<lambda>_. []) ?st
        (left rd (message_for [] (lit ''cpu.1'') (lit ''95'') # message_for [] (lit ''cpu.2'') (lit ''12'') # us)) w6"
    using publishes [OF c5(2), of "lit ''cpu-count''" "lit ''2''" E p5] test_texts(1) by auto
  obtain r7 w7 r8 w8 where c7: "call_recv E rd r3 w6 = Inr (Some (lit ''95''), r7, w7)"
      "call_recv E rd r7 w7 = Inr (Some (lit ''12''), r8, w8)" "world_is Z ?B (\<lambda>_. []) ?st (left rd []) w8"
    using deliveries_received [OF c6(2) c3(2), of E] test_texts(1) by auto
  have "test_exchange Z E rd wr ls (reader, writer, w) = Inr (ls @ [lit ''95'', lit ''12''], r8, p6, w8)"
    by (simp add: test_exchange_def c3(1) c4(1) c5(1) c6(1) c7(1,2) c_assert_def puts_def)
  with c7(3) show ?thesis by blast
qed

lemma client_test_run:
  fixes E :: client_env and SE :: "'c zenv"
  assumes Z: "czmq_api (Z :: ('h, 'r) czmq)" and "rd \<noteq> wr"
    and bind: "zs_bind SE [] (lit ''ipc://@/zccp'') \<noteq> -1" and conn: "zs_connect E (Some (lit ''ipc://@/zccp'')) = 0"
    and rex: "rex_matches Z (rex_new Z cpu_pattern) (lit ''cpu.1'')" "rex_matches Z (rex_new Z cpu_pattern) (lit ''cpu.2'')"
    and order: "\<And>K. finite K \<Longrightarrow> set (order K) = K"
  shows "zccp_client_test Z SE E random order rd wr verb
    = Inr ([lit '' * zccp_client: ''] @ (if verb then [[]] else []) @ [lit ''95'', lit ''12'', lit ''OK''])"
proof -
  let ?ep = "lit ''ipc://@/zccp''" and ?ls = "[lit '' * zccp_client: ''] @ (if verb then [[]] else [])"
  obtain rig where rig: "start_test_broker Z SE (lit ''zccp_client_test'') random 3 verb ?ep = Inr rig"
      "rig_is Z \<lparr>sessions = Map.empty, table = []\<rparr> (\<lambda>_. []) rig"
    using broker_started [OF Z wf_lits(4) bind, of _ random 3 verb] by (auto simp: ends_in_def)
  obtain r0 p0 w0 where c0: "test_clients Z E rd wr verb \<lparr>hub = rig, actors = Map.empty, unread = (\<lambda>_. [])\<rparr>
        = Inr (r0, p0, w0)" "actor_in r0 = no_input" "actor_in p0 = no_input"
      "world_is Z \<lparr>sessions = Map.empty, table = []\<rparr> (\<lambda>_. []) (two rd start_state wr start_state) (left rd []) w0"
    using clients_started [OF Z rig(2) assms(2)] by blast
  obtain r1 p1 w1 where c1: "test_connections Z E rd wr ?ep (r0, p0, w0) = Inr (r1, p1, w1)" "actor_in r1 = no_input"
      "world_is Z \<lparr>sessions = [rd \<mapsto> Some [], wr \<mapsto> Some []], table = []\<rparr> (\<lambda>_. [])
        (two rd connected_state wr connected_state) (left rd []) w1"
    using connections_made [OF Z assms(2) conn wf_lits(4) c0(4,2,3)] by blast
  obtain r2 p2 w2 where c2: "test_exchange Z E rd wr ?ls (r1, p1, w1) = Inr (?ls @ [lit ''95'', lit ''12''], r2, p2, w2)"
      "world_is Z (joined rd wr cpu_pattern) (\<lambda>_. []) (two rd connected_state wr connected_state) (left rd []) w2"
    using exchange_made [OF Z assms(2) c1(2) rex c1(3)] by blast
  obtain w3 where c3: "call_destroy Z E [rd, wr] wr p2 w2 = Inr w3"
      "world_is Z (joined rd wr cpu_pattern) (\<lambda>_. []) ((two rd connected_state wr connected_state)(wr := None)) (left rd []) w3"
    using client_destroyed [OF c2(2), of wr connected_state E "[rd, wr]" p2] by auto
  obtain w4 where c4: "call_destroy Z E [rd, wr] rd r2 w3 = Inr w4" "rig_is Z (joined rd wr cpu_pattern) (\<lambda>_. []) (hub w4)"
    using client_destroyed [OF c3(2), of rd connected_state E "[rd, wr]" r2] assms(2) world_isD(1) by fastforce
  show ?thesis
    using c2(1) by (simp add: zccp_client_test_def rig(1) c0(1) c1(1) c3(1) c4(1) broker_stopped [OF c4(2) order])
qed

end
