(* ===== verification/Programs.thy ===== *)
theory Programs
  imports Application
begin

text \<open>
  The two programs of the repository: the daemon \<^verbatim>\<open>src/zccpd.c\<close>, a broker that is always verbose, and the
  shell \<^verbatim>\<open>src/zccp_sh.c\<close>, which shows the messages that match a pattern or publishes one message.

  The shell that shows messages waits for ever.  Its loop is a function on what its actor has sent: it
  ends at the first read that is interrupted, and in the fault \<open>Blocked\<close> when nothing is left to read.
\<close>

section \<open>The daemon\<close>

definition zccpd :: "('h, 'r) czmq \<Rightarrow> 'c zenv \<Rightarrow> 32 word \<Rightarrow> nat \<Rightarrow> (cstr set \<Rightarrow> cstr list)
    \<Rightarrow> 'c Server_Reactor.reactor_event list \<Rightarrow> (bool \<times> ('h, 'r, 'c) s_server_t) result" where
  "zccpd Z E random n order es =
     zccp_server Z E (Some (lit ''zccpd'')) random n order
       (Server_Reactor.Pipe_ready E (Some [lit ''VERBOSE''])
        # Server_Reactor.Pipe_ready E (Some [lit ''BIND'', lit ''ipc://@/zccp'']) # es)"

section \<open>The shell\<close>

definition format_content :: "zccp_client_t \<Rightarrow> cstr \<Rightarrow> cstr result" where
  "format_content self cont =
     rbind (of_option Null_pointer (zccp_client_sender self)) (\<lambda>sn.
     rbind (of_option Null_pointer (zccp_client_address self)) (\<lambda>addr.
     Inr (lit ''Content='' @ cont @ lit '' sender='' @ sn @ lit '' address='' @ addr)))"

text \<open>Every read takes something from the pipe.\<close>

lemma next_message_pending: "next_message q = Inr (m, p) \<Longrightarrow> pending p < sum_list (map weight q)"
  by (induction q rule: next_message.induct) (auto simp: pending_def)

lemma zmsg_recv_pending: "zmsg_recv p = Inr (m, p') \<Longrightarrow> pending p' < pending p"
  using next_message_pending [of "queue p" m p']
  by (auto simp: zmsg_recv_def pending_def split: list.splits)

lemma load_reply_pending: "load_reply E name self = Inr self' \<Longrightarrow> pending (actor_in self') \<le> pending (actor_in self)"
  by (auto simp: load_reply_def rbind_Inr_iff Let_def split_def split: if_splits option.splits
      dest!: zmsg_recv_pending)

lemma try_filters_pending:
  "try_filters E name fs self = Inr (b, self') \<Longrightarrow> pending (actor_in self') \<le> pending (actor_in self)"
proof (induction fs arbitrary: self)
  case (Cons f fs)
  have "pending (zsock_flush (actor_in self)) \<le> pending (actor_in self)" by (simp add: pending_def zsock_flush_def)
  then show ?case
    using Cons.prems Cons.IH [of "self\<lparr>actor_in := zsock_flush (actor_in self)\<rparr>"] load_reply_pending
    by (force simp: rbind_Inr_iff split: if_splits)
qed simp

lemma accept_pending: "s_accept_reply E fs self = Inr (rc, self') \<Longrightarrow> pending (actor_in self') < pending (actor_in self)"
proof (induction E fs self rule: s_accept_reply.induct)
  case (1 E fs self)
  from "1.prems" obtain m p where m: "zstr_recv (actor_in self) = Inr (m, p)"
    by (auto simp: s_accept_reply.simps [of E fs self] rbind_Inr_iff)
  note p = zstr_recv_pending [OF m]
  show ?case
  proof (cases m)
    case None
    then show ?thesis using "1.prems" p by (auto simp: s_accept_reply.simps [of E fs self] m)
  next
    case (Some name)
    from "1.prems" obtain b s where s: "try_filters E name fs (self\<lparr>actor_in := p\<rparr>) = Inr (b, s)"
      by (auto simp: s_accept_reply.simps [of E fs self] m Some rbind_Inr_iff)
    have "pending (actor_in s) \<le> pending p" using try_filters_pending [OF s] by simp
    then show ?thesis
      using "1.prems" p "1.IH" [OF m refl Some s refl] s
      by (cases b) (auto simp: s_accept_reply.simps [of E fs self] m Some)
  qed
qed

lemma recv_pending:
  "zccp_client_recv E [] self = Inr (x, self') \<Longrightarrow> pending (actor_in self') < pending (actor_in self)"
  by (auto simp: zccp_client_recv_def arrive_def rbind_Inr_iff split: if_splits dest!: accept_pending)

function show_messages :: "client_env \<Rightarrow> zccp_client_t \<Rightarrow> (cstr list \<times> zccp_client_t) result" where
  "show_messages E self =
     rbind (zccp_client_recv E [] self) (\<lambda>(cont, self).
     case cont of
       None \<Rightarrow> Inr ([], self)
     | Some cont \<Rightarrow>
         rbind (format_content self cont) (\<lambda>l.
         rbind (show_messages E self) (\<lambda>(ls, self). Inr (l # ls, self))))"
  by auto

termination
  by (relation "measure (\<lambda>(E, self). pending (actor_in self))") (auto intro: recv_pending)

declare show_messages.simps [simp del]

text \<open>
  The shell until it waits for messages; the result has the object of a shell that waits.  The message on
  a failed connection goes to the log.
\<close>

definition zccp_sh_start :: "('h, 'r) czmq \<Rightarrow> client_env \<Rightarrow> frame list \<Rightarrow> frame \<Rightarrow> cstr list
    \<Rightarrow> ('h, 'r, 'c) world \<Rightarrow> (cstr list \<times> zccp_client_t option \<times> ('h, 'r, 'c) world) result" where
  "zccp_sh_start Z E rs r argv w =
     (let ls = [lit ''ARGS:'' @ decimal (int (length argv))] in
      if length argv < 2 then Inr (ls @ [lit ''syntax: zccp_sh type [ body ]''], None, w)
      else
        rbind (call_new r w) (\<lambda>(client, w).
        rbind (call_verbose Z E rs r client w) (\<lambda>(client, w).
        rbind (call_connect Z E rs r (Some (lit ''ipc://@/zccp'')) 1000 client w) (\<lambda>(rc, client, w).
        if rc \<noteq> 0 then rbind (call_destroy Z E rs r client w) (\<lambda>w. Inr (ls, None, w))
        else if length argv = 2 then
          rbind (call_subscribe Z E rs r (Some (argv ! 1)) client w) (\<lambda>(_, client, w).
          Inr (ls, Some client, w))
        else
          rbind (if length argv = 3 then call_publish Z E rs r (Some (argv ! 1)) (Some (argv ! 2)) client w
                 else Inr (client, w)) (\<lambda>(client, w).
          rbind (call_destroy Z E rs r client w) (\<lambda>w.
          Inr (ls, None, w)))))))"

text \<open>The shell as it shows what its actor sends: what has arrived, and \<open>later\<close>.\<close>

definition zccp_sh_show :: "('h, 'r) czmq \<Rightarrow> client_env \<Rightarrow> frame list \<Rightarrow> frame \<Rightarrow> zccp_client_t \<Rightarrow> zmsg option list
    \<Rightarrow> ('h, 'r, 'c) world \<Rightarrow> (cstr list \<times> ('h, 'r, 'c) world) result" where
  "zccp_sh_show Z E rs r client later w =
     rbind (show_messages E (arrive (map Some (unread w r) @ later) client)) (\<lambda>(ls, client).
     rbind (call_destroy Z E rs r client (w\<lparr>unread := (unread w)(r := [])\<rparr>)) (\<lambda>w.
     Inr (ls, w)))"

definition zccp_sh :: "('h, 'r) czmq \<Rightarrow> client_env \<Rightarrow> frame list \<Rightarrow> frame \<Rightarrow> cstr list \<Rightarrow> zmsg option list
    \<Rightarrow> ('h, 'r, 'c) world \<Rightarrow> (cstr list \<times> ('h, 'r, 'c) world) result" where
  "zccp_sh Z E rs r argv later w =
     rbind (zccp_sh_start Z E rs r argv w) (\<lambda>(ls, waits, w).
     case waits of
       None \<Rightarrow> Inr (ls, w)
     | Some client \<Rightarrow>
         rbind (zccp_sh_show Z E rs r client later w) (\<lambda>(ms, w). Inr (ls @ ms, w)))"

section \<open>Runs of the programs\<close>

lemma daemon_starts:
  assumes "czmq_api Z" and "zs_bind E [] (lit ''ipc://@/zccp'') \<noteq> -1"
  shows "\<exists>rig. start_test_broker Z E (lit ''zccpd'') random 3 True (lit ''ipc://@/zccp'') = Inr rig
    \<and> zccpd Z E random 3 order [] = Inr (True, server rig)
    \<and> rig_is Z \<lparr>sessions = Map.empty, table = []\<rparr> (\<lambda>_. []) rig"
proof -
  obtain s where s: "zccp_server_start Z E (Some (lit ''zccpd'')) random = Inr s" using server_starts [OF assms(1)] by blast
  have readers: "srv_readers s = main_readers"
    using start_ok(1) [OF assms(1) s] by (simp add: server_ok_def steady_def)
  obtain rig where rig: "start_test_broker Z E (lit ''zccpd'') random 3 True (lit ''ipc://@/zccp'') = Inr rig"
      "rig_is Z \<lparr>sessions = Map.empty, table = []\<rparr> (\<lambda>_. []) rig"
    using broker_started [OF assms(1) wf_lits(4) assms(2), of _ random 3 True] by (auto simp: ends_in_def)
  have "zccpd Z E random 3 order [] = Inr (True, server rig)"
    using rig(1) by (auto simp: zccpd_def zccp_server_def start_test_broker_def s broker_turn_def
        Server_Reactor.handle_event_def readers verbose_command bind_command [OF wf_lits(4)] bind_router_def Let_def)
  with rig show ?thesis by blast
qed

lemma actor_added:
  assumes "world_is Z B ib st u w"
  shows "\<exists>w'. call_new r w = Inr (zccp_client_new, w') \<and> world_is Z B ib (st(r \<mapsto> start_state)) u w'"
proof -
  obtain c where c: "zccp_client_start no_input = Inr (c :: 'a s_client_t)"
    by (simp add: zccp_client_start_def engine_handle_socket_def)
  have "idle start_state c" using client_start_ok [OF c] by (simp add: idle_def)
  then have "world_is Z B ib (st(r \<mapsto> start_state)) u (w\<lparr>actors := (actors w)(r \<mapsto> c)\<rparr>)"
    using assms by (auto simp: world_is_def)
  then show ?thesis by (simp add: call_new_def c)
qed

lemma verbose_called:
  assumes "owner_sends Z E rs r [call_frames Be_verbose] w = Inr w'"
  shows "\<exists>self'. call_verbose Z E rs r self w = Inr (self', w') \<and> actor_in self' = actor_in self"
  using request_sends [of "\<lambda>self. Inr (zccp_client_verbose self)" self, OF _ assms]
  by (simp add: call_verbose_def verbose_sends) (simp add: send_command_def)

lemma new_client: "actor_in zccp_client_new = no_input"
  by (simp add: zccp_client_new_def)

text \<open>The start of a shell: it turns verbosity on and connects.\<close>

lemma lone_greets:
  assumes Z: "czmq_api Z" and conn: "zs_connect E (Some (lit ''ipc://@/zccp'')) = 0" and self: "actor_in self = no_input"
    and w: "world_is Z \<lparr>sessions = Map.empty, table = []\<rparr> (\<lambda>_. []) [r \<mapsto> start_state] (left r []) w"
  shows "\<exists>c1 w1 c2 w2. call_verbose Z E [r] r self w = Inr (c1, w1)
    \<and> call_connect Z E [r] r (Some (lit ''ipc://@/zccp'')) 1000 c1 w1 = Inr (0, c2, w2) \<and> actor_in c2 = no_input
    \<and> world_is Z \<lparr>sessions = [r \<mapsto> Some []], table = []\<rparr> (\<lambda>_. []) [r \<mapsto> connected_state] (left r []) w2"
proof -
  let ?ep = "lit ''ipc://@/zccp''" and ?none = "\<lparr>sessions = Map.empty, table = []\<rparr>"
  have H: "zhash_api (hash Z)" using Z by (simp add: czmq_api_def)
  obtain w1 where w1: "owner_sends Z E [r] r [call_frames Be_verbose] w = Inr w1"
      "world_is Z ?none (\<lambda>_. []) ([r \<mapsto> start_state](r \<mapsto> start_state)) ((left r [])(r := left r [] r @ [])) w1"
    using lone_call_settled [OF Z w _ performs_verbose, of r start_state ?none "[]" start_state "[]"] by auto
  have w1': "world_is Z ?none (\<lambda>_. []) [r \<mapsto> start_state] (left r []) w1" using w1(2) by (simp add: left_upd)
  obtain c1 where c1: "call_verbose Z E [r] r self w = Inr (c1, w1)" "actor_in c1 = no_input"
    using verbose_called [OF w1(1), of self] self by auto
  have asks: "connect_request (Some ?ep) 1000 c1 = Inr (send_command (call_frames (Connect ?ep 1000)) c1)"
    by (simp add: connect_request_def send_string_def)
  have step: "broker_step Z ?none r (Hello [] Map.empty) = Inr (\<lparr>sessions = [r \<mapsto> Some []], table = []\<rparr>, [(r, Hello_ok Map.empty)])"
    by (simp add: broker_step_def)
  have on: "absorb connecting_state [Hello_ok Map.empty] = Some (connected_state, [success])" by (simp add: stay_def)
  obtain c2 w2 where "call_connect Z E [r] r (Some ?ep) 1000 c1 w1 = Inr (0, c2, w2)" "actor_in c2 = no_input"
      "world_is Z \<lparr>sessions = [r \<mapsto> Some []], table = []\<rparr> (\<lambda>_. []) [r \<mapsto> connected_state] (left r []) w2"
    using lone_asks [OF Z w1', of "connect_request (Some ?ep) 1000" c1 "Connect ?ep 1000",
        OF asks c1(2) performs_connect [OF H conn wf_lits(4)] step _ on]
    unfolding call_connect_def by (simp only: Server_Refine.command_event.simps) blast
  with c1(1) show ?thesis by blast
qed

lemma shell_subscribes:
  assumes Z: "czmq_api Z" and rig: "rig_is Z \<lparr>sessions = Map.empty, table = []\<rparr> (\<lambda>_. []) rig"
    and conn: "zs_connect E (Some (lit ''ipc://@/zccp'')) = 0"
    and p: "percent \<notin> set p" "wf_cstr p" "sized_fits 1 p"
  shows "\<exists>self w. zccp_sh_start Z E [r] r [prog, p] \<lparr>hub = rig, actors = Map.empty, unread = (\<lambda>_. [])\<rparr>
      = Inr ([lit ''ARGS:'' @ decimal 2], Some self, w) \<and> actor_in self = no_input
    \<and> world_is Z \<lparr>sessions = [r \<mapsto> Some []], table = [(p, [r])]\<rparr> (\<lambda>_. []) [r \<mapsto> connected_state] (left r []) w"
proof -
  let ?w = "\<lparr>hub = rig, actors = Map.empty, unread = (\<lambda>_. [])\<rparr>"
  let ?on = "\<lparr>sessions = [r \<mapsto> Some []], table = []\<rparr>" and ?there = "\<lparr>sessions = [r \<mapsto> Some []], table = [(p, [r])]\<rparr>"
  have H: "zhash_api (hash Z)" using Z by (simp add: czmq_api_def)
  have "world_is Z \<lparr>sessions = Map.empty, table = []\<rparr> (\<lambda>_. []) Map.empty (left r []) ?w"
    using rig by (auto simp: world_is_def left_def)
  from actor_added [OF this, of r] obtain w0 where w0: "call_new r ?w = Inr (zccp_client_new, w0)"
      "world_is Z \<lparr>sessions = Map.empty, table = []\<rparr> (\<lambda>_. []) [r \<mapsto> start_state] (left r []) w0" by blast
  obtain c1 w1 c2 w2 where c: "call_verbose Z E [r] r zccp_client_new w0 = Inr (c1, w1)"
      "call_connect Z E [r] r (Some (lit ''ipc://@/zccp'')) 1000 c1 w1 = Inr (0, c2, w2)" "actor_in c2 = no_input"
      "world_is Z ?on (\<lambda>_. []) [r \<mapsto> connected_state] (left r []) w2"
    using lone_greets [OF Z conn new_client w0(2)] by blast
  have asks: "subscribe_request (Some p) c2 = Inr (send_command (call_frames (Subscribe_to p)) c2)"
    by (simp add: subscribe_request_def send_string_def)
  have step: "broker_step Z ?on r (Subscribe p Map.empty) = Inr (?there, [(r, Subscribe_ok)])"
    by (simp add: broker_step_def)
  have on: "absorb subscribing_state [Subscribe_ok] = Some (connected_state, [success])" by (simp add: stay_def)
  obtain c3 w3 where c3: "call_subscribe Z E [r] r (Some p) c2 w2 = Inr (0, c3, w3)" "actor_in c3 = no_input"
      "world_is Z ?there (\<lambda>_. []) [r \<mapsto> connected_state] (left r []) w3"
    using lone_asks [OF Z c(4), of "subscribe_request (Some p)" c2 "Subscribe_to p",
        OF asks c(3) performs_subscribe [OF H p(2) czmq_api.vprintf_plain [OF Z p(1)] p(3)] step _ on]
    unfolding call_subscribe_def by (simp only: Server_Refine.command_event.simps) blast
  have "zccp_sh_start Z E [r] r [prog, p] ?w = Inr ([lit ''ARGS:'' @ decimal 2], Some c3, w3)"
    by (simp add: zccp_sh_start_def w0(1) c(1,2) c3(1))
  with c3 show ?thesis by blast
qed

lemma writer_greets:
  assumes Z: "czmq_api Z" and "rd \<noteq> wr" and conn: "zs_connect E (Some (lit ''ipc://@/zccp'')) = 0"
    and self: "actor_in self = no_input" and none: "sessions B wr = None"
    and w: "world_is Z B (\<lambda>_. []) (two rd x wr start_state) (left rd []) w"
  shows "\<exists>c1 w1 c2 w2. call_verbose Z E [rd, wr] wr self w = Inr (c1, w1)
    \<and> call_connect Z E [rd, wr] wr (Some (lit ''ipc://@/zccp'')) 1000 c1 w1 = Inr (0, c2, w2)
    \<and> world_is Z (B\<lparr>sessions := (sessions B)(wr \<mapsto> Some [])\<rparr>) (\<lambda>_. []) (two rd x wr connected_state) (left rd []) w2"
proof -
  let ?ep = "lit ''ipc://@/zccp''"
  have H: "zhash_api (hash Z)" using Z by (simp add: czmq_api_def)
  obtain w1 where w1: "owner_sends Z E [rd, wr] wr [call_frames Be_verbose] w = Inr w1"
      "world_is Z B (\<lambda>_. []) (two rd x wr start_state) ((left rd [])(rd := left rd [] rd @ [], wr := left rd [] wr @ [])) w1"
    using call_of_writer [OF Z w assms(2) performs_verbose, of B "[]" x "[]" start_state "[]"] by auto
  have w1': "world_is Z B (\<lambda>_. []) (two rd x wr start_state) (left rd []) w1"
    using w1(2) assms(2) by (simp add: left_upd)
  obtain c1 where c1: "call_verbose Z E [rd, wr] wr self w = Inr (c1, w1)" "actor_in c1 = no_input"
    using verbose_called [OF w1(1), of self] self by auto
  have asks: "connect_request (Some ?ep) 1000 c1 = Inr (send_command (call_frames (Connect ?ep 1000)) c1)"
    by (simp add: connect_request_def send_string_def)
  have step: "broker_step Z B wr (Hello [] Map.empty)
      = Inr (B\<lparr>sessions := (sessions B)(wr \<mapsto> Some [])\<rparr>, [(wr, Hello_ok Map.empty)])"
    by (simp add: broker_step_def none)
  have on: "absorb connecting_state [Hello_ok Map.empty] = Some (connected_state, [success])" by (simp add: stay_def)
  obtain c2 w2 where "call_connect Z E [rd, wr] wr (Some ?ep) 1000 c1 w1 = Inr (0, c2, w2)"
      "world_is Z (B\<lparr>sessions := (sessions B)(wr \<mapsto> Some [])\<rparr>) (\<lambda>_. []) (two rd x wr connected_state) (left rd []) w2"
    using writer_asks [OF Z w1' assms(2), of "connect_request (Some ?ep) 1000" c1 "Connect ?ep 1000",
        OF asks c1(2) performs_connect [OF H conn wf_lits(4)] step _ on]
    unfolding call_connect_def by (simp only: Server_Refine.command_event.simps) blast
  with c1(1) show ?thesis by blast
qed

lemma shell_publishes:
  assumes Z: "czmq_api Z" and "rd \<noteq> wr" and conn: "zs_connect E (Some (lit ''ipc://@/zccp'')) = 0"
    and w: "world_is Z \<lparr>sessions = [rd \<mapsto> Some []], table = [(p, [rd])]\<rparr> (\<lambda>_. []) [rd \<mapsto> connected_state] (left rd []) w"
    and a: "percent \<notin> set a" "wf_cstr a" "sized_fits 1 a" and t: "wf_cstr t"
  shows "\<exists>w'. zccp_sh Z E [rd, wr] wr [prog, a, t] [] w = Inr ([lit ''ARGS:'' @ decimal 3], w')
    \<and> world_is Z (joined rd wr p) (\<lambda>_. []) [rd \<mapsto> connected_state]
        (left rd (if rex_matches Z (rex_new Z p) a then [message_for [] a t] else [])) w'"
proof -
  let ?B = "\<lparr>sessions = [rd \<mapsto> Some []], table = [(p, [rd])]\<rparr>" and ?on = "two rd connected_state wr connected_state"
  let ?ts = "if rex_matches Z (rex_new Z p) a then [message_for [] a t] else []"
  obtain w0 where w0: "call_new wr w = Inr (zccp_client_new, w0)"
      "world_is Z ?B (\<lambda>_. []) (two rd connected_state wr start_state) (left rd []) w0"
    using actor_added [OF w, of wr] by blast
  have "sessions ?B wr = None" using assms(2) by simp
  from writer_greets [OF Z assms(2) conn new_client this w0(2)] obtain c1 w1 c2 w2 where
    c: "call_verbose Z E [rd, wr] wr zccp_client_new w0 = Inr (c1, w1)"
      "call_connect Z E [rd, wr] wr (Some (lit ''ipc://@/zccp'')) 1000 c1 w1 = Inr (0, c2, w2)"
      "world_is Z (joined rd wr p) (\<lambda>_. []) ?on (left rd []) w2"
    by (auto simp: joined_def)
  obtain c3 w3 where c3: "call_publish Z E [rd, wr] wr (Some a) (Some t) c2 w2 = Inr (c3, w3)"
      "world_is Z (joined rd wr p) (\<lambda>_. []) ?on (left rd ([] @ ?ts)) w3"
    using writer_publishes [OF Z c(3) assms(2) a t, of E c2] by blast
  have "?on wr = Some connected_state" by simp
  from client_destroyed [OF c3(2) this, of E "[rd, wr]" c3] obtain w4 where
    w4: "call_destroy Z E [rd, wr] wr c3 w3 = Inr w4"
      "world_is Z (joined rd wr p) (\<lambda>_. []) (?on(wr := None)) (left rd ([] @ ?ts)) w4" by blast
  have "zccp_sh Z E [rd, wr] wr [prog, a, t] [] w = Inr ([lit ''ARGS:'' @ decimal 3], w4)"
    by (simp add: zccp_sh_def zccp_sh_start_def w0(1) c(1,2) c3(1) w4(1))
  moreover have "?on(wr := None) = [rd \<mapsto> connected_state]" using assms(2) by (auto simp: fun_eq_iff)
  ultimately show ?thesis using w4(2) by (simp only: append_Nil) blast
qed

text \<open>A shell that has been given messages prints a line for each, until it is interrupted.\<close>

definition shown :: "cstr \<times> cstr \<times> cstr \<Rightarrow> cstr" where
  "shown = (\<lambda>(sn, a, t). lit ''Content='' @ t @ lit '' sender='' @ sn @ lit '' address='' @ a)"

lemma messages_shown:
  assumes "\<forall>(sn, a, t) \<in> set ds. wf_cstr sn \<and> wf_cstr a \<and> wf_cstr t"
    and "actor_in self = \<lparr>rest_frames = [], queue = map Some (map (\<lambda>(sn, a, t). message_for sn a t) ds) @ [None]\<rparr>"
  shows "\<exists>self'. show_messages E self = Inr (map shown ds, self')"
  using assms
proof (induction ds arbitrary: self)
  case Nil
  then have "zstr_recv (actor_in self) = Inr (None, \<lparr>rest_frames = [], queue = []\<rparr>)" by (simp add: zstr_recv_def)
  then show ?case
    by (simp add: show_messages.simps [of E self] zccp_client_recv_def arrive_def s_accept_reply.simps [of E _ self])
next
  case (Cons d ds)
  obtain sn a t where d: "d = (sn, a, t)" by (cases d)
  let ?q = "map Some (map (\<lambda>(sn, a, t). message_for sn a t) ds) @ [None]"
  let ?self = "self\<lparr>actor_in := \<lparr>rest_frames = [], queue = ?q\<rparr>, last_sender := Some sn, last_address := Some a,
    last_content := Some t\<rparr>"
  have wf: "wf_cstr sn" "wf_cstr a" "wf_cstr t" using Cons.prems(1) d by auto
  have "actor_in self = \<lparr>rest_frames = [], queue = Some [lit ''MESSAGE'', sn, a, t] # ?q\<rparr>"
    using Cons.prems(2) by (simp add: d message_for_def)
  from accept_delivery [OF this wf, of E] have "zccp_client_recv E [] self = Inr (Some t, ?self)"
    by (simp add: zccp_client_recv_def arrive_def)
  moreover have "format_content ?self t = Inr (shown d)"
    by (simp add: format_content_def zccp_client_sender_def zccp_client_address_def shown_def d)
  moreover obtain self' where "show_messages E ?self = Inr (map shown ds, self')"
    using Cons.IH [of ?self] Cons.prems(1) by auto
  ultimately show ?case by (simp add: show_messages.simps [of E self])
qed

lemma shell_shows:
  assumes w: "world_is Z B (\<lambda>_. []) st (left r (map (\<lambda>(sn, a, t). message_for sn a t) ds)) w" and x: "st r = Some x"
    and self: "actor_in self = no_input" and wf: "\<forall>(sn, a, t) \<in> set ds. wf_cstr sn \<and> wf_cstr a \<and> wf_cstr t"
  shows "\<exists>w'. zccp_sh_show Z E rs r self [None] w = Inr (map shown ds, w')"
proof -
  let ?self = "arrive (map Some (unread w r) @ [None]) self"
  have "actor_in ?self = \<lparr>rest_frames = [], queue = map Some (map (\<lambda>(sn, a, t). message_for sn a t) ds) @ [None]\<rparr>"
    using world_isD(2) [OF w] self by (simp add: arrive_def left_upd)
  from messages_shown [OF wf this, of E] obtain self' where
    self': "show_messages E ?self = Inr (map shown ds, self')" by blast
  from client_destroyed [OF world_read [OF w, of r] x, of E rs self'] obtain w' where
    "call_destroy Z E rs r self' (w\<lparr>unread := (unread w)(r := [])\<rparr>) = Inr w'" by blast
  with self' show ?thesis by (simp add: zccp_sh_show_def)
qed

end
