(* ===== verification/Closed_Network.thy ===== *)
theory Closed_Network
  imports Application
begin

text \<open>
  A broker and any number of clients of this repository, in any order of events: clients are created and
  destroyed, their applications call them and read what they are told, the messages that wait in their dealers are handled one by
  one, and timers of the broker expire.  The step relation has the result of the step as its second
  argument, so that a fault of the broker or of an actor is a step as well.  Applications are bound to
  \<open>may_call\<close> only, and the calls they make are recorded; that an application waits for its reply is
  not modelled here, so that it may make further calls meanwhile.  The invariant \<open>closed_ok\<close> is shown by rule
  induction; from it follows that no step is a fault, and that all an application is told goes back to
  calls that were made.
\<close>

section \<open>Steps\<close>

text \<open>
  What an application may call: strings that are no format directives and fit (\<open>plain_call\<close>), in a
  state that is ready for the call.
\<close>

fun plain_call :: "call \<Rightarrow> bool" where
  "plain_call (Connect ep t) \<longleftrightarrow> wf_cstr ep"
| "plain_call (Subscribe_to x) \<longleftrightarrow> percent \<notin> set x \<and> wf_cstr x \<and> sized_fits 1 x"
| "plain_call (Publish_at a t) \<longleftrightarrow> percent \<notin> set a \<and> wf_cstr a \<and> sized_fits 1 a \<and> wf_cstr t"
| "plain_call Be_verbose \<longleftrightarrow> True"
| "plain_call Stop \<longleftrightarrow> False"

definition may_call :: "client_env \<Rightarrow> state_t \<Rightarrow> call \<Rightarrow> bool" where
  "may_call E st cl \<longleftrightarrow> plain_call cl \<and> ready E st cl"

lemma may_call_simps [simp]:
  "may_call E st (Connect ep k) \<longleftrightarrow> wf_cstr ep \<and> (st = start_state \<longrightarrow> zs_connect E (Some ep) = 0)"
  "may_call E st (Subscribe_to x) \<longleftrightarrow> st \<noteq> start_state \<and> percent \<notin> set x \<and> wf_cstr x \<and> sized_fits 1 x"
  "may_call E st (Publish_at a t) \<longleftrightarrow>
     st \<noteq> start_state \<and> percent \<notin> set a \<and> wf_cstr a \<and> sized_fits 1 a \<and> wf_cstr t"
  "may_call E st Be_verbose" "\<not> may_call E st Stop"
  by (auto simp: may_call_def)

text \<open>
  The calls made so far, by the routing identifier of the client; the identifiers of clients that have
  ended, since they are not given to other clients; and the processes.
\<close>

type_synonym ('h, 'r, 'c) net = "(frame \<times> call) set \<times> frame set \<times> ('h, 'r, 'c) world"

inductive net_step :: "('h, 'r) czmq \<Rightarrow> client_env \<Rightarrow> ('h, 'r, 'c) net \<Rightarrow> ('h, 'r, 'c) net result \<Rightarrow> bool"
  for Z :: "('h, 'r) czmq" and E :: client_env where
  create: "actors w r = None \<Longrightarrow> r \<notin> D \<Longrightarrow>
    net_step Z E (H, D, w) (rbind (call_new r w) (\<lambda>(self, w). Inr (H, D, w)))"
| ask: "actors w r = Some c \<Longrightarrow> may_call E (state c) cl \<Longrightarrow>
    net_step Z E (H, D, w) (rbind (owner_sends Z E [] r [call_frames cl] w) (\<lambda>w. Inr (insert (r, cl) H, D, w)))"
| stop: "actors w r = Some c \<Longrightarrow>
    net_step Z E (H, D, w) (rbind (owner_sends Z E [] r [call_frames Stop] w) (\<lambda>w. Inr (H, insert r D, w)))"
| input: "net_step Z E (H, D, w) (rbind (next_input Z E r w) (\<lambda>w. Inr (H, D, w)))"
| take: "unread w r = m # ms \<Longrightarrow> net_step Z E (H, D, w) (Inr (H, D, w\<lparr>unread := (unread w)(r := ms)\<rparr>))"
| expire: "t \<in> set (s_server_t.loop (server (hub w))) \<Longrightarrow>
    net_step Z E (H, D, w) (rbind (broker_turn Z 3 (Server_Reactor.Timer_expired SE t) (hub w))
      (\<lambda>rig. Inr (H, D, w\<lparr>hub := rig\<rparr>)))"

inductive_cases net_step_elim: "net_step Z E (H, D, w) res"

inductive net_reachable :: "('h, 'r) czmq \<Rightarrow> client_env \<Rightarrow> ('h, 'r, 'c) net \<Rightarrow> bool"
  for Z :: "('h, 'r) czmq" and E :: client_env where
  init: "start_test_broker Z SE args random 3 verb ep = Inr rig \<Longrightarrow> wf_cstr ep \<Longrightarrow> zs_bind SE [] ep \<noteq> -1 \<Longrightarrow>
    net_reachable Z E ({}, {}, \<lparr>hub = rig, actors = Map.empty, unread = (\<lambda>_. [])\<rparr>)"
| reach: "net_reachable Z E x \<Longrightarrow> net_step Z E x (Inr y) \<Longrightarrow> net_reachable Z E y"

section \<open>Commands in a closed network\<close>

text \<open>What may be told to the application of a peer: what another one published under an address it asked for.\<close>

definition granted :: "('h, 'r) czmq \<Rightarrow> (frame \<times> call) set \<Rightarrow> frame \<Rightarrow> cstr \<Rightarrow> cstr \<Rightarrow> bool" where
  "granted Z H r a t \<longleftrightarrow> (\<exists>p e. p \<noteq> r \<and> (p, Publish_at a t) \<in> H \<and> (r, Subscribe_to e) \<in> H
     \<and> rex_matches Z (rex_new Z e) a)"

definition told :: "('h, 'r) czmq \<Rightarrow> (frame \<times> call) set \<Rightarrow> frame \<Rightarrow> zmsg \<Rightarrow> bool" where
  "told Z H r m \<longleftrightarrow> m = success \<or> (\<exists>a t. m = message_for [] a t \<and> granted Z H r a t)"

definition from_client :: "(frame \<times> call) set \<Rightarrow> frame \<Rightarrow> command \<Rightarrow> bool" where
  "from_client H r cmd \<longleftrightarrow> cmd = Hello [] Map.empty
     \<or> (\<exists>e. cmd = Subscribe e Map.empty \<and> (r, Subscribe_to e) \<in> H)
     \<or> (\<exists>a t. cmd = Publish a Map.empty [t] \<and> percent \<notin> set a \<and> wf_cstr t \<and> (r, Publish_at a t) \<in> H)"

definition from_broker :: "('h, 'r) czmq \<Rightarrow> (frame \<times> call) set \<Rightarrow> frame \<Rightarrow> command \<Rightarrow> bool" where
  "from_broker Z H r cmd \<longleftrightarrow> cmd = Subscribe_ok \<or> cmd = Invalid \<or> (\<exists>hs. cmd = Hello_ok hs)
     \<or> (\<exists>a hs t. cmd = Deliver [] a hs [t] \<and> wf_cstr t \<and> granted Z H r a t)"

definition listed :: "(frame \<times> call) set \<Rightarrow> broker \<Rightarrow> bool" where
  "listed H B \<longleftrightarrow> (\<forall>(e, rs) \<in> set (table B). \<forall>r \<in> set rs. (r, Subscribe_to e) \<in> H)"

lemma granted_more: "granted Z H r a t \<Longrightarrow> H \<subseteq> H' \<Longrightarrow> granted Z H' r a t"
  unfolding granted_def by blast

lemma told_more: "told Z H r m \<Longrightarrow> H \<subseteq> H' \<Longrightarrow> told Z H' r m"
  by (auto simp: told_def intro: granted_more)

lemma from_broker_more: "from_broker Z H r cmd \<Longrightarrow> H \<subseteq> H' \<Longrightarrow> from_broker Z H' r cmd"
  by (auto simp: from_broker_def intro: granted_more)

lemma listed_more: "listed H B \<Longrightarrow> H \<subseteq> H' \<Longrightarrow> listed H' B"
  unfolding listed_def by blast

definition anonymous :: "broker \<Rightarrow> bool" where
  "anonymous B \<longleftrightarrow> (\<forall>r i. sessions B r = Some (Some i) \<longrightarrow> i = [])"

definition unknown :: "broker \<Rightarrow> frame \<Rightarrow> bool" where
  "unknown B r \<longleftrightarrow> sessions B r = None \<and> (\<forall>(e, rs) \<in> set (table B). r \<notin> set rs)"

lemma leave_facts:
  "anonymous B \<Longrightarrow> anonymous (leave r B)" "unknown B q \<Longrightarrow> unknown (leave r B) q" "listed H B \<Longrightarrow> listed H (leave r B)"
  by (auto simp: anonymous_def unknown_def leave_def listed_def)

lemma subscribe_unknown:
  "q \<noteq> r \<Longrightarrow> \<forall>(e, rs) \<in> set T. q \<notin> set rs \<Longrightarrow> \<forall>(e, rs) \<in> set (subscribe_table x r T). q \<notin> set rs"
  by (induction x r T rule: subscribe_table.induct) auto

lemma subscribe_listed:
  "\<forall>(e, rs) \<in> set T. \<forall>r \<in> set rs. (r, Subscribe_to e) \<in> H \<Longrightarrow> (q, Subscribe_to x) \<in> H \<Longrightarrow>
    \<forall>(e, rs) \<in> set (subscribe_table x q T). \<forall>r \<in> set rs. (r, Subscribe_to e) \<in> H"
  by (induction x q T rule: subscribe_table.induct) auto

lemma recipient_granted:
  "q \<in> set (recipients Z B r a) \<Longrightarrow> listed H B \<Longrightarrow> (r, Publish_at a t) \<in> H \<Longrightarrow> granted Z H q a t"
  by (fastforce simp: recipients_def listed_def granted_def split: if_splits)

lemma recipient_known: "q \<in> set (recipients Z B r a) \<Longrightarrow> \<not> unknown B q"
  by (auto simp: recipients_def unknown_def split: if_splits)

text \<open>The broker answers every command of a client without a fault, and answers nobody it does not know.\<close>

lemma step_closed:
  assumes Z: "czmq_api Z" and B: "anonymous B" "listed H B" and cmd: "from_client H r cmd"
  shows "\<exists>B' outs. broker_step Z B r cmd = Inr (B', outs) \<and> anonymous B' \<and> listed H B'
    \<and> (\<forall>(q, c) \<in> set outs. from_broker Z H q c)
    \<and> (\<forall>q. q \<noteq> r \<longrightarrow> unknown B q \<longrightarrow> unknown B' q \<and> for_peer q outs = [])"
proof -
  have invalid: "anonymous (leave r B)" "listed H (leave r B)" "from_broker Z H r Invalid"
    using B by (simp_all add: leave_facts from_broker_def)
  show ?thesis
  proof (cases "\<exists>i. sessions B r = Some (Some i)")
    case False
    then have step: "broker_step Z B r cmd = (case cmd of
        Hello i hs \<Rightarrow> Inr (B\<lparr>sessions := (sessions B)(r \<mapsto> Some i)\<rparr>, [(r, Hello_ok Map.empty)])
      | Goodbye \<Rightarrow> Inr (leave r B, [(r, Goodbye_ok Map.empty)])
      | _ \<Rightarrow> Inr (leave r B, [(r, Invalid)]))"
      by (auto simp: broker_step_def split: option.splits)
    show ?thesis
      using cmd B invalid leave_facts(2) [of B _ r]
      by (auto simp: step from_client_def from_broker_def anonymous_def) (auto simp: unknown_def listed_def)
  next
    case True
    then have s: "sessions B r = Some (Some [])" using B by (auto simp: anonymous_def)
    consider (hello) "cmd = Hello [] Map.empty"
      | (subscribe) e where "cmd = Subscribe e Map.empty" "(r, Subscribe_to e) \<in> H"
      | (publish) a t where "cmd = Publish a Map.empty [t]" "percent \<notin> set a" "wf_cstr t" "(r, Publish_at a t) \<in> H"
      using cmd by (auto simp: from_client_def)
    then show ?thesis
    proof cases
      case hello
      then show ?thesis using s invalid leave_facts(2) [of B _ r] by (auto simp: broker_step_def)
    next
      case subscribe
      have "listed H (B\<lparr>table := subscribe_table e r (table B)\<rparr>)"
        using B(2) subscribe_listed [OF _ subscribe(2), of "table B"] by (simp add: listed_def)
      then show ?thesis
        using s B(1) subscribe(1) subscribe_unknown [of _ r "table B" e]
        by (auto simp: broker_step_def from_broker_def anonymous_def unknown_def)
    next
      case publish
      have v: "vprintf Z a = Some a" "vprintf Z [] = Some []" using publish by (simp_all add: czmq_api.vprintf_plain [OF Z])
      let ?outs = "map (\<lambda>q. (q, Deliver [] a Map.empty [t])) (recipients Z B r a)"
      have "broker_step Z B r cmd = Inr (B, ?outs)" using s v by (simp add: broker_step_def publish(1))
      moreover have "for_peer q ?outs = []" if "unknown B q" for q
        using that recipient_known [of q Z B r a] by (auto simp: for_peer_def filter_empty_conv)
      moreover have "\<forall>(q, c) \<in> set ?outs. from_broker Z H q c"
        using recipient_granted [OF _ B(2) publish(4)] publish(3) by (auto simp: from_broker_def)
      ultimately show ?thesis using B by blast
    qed
  qed
qed

lemma from_client_event: "from_client H r cmd \<Longrightarrow> Server_Refine.command_event cmd \<noteq> Server_State.terminate_event"
  by (auto simp: from_client_def)

text \<open>A client that has connected takes every command of the broker without a fault.\<close>

lemma client_spec_closed:
  assumes "from_broker Z H r cmd" and "x \<in> {connecting_state, connected_state, subscribing_state, reconnecting_state}"
  shows "\<exists>R. client_spec x cmd = Inr R \<and> \<not> halts R \<and> next_state R \<noteq> start_state
    \<and> (says R = [] \<or> says R = [ZCCP_MSG_HELLO]) \<and> (\<forall>m \<in> set (tells R). told Z H r m)"
  using assms by (auto simp: from_broker_def stay_def greet_again_def told_def c_string_wf)

section \<open>The invariant\<close>

text \<open>The broker and what is on its way: a peer that has sent nothing is unknown and is sent nothing.\<close>

definition hub_ok :: "('h, 'r) czmq \<Rightarrow> (frame \<times> call) set \<Rightarrow> broker \<Rightarrow> (frame \<Rightarrow> command list)
    \<Rightarrow> ('h, 'r, 'c) rig \<Rightarrow> bool" where
  "hub_ok Z H B ib rig \<longleftrightarrow> rig_is Z B ib rig \<and> anonymous B \<and> listed H B
     \<and> (\<forall>r. \<forall>cmd \<in> set (ib r). from_broker Z H r cmd)"

lemma hub_ok_more: "hub_ok Z H B ib rig \<Longrightarrow> H \<subseteq> H' \<Longrightarrow> hub_ok Z H' B ib rig"
  by (auto simp: hub_ok_def intro: listed_more from_broker_more)

definition silent :: "broker \<Rightarrow> (frame \<Rightarrow> command list) \<Rightarrow> frame \<Rightarrow> bool" where
  "silent B ib r \<longleftrightarrow> unknown B r \<and> ib r = []"

definition actor_ok :: "broker \<Rightarrow> (frame \<Rightarrow> command list) \<Rightarrow> frame \<Rightarrow> 'h s_client_t \<Rightarrow> bool" where
  "actor_ok B ib r c \<longleftrightarrow> client_ok c \<and> endpoint c \<noteq> None \<and> pipe_in c = no_input
     \<and> (state c = start_state \<longrightarrow> silent B ib r)"

definition slot_ok :: "broker \<Rightarrow> (frame \<Rightarrow> command list) \<Rightarrow> frame set \<Rightarrow> frame \<Rightarrow> 'h s_client_t option \<Rightarrow> bool" where
  "slot_ok B ib D r a \<longleftrightarrow> (case a of None \<Rightarrow> r \<in> D \<or> silent B ib r | Some c \<Rightarrow> actor_ok B ib r c)"

definition closed_ok :: "('h, 'r) czmq \<Rightarrow> ('h, 'r, 'c) net \<Rightarrow> bool" where
  "closed_ok Z = (\<lambda>(H, D, w). \<exists>B ib. hub_ok Z H B ib (hub w) \<and> (\<forall>r. slot_ok B ib D r (actors w r))
     \<and> (\<forall>r. \<forall>m \<in> set (unread w r). told Z H r m))"

lemma closed_okI:
  "hub_ok Z H B ib (hub w) \<Longrightarrow> (\<And>r. slot_ok B ib D r (actors w r)) \<Longrightarrow>
    (\<And>r m. m \<in> set (unread w r) \<Longrightarrow> told Z H r m) \<Longrightarrow> closed_ok Z (H, D, w)"
  by (auto simp: closed_ok_def)

lemma closed_ok_more:
  assumes "closed_ok Z (H, D, w)" and "H \<subseteq> H'"
  shows "closed_ok Z (H', D, w)"
proof -
  obtain B ib where "hub_ok Z H B ib (hub w)" "\<And>r. slot_ok B ib D r (actors w r)"
      "\<And>r m. m \<in> set (unread w r) \<Longrightarrow> told Z H r m"
    using assms(1) by (auto simp: closed_ok_def)
  then show ?thesis
    by (intro closed_okI [of Z H' B ib]) (simp_all add: hub_ok_more [OF _ assms(2)] told_more [OF _ assms(2)])
qed

lemma slot_ok_simps [simp]:
  "slot_ok B ib D r None \<longleftrightarrow> r \<in> D \<or> silent B ib r" "slot_ok B ib D r (Some c) \<longleftrightarrow> actor_ok B ib r c"
  by (simp_all add: slot_ok_def)

text \<open>A slot depends on the broker and the inboxes only while its client is silent.\<close>

lemma slot_kept:
  "slot_ok B ib D r a \<Longrightarrow> (silent B ib r \<Longrightarrow> silent B' ib' r) \<Longrightarrow> slot_ok B' ib' D r a"
  by (auto simp: slot_ok_def actor_ok_def split: option.splits)

text \<open>What a client sends reaches the broker without a fault.\<close>

lemma send_all_closed:
  assumes Z: "czmq_api Z" and hub: "hub_ok Z H B ib rig"
    and ws: "list_all2 (\<lambda>cmd w. stands_for Z (Inr w) cmd) cmds ws" and cmds: "\<forall>cmd \<in> set cmds. from_client H r cmd"
  shows "\<exists>rig' B' ib'. send_all Z r ws rig = Inr rig' \<and> hub_ok Z H B' ib' rig'
    \<and> (\<forall>q. q \<noteq> r \<longrightarrow> silent B ib q \<longrightarrow> silent B' ib' q) \<and> (cmds = [] \<longrightarrow> B' = B \<and> ib' = ib)"
  using ws hub cmds
proof (induction cmds ws arbitrary: B ib rig rule: list_all2_induct)
  case Nil
  then show ?case by auto
next
  case (Cons cmd cmds w ws)
  have hub: "rig_is Z B ib rig" "anonymous B" "listed H B" "\<forall>r. \<forall>cmd \<in> set (ib r). from_broker Z H r cmd"
    using Cons.prems(1) by (simp_all add: hub_ok_def)
  have cmd: "from_client H r cmd" using Cons.prems(2) by simp
  obtain B1 outs where B1: "broker_step Z B r cmd = Inr (B1, outs)" "anonymous B1" "listed H B1"
      "\<forall>(q, c) \<in> set outs. from_broker Z H q c"
      "\<And>q. q \<noteq> r \<Longrightarrow> unknown B q \<Longrightarrow> unknown B1 q \<and> for_peer q outs = []"
    using step_closed [OF Z hub(2,3) cmd] by auto
  let ?ib = "\<lambda>q. ib q @ for_peer q outs"
  obtain rig1 where rig1: "peer_send Z 3 r (Inr w) rig = Inr rig1" "rig_is Z B1 ?ib rig1"
    using sent_to_broker [OF Z order.refl hub(1) Cons.hyps(1) from_client_event [OF cmd] B1(1)] by blast
  have "hub_ok Z H B1 ?ib rig1" using rig1(2) B1(2-4) hub(4) by (auto simp: hub_ok_def for_peer_def)
  from Cons.IH [OF this] Cons.prems(2) obtain rig' B' ib' where
    fin: "send_all Z r ws rig1 = Inr rig'" "hub_ok Z H B' ib' rig'" "\<forall>q. q \<noteq> r \<longrightarrow> silent B1 ?ib q \<longrightarrow> silent B' ib' q"
    by auto
  have "silent B1 ?ib q" if "q \<noteq> r" "silent B ib q" for q
    using B1(5) [OF that(1)] that(2) by (simp add: silent_def)
  then show ?case using rig1(1) fin by auto
qed

text \<open>An event that an actor handles without a fault leaves the network consistent.\<close>

lemma actor_acts:
  assumes Z: "czmq_api Z" and hub: "hub_ok Z H B ib (hub w)"
    and others: "\<And>q. q \<noteq> r \<Longrightarrow> slot_ok B ib D q (actors w q)"
    and c: "actors w r = Some c" "state c = start_state \<Longrightarrow> silent B ib r"
    and run: "Client_Reactor.handle_event Z E e c = Inr (0, c')" "sent c' = sent c @ ws"
      "list_all2 (\<lambda>cmd w. stands_for Z (Inr w) cmd) cmds ws" "\<forall>cmd \<in> set cmds. from_client H r cmd"
    and tells: "\<And>q m. m \<in> set (unread w q) \<Longrightarrow> told Z H q m"
      "s_client_t.pipe_out c' = s_client_t.pipe_out c @ ms" "\<forall>m \<in> set ms. told Z H r m"
    and c': "client_ok c'" "endpoint c' \<noteq> None" "pipe_in c' = no_input"
      "state c' = start_state \<Longrightarrow> state c = start_state \<and> cmds = []"
  shows "\<exists>w'. actor_event Z E r e w = Inr w' \<and> closed_ok Z (H, D, w')"
proof -
  obtain rig' B' ib' where rig': "send_all Z r ws (hub w) = Inr rig'" "hub_ok Z H B' ib' rig'"
      "\<forall>q. q \<noteq> r \<longrightarrow> silent B ib q \<longrightarrow> silent B' ib' q" "cmds = [] \<longrightarrow> B' = B \<and> ib' = ib"
    using send_all_closed [OF Z hub run(3,4)] by blast
  let ?w' = "\<lparr>hub = rig', actors = (actors w)(r \<mapsto> c'), unread = (unread w)(r := unread w r
    @ drop (length (s_client_t.pipe_out c)) (s_client_t.pipe_out c'))\<rparr>"
  have act: "actor_event Z E r e w = Inr ?w'"
    using c(1) run(1,2) rig'(1) by (simp add: actor_event_def)
  have "slot_ok B' ib' D q (actors ?w' q)" for q
  proof (cases "q = r")
    case True
    have "silent B' ib' r" if "state c' = start_state"
      using c'(4) [OF that] c(2) rig'(4) by auto
    with True c' show ?thesis by (simp add: actor_ok_def)
  next
    case False
    then show ?thesis using slot_kept [OF others [OF False], of B' ib'] rig'(3) by simp
  qed
  moreover have "told Z H q m" if "m \<in> set (unread ?w' q)" for q m
    using that tells by (auto split: if_splits)
  ultimately have "closed_ok Z (H, D, ?w')" using rig'(2) by (intro closed_okI [of Z H B' ib']) simp_all
  with act show ?thesis by blast
qed

section \<open>Every step keeps the invariant\<close>

text \<open>What an actor does with a call that is allowed.\<close>

definition performs_well :: "('h, 'r) czmq \<Rightarrow> client_env \<Rightarrow> (frame \<times> call) set \<Rightarrow> frame
    \<Rightarrow> 'h s_client_t \<Rightarrow> bool" where
  "performs_well Z E H r s \<longleftrightarrow> (\<exists>s' cmds ws. s_client_handle_pipe Z E s = Inr (0, s') \<and> sent s' = sent s @ ws
     \<and> list_all2 (\<lambda>cmd w. stands_for Z (Inr w) cmd) cmds ws \<and> (\<forall>cmd \<in> set cmds. from_client H r cmd)
     \<and> s_client_t.pipe_out s' = s_client_t.pipe_out s \<and> client_ok s' \<and> endpoint s' \<noteq> None \<and> pipe_in s' = no_input
     \<and> (state s' = start_state \<longrightarrow> state s = start_state \<and> cmds = []))"

lemma reaction_performed:
  assumes "s_client_handle_pipe Z E s = Inr (0, s')" and "reacts (hash Z) (read_call [] s1) R s'" and "\<not> halts R"
    and "sent s1 = sent s \<and> s_client_t.pipe_out s1 = s_client_t.pipe_out s" and "tells R = []" and "endpoint s1 \<noteq> None" and "next_state R \<noteq> start_state"
    and "list_all2 (\<lambda>cmd w. stands_for Z (Inr w) cmd) cmds (map (draft_wire (hash Z) (msgout s1)) (says R))"
    and "\<forall>cmd \<in> set cmds. from_client H r cmd"
  shows "performs_well Z E H r s"
  unfolding performs_well_def
  by (intro exI [of _ s'] exI [of _ cmds] exI [of _ "map (draft_wire (hash Z) (msgout s1)) (says R)"])
    (use assms in \<open>auto simp: reacts_def\<close>)

lemma request_performed:
  assumes laws: "zhash_api (hash Z)" and s: "client_ok s" "endpoint s \<noteq> None" "holds_call s cl []" and wf: "wf_call cl"
    and cl: "(ev, cl) = (subscribe_event, Subscribe_to x) \<or> (ev, cl) = (publish_event, Publish_at x y)"
    and started: "state s \<noteq> start_state"
    and spec: "call_spec E connected_state cl = Inr ((stay st)\<lparr>says := [i]\<rparr>)" "st \<noteq> start_state"
    and prep: "\<exists>s1. prepare Z E cl s = Inr s1
      \<and> (sent s1 = sent s \<and> s_client_t.pipe_out s1 = s_client_t.pipe_out s) \<and> endpoint s1 = endpoint s
      \<and> stands_for Z (Inr (draft_wire (hash Z) (msgout s1) i)) cmd" and cmd: "from_client H r cmd"
  shows "performs_well Z E H r s"
proof -
  obtain s1 where s1: "prepare Z E cl s = Inr s1" "sent s1 = sent s \<and> s_client_t.pipe_out s1 = s_client_t.pipe_out s"
      "endpoint s1 = endpoint s"
      "stands_for Z (Inr (draft_wire (hash Z) (msgout s1) i)) cmd" using prep by blast
  note handled = request_handled [OF laws s(1,3) wf cl, of E]
  have e: "endpoint s1 \<noteq> None" using s1(3) s(2) by simp
  show ?thesis
  proof (cases "state s = connected_state")
    case True
    then obtain s' where "s_client_handle_pipe Z E s = Inr (0, s')"
        "reacts (hash Z) (read_call [] s1) ((stay st)\<lparr>says := [i]\<rparr>) s'"
      using handled s1(1) spec(1) by auto
    from reaction_performed [OF this _ s1(2) _ e, of "[cmd]"] spec(2) s1(4) cmd show ?thesis by (simp add: stay_def)
  next
    case False
    have "call_spec E (state s) cl = Inr (stay (state s))"
      using False started client_okD(7,8) [OF s(1)] cl by (cases "state s") auto
    then obtain s' where "s_client_handle_pipe Z E s = Inr (0, s')" "reacts (hash Z) (read_call [] s1) (stay (state s)) s'"
      using handled s1(1) by auto
    from reaction_performed [OF this _ s1(2) _ e, of "[]"] started show ?thesis by (simp add: stay_def)
  qed
qed

lemma call_performed:
  assumes Z: "czmq_api Z" and s: "client_ok s" "endpoint s \<noteq> None" "holds_call s cl []" and may: "may_call E (state s) cl" and made: "(r, cl) \<in> H"
  shows "performs_well Z E H r s"
proof -
  have laws: "zhash_api (hash Z)" using Z by (simp add: czmq_api_def)
  have d: "draft_ok (msgout s)" by (rule client_okD(3) [OF s(1)])
  show ?thesis
  proof (cases cl)
    case (Connect ep t)
    have wf: "wf_call cl" using may Connect by simp
    obtain e where e: "endpoint s = Some e" using s(2) by blast
    note handled = connect_handled [OF laws s(1,3) wf Connect e, of E]
    show ?thesis
    proof (cases "state s = start_state")
      case True
      then obtain s' s1 where s': "s_client_handle_pipe Z E s = Inr (0, s')" "prepare Z E cl s = Inr s1"
          "reacts (hash Z) (read_call [] s1) ((stay connecting_state)\<lparr>says := [ZCCP_MSG_HELLO]\<rparr>) s'"
        using handled may by (auto simp: Connect simp del: prepare.simps)
      have s1: "sent s1 = sent s \<and> s_client_t.pipe_out s1 = s_client_t.pipe_out s" "endpoint s1 \<noteq> None"
          "msgout s1 = msgout s" using s'(2) by (auto simp: Connect)
      from reaction_performed [OF s'(1,3) _ s1(1) _ s1(2), of "[Hello [] Map.empty]"] draft_commands(1) [OF laws d]
      show ?thesis by (simp add: stay_def from_client_def s1(3))
    next
      case False
      have "call_spec E (state s) cl = Inr (stay (state s))"
        using False client_okD(7,8) [OF s(1)] by (cases "state s") (auto simp: Connect)
      then obtain s' s1 where s': "s_client_handle_pipe Z E s = Inr (0, s')" "prepare Z E cl s = Inr s1"
          "reacts (hash Z) (read_call [] s1) (stay (state s)) s'"
        using handled by (auto simp del: prepare.simps)
      have s1: "sent s1 = sent s \<and> s_client_t.pipe_out s1 = s_client_t.pipe_out s" "endpoint s1 \<noteq> None"
        using s'(2) by (auto simp: Connect)
      from reaction_performed [OF s'(1,3) _ s1(1) _ s1(2), of "[]"] False show ?thesis by (simp add: stay_def)
    qed
  next
    case (Subscribe_to x)
    have x: "vprintf Z x = Some x" "wf_cstr x" "sized_fits 1 x" "state s \<noteq> start_state"
      using may by (auto simp: Subscribe_to czmq_api.vprintf_plain [OF Z])
    have "draft_ok ((msgout s)\<lparr>expression := Some x\<rparr>)" using d by (simp add: draft_ok_def msg_ok_def)
    from draft_commands(3) [OF laws this _ x(3)]
    have "\<exists>s1. prepare Z E cl s = Inr s1
        \<and> (sent s1 = sent s \<and> s_client_t.pipe_out s1 = s_client_t.pipe_out s) \<and> endpoint s1 = endpoint s
        \<and> stands_for Z (Inr (draft_wire (hash Z) (msgout s1) ZCCP_MSG_SUBSCRIBE)) (Subscribe x Map.empty)"
      by (simp add: Subscribe_to x(1))
    from request_performed [OF laws s _ _ x(4) _ _ this, of subscribe_event x "[]" subscribing_state] x(2) made show ?thesis
      by (simp add: Subscribe_to from_client_def)
  next
    case (Publish_at a t)
    have a: "vprintf Z a = Some a" "wf_cstr a" "sized_fits 1 a" "state s \<noteq> start_state" "wf_cstr t" "percent \<notin> set a"
      using may by (auto simp: Publish_at czmq_api.vprintf_plain [OF Z])
    have "draft_ok ((msgout s)\<lparr>address := Some a, content := Some [t]\<rparr>)" using d by (simp add: draft_ok_def msg_ok_def)
    from draft_commands(4) [OF laws this _ _ a(3), of "[t]"]
    have "\<exists>s1. prepare Z E cl s = Inr s1
        \<and> (sent s1 = sent s \<and> s_client_t.pipe_out s1 = s_client_t.pipe_out s) \<and> endpoint s1 = endpoint s
        \<and> stands_for Z (Inr (draft_wire (hash Z) (msgout s1) ZCCP_MSG_PUBLISH)) (Publish a Map.empty [t])"
      by (simp add: Publish_at a(1))
    from request_performed [OF laws s _ _ a(4) _ _ this, of publish_event a t connected_state] a(2,5,6) made show ?thesis
      by (simp add: Publish_at from_client_def)
  next
    case Be_verbose
    have "client_ok ((read_call [] s)\<lparr>verbose := True\<rparr>) = client_ok s" by (simp add: client_ok_def)
    with s(1) have "client_ok ((read_call [] s)\<lparr>verbose := True\<rparr>)" by blast
    then show ?thesis
      using no_wire_method(1) [OF s(3,1) Be_verbose, of Z E] s(2) unfolding performs_well_def
      by (intro exI [of _ "(read_call [] s)\<lparr>verbose := True\<rparr>"] exI [of _ "[]"]) simp
  next
    case Stop
    then show ?thesis using may by simp
  qed
qed

lemma settle_none: "settle Z E [] = Inr"
  by (rule ext) (simp add: settle.simps)

lemma owner_sends_one:
  "owner_sends Z E [] r [msg] w
    = rbind (actor_event Z E r (Owner_sends (Some msg)) w) (actor_event Z E r Client_Reactor.Pipe_ready)"
  by (simp add: owner_sends.simps owner_sends_none settle_none rbind_return)

lemma pipe_filled:
  assumes "actors w r = Some c" and "pipe_in c = no_input"
  shows "actor_event Z E r (Owner_sends (Some msg)) w
    = Inr (w\<lparr>actors := (actors w)(r \<mapsto> read_call [Some msg] c)\<rparr>)"
  using assms by (simp add: actor_event_def Client_Reactor.handle_event_def)

lemma ask_closed:
  assumes Z: "czmq_api Z" and w: "closed_ok Z (H, D, w)" and c: "actors w r = Some c" and may: "may_call E (state c) cl"
    and made: "(r, cl) \<in> H"
  shows "\<exists>w'. owner_sends Z E [] r [call_frames cl] w = Inr w' \<and> closed_ok Z (H, D, w')"
proof -
  obtain B ib where hub: "hub_ok Z H B ib (hub w)" and slots: "\<And>q. slot_ok B ib D q (actors w q)"
    and unread: "\<And>q m. m \<in> set (unread w q) \<Longrightarrow> told Z H q m"
    using w by (auto simp: closed_ok_def)
  let ?s = "read_call [Some (call_frames cl)] c" and ?w = "w\<lparr>actors := (actors w)(r \<mapsto> read_call [Some (call_frames cl)] c)\<rparr>"
  have ok: "actor_ok B ib r c" using slots [of r] c by simp
  then have s: "client_ok ?s" "endpoint ?s \<noteq> None" "holds_call ?s cl []" by (simp_all add: actor_ok_def holds_call_def)
  have "performs_well Z E H r ?s" by (rule call_performed [OF Z s _ made]) (use may in simp)
  then obtain s' cmds ws where s': "s_client_handle_pipe Z E ?s = Inr (0, s')" "sent s' = sent ?s @ ws"
      "list_all2 (\<lambda>cmd w. stands_for Z (Inr w) cmd) cmds ws" "\<forall>cmd \<in> set cmds. from_client H r cmd"
      "s_client_t.pipe_out s' = s_client_t.pipe_out ?s @ []" "client_ok s'" "endpoint s' \<noteq> None" "pipe_in s' = no_input" "state s' = start_state \<Longrightarrow> state ?s = start_state \<and> cmds = []"
    unfolding performs_well_def append_Nil2 by blast
  have run: "Client_Reactor.handle_event Z E Client_Reactor.Pipe_ready ?s = Inr (0, s')"
    using s'(1) client_okD(6) [OF s(1)] by (simp add: Client_Reactor.handle_event_def call_reader_def)
  have others: "slot_ok B ib D q (actors ?w q)" if "q \<noteq> r" for q using slots [of q] that by simp
  have "\<exists>w'. actor_event Z E r Client_Reactor.Pipe_ready ?w = Inr w' \<and> closed_ok Z (H, D, w')"
    by (rule actor_acts [OF Z _ others _ _ run s'(2-4) _ s'(5) _ s'(6-9)]) (use hub ok unread in \<open>auto simp: actor_ok_def\<close>)
  moreover have "pipe_in c = no_input" using ok by (simp add: actor_ok_def)
  ultimately show ?thesis using pipe_filled [OF c] by (simp add: owner_sends_one)
qed

text \<open>
  A call that is not ready kills its actor: the only case in which a plain call is not taken.
\<close>

lemma unready_aborts:
  assumes Z: "czmq_api Z" and w: "closed_ok Z (H, D, w)" and c: "actors w r = Some c"
    and cl: "plain_call cl" "\<not> ready E (state c) cl"
  shows "owner_sends Z E [] r [call_frames cl] w = Inl Assertion_failed"
proof -
  have laws: "zhash_api (hash Z)" using Z by (simp add: czmq_api_def)
  obtain B ib where "slot_ok B ib D r (actors w r)" using w by (auto simp: closed_ok_def)
  then have ok: "client_ok c" "endpoint c \<noteq> None" "pipe_in c = no_input" using c by (simp_all add: actor_ok_def)
  let ?s = "read_call [Some (call_frames cl)] c"
  have start: "state c = start_state" using cl by (cases cl) auto
  have call: "holds_call ?s cl []" "wf_call cl" using cl by (auto simp: holds_call_def elim: plain_call.elims)
  have "(\<exists>ep t. cl = Connect ep t \<and> zs_connect E (Some ep) \<noteq> 0)
      \<or> ((\<exists>x y. cl = Subscribe_to x \<or> cl = Publish_at x y) \<and> (\<exists>s1. prepare Z E cl ?s = Inr s1))"
    using cl czmq_api.vprintf_plain [OF Z] by (cases cl) auto
  from early_call_aborts [OF laws _ _ call _ this] ok start have "s_client_handle_pipe Z E ?s = Inl Assertion_failed"
    by auto
  then have "Client_Reactor.handle_event Z E Client_Reactor.Pipe_ready ?s = Inl Assertion_failed"
    using client_okD(6) [OF ok(1)] by (simp add: Client_Reactor.handle_event_def call_reader_def)
  then show ?thesis using pipe_filled [OF c ok(3)] by (simp add: owner_sends_one actor_event_def)
qed

lemma call_taken_iff:
  assumes Z: "czmq_api Z" and w: "closed_ok Z (H, D, w)" and c: "actors w r = Some c" and cl: "plain_call cl"
  shows "case owner_sends Z E [] r [call_frames cl] w of
      Inr w' \<Rightarrow> ready E (state c) cl
    | Inl f \<Rightarrow> \<not> ready E (state c) cl \<and> f = Assertion_failed"
proof (cases "ready E (state c) cl")
  case True
  have "closed_ok Z (insert (r, cl) H, D, w)" by (rule closed_ok_more [OF w]) auto
  from ask_closed [OF Z this c, of E cl] True cl show ?thesis by (auto simp: may_call_def)
next
  case False
  with unready_aborts [OF Z w c cl] show ?thesis by simp
qed

lemma stop_closed:
  assumes w: "closed_ok Z (H, D, w)" and c: "actors w r = Some c"
  shows "\<exists>w'. owner_sends Z E [] r [call_frames Stop] w = Inr w' \<and> closed_ok Z (H, insert r D, w')"
proof -
  obtain B ib where hub: "hub_ok Z H B ib (hub w)" and slots: "\<And>q. slot_ok B ib D q (actors w q)"
    and unread: "\<And>q m. m \<in> set (unread w q) \<Longrightarrow> told Z H q m"
    using w by (auto simp: closed_ok_def)
  let ?s = "read_call [Some (call_frames Stop)] c" and ?w = "w\<lparr>actors := (actors w)(r \<mapsto> read_call [Some (call_frames Stop)] c)\<rparr>"
  have ok: "actor_ok B ib r c" using slots [of r] c by simp
  then have s: "client_ok ?s" "holds_call ?s Stop []" by (simp_all add: actor_ok_def holds_call_def)
  obtain e where e: "endpoint c = Some e" using ok by (auto simp: actor_ok_def)
  let ?w2 = "w\<lparr>actors := (actors w)(r := None)\<rparr>"
  have "actor_event Z E r Client_Reactor.Pipe_ready ?w = Inr ?w2"
    using no_wire_method(2) [OF s(2,1) refl, of Z E] client_okD(6) [OF s(1)] e
    by (simp add: actor_event_def Client_Reactor.handle_event_def call_reader_def
        Client_Reactor.s_client_destroy_def Client_Actions.client_terminate_def)
  moreover have "pipe_in c = no_input" using ok by (simp add: actor_ok_def)
  ultimately have "owner_sends Z E [] r [call_frames Stop] w = Inr ?w2"
    using pipe_filled [OF c] by (simp add: owner_sends_one)
  moreover have "slot_ok B ib (insert r D) q (actors ?w2 q)" for q
    using slots [of q] by (auto simp: slot_ok_def split: option.splits)
  then have "closed_ok Z (H, insert r D, ?w2)" using hub unread by (intro closed_okI [of Z H B ib]) simp_all
  ultimately show ?thesis by blast
qed

lemma create_closed:
  assumes w: "closed_ok Z (H, D, w)" and r: "actors w r = None" "r \<notin> D"
  shows "\<exists>self w'. call_new r w = Inr (self, w') \<and> closed_ok Z (H, D, w')"
proof -
  obtain B ib where hub: "hub_ok Z H B ib (hub w)" and slots: "\<And>q. slot_ok B ib D q (actors w q)"
    and unread: "\<And>q m. m \<in> set (unread w q) \<Longrightarrow> told Z H q m"
    using w by (auto simp: closed_ok_def)
  obtain c where c: "zccp_client_start no_input = Inr (c :: 'a s_client_t)"
    by (simp add: zccp_client_start_def engine_handle_socket_def)
  have "silent B ib r" using slots [of r] r by simp
  then have "actor_ok B ib r c" using client_start_ok [OF c] by (simp add: actor_ok_def)
  then have "closed_ok Z (H, D, w\<lparr>actors := (actors w)(r \<mapsto> c)\<rparr>)"
    using hub slots unread by (intro closed_okI [of Z H B ib]) simp_all
  then show ?thesis by (simp add: call_new_def c)
qed

lemma input_closed:
  assumes Z: "czmq_api Z" and w: "closed_ok Z (H, D, w)"
  shows "\<exists>w'. next_input Z E r w = Inr w' \<and> closed_ok Z (H, D, w')"
proof -
  have laws: "zhash_api (hash Z)" using Z by (simp add: czmq_api_def)
  obtain B ib where hub: "hub_ok Z H B ib (hub w)" and slots: "\<And>q. slot_ok B ib D q (actors w q)"
    and unread: "\<And>q m. m \<in> set (unread w q) \<Longrightarrow> told Z H q m"
    using w by (auto simp: closed_ok_def)
  have waits: "list_all2 (\<lambda>cmd msg. stands_for Z (Inr msg) cmd) (ib r) (inbox (hub w) r)"
    using hub by (simp add: hub_ok_def rig_is_def)
  show ?thesis
  proof (cases "inbox (hub w) r")
    case Nil
    then show ?thesis using w by (simp add: next_input_def)
  next
    case (Cons m ms)
    then obtain cmd cs where cmd: "ib r = cmd # cs" "stands_for Z (Inr m) cmd"
        "list_all2 (\<lambda>cmd msg. stands_for Z (Inr msg) cmd) cs ms"
      using waits by (auto simp: list_all2_Cons2)
    let ?w = "w\<lparr>hub := (hub w)\<lparr>inbox := (inbox (hub w))(r := ms)\<rparr>\<rparr>" and ?ib = "ib(r := cs)"
    have "\<forall>x \<in> set cs. from_broker Z H r x" using hub cmd(1) by (auto simp: hub_ok_def dest!: spec [of _ r])
    then have hub1: "hub_ok Z H B ?ib (hub ?w)"
      using hub cmd(3) by (simp add: hub_ok_def rig_is_def)
    have kept: "slot_ok B ?ib D q (actors ?w q)" if "q \<noteq> r" for q
      using slot_kept [OF slots [of q], of B ?ib] that by (simp add: silent_def)
    have takes: "next_input Z E r w = actor_event Z E r (Dealer_ready (Some m)) ?w"
      by (simp add: next_input_def Cons)
    show ?thesis
    proof (cases "actors w r")
      case None
      then have "r \<in> D" using slots [of r] cmd(1) by (simp add: silent_def)
      then have "slot_ok B ?ib D q (actors ?w q)" for q
        using kept [of q] None by (cases "q = r") simp_all
      then have "closed_ok Z (H, D, ?w)" using hub1 unread by (intro closed_okI [of Z H B ?ib]) simp_all
      then show ?thesis using None by (simp add: takes actor_event_def)
    next
      case (Some c)
      then have ok: "actor_ok B ib r c" using slots [of r] by simp
      then have c: "client_ok c" "endpoint c \<noteq> None" "pipe_in c = no_input" "state c \<noteq> start_state"
        using cmd(1) by (auto simp: actor_ok_def silent_def)
      then have "state c \<in> {connecting_state, connected_state, subscribing_state, reconnecting_state}"
        by (auto simp: client_ok_def)
      moreover have "from_broker Z H r cmd" using hub cmd(1) by (auto simp: hub_ok_def dest!: spec [of _ r])
      ultimately obtain R where R: "client_spec (state c) cmd = Inr R" "\<not> halts R" "next_state R \<noteq> start_state"
          "says R = [] \<or> says R = [ZCCP_MSG_HELLO]" "\<forall>m \<in> set (tells R). told Z H r m" using client_spec_closed by blast
      obtain a where a: "zccp_msg_recv (hash Z) False (Some m) = Some a" "command_of (hash Z) a = Some cmd"
        using stands_for_arrives(2) [OF cmd(2)] by blast
      obtain c' where c': "s_client_handle_protocol Z E (Some m) c = Inr (0, c')" "reacts (hash Z) c R c'"
        using protocol_handled [OF laws c(1) a, of E] R(1,2) by auto
      have run: "Client_Reactor.handle_event Z E (Dealer_ready (Some m)) c = Inr (0, c')"
        using client_okD(6) [OF c(1)] c'(1) by (simp add: Client_Reactor.handle_event_def call_reader_def)
      let ?cmds = "if says R = [] then [] else [Hello [] Map.empty]"
      let ?ws = "map (draft_wire (hash Z) (msgout c)) (says R)"
      have sent: "sent c' = sent c @ ?ws" "s_client_t.pipe_out c' = s_client_t.pipe_out c @ tells R" using c'(2) by (simp_all add: reacts_def)
      have "list_all2 (\<lambda>cmd w. stands_for Z (Inr w) cmd) ?cmds ?ws"
        using R(4) draft_commands(1) [OF laws client_okD(3) [OF c(1)]] by auto
      from actor_acts [OF Z hub1 kept _ _ run sent(1) this _ _ sent(2) R(5)] unread Some c c'(2) R(2,3) show ?thesis
        by (auto simp: takes reacts_def from_client_def)
    qed
  qed
qed

text \<open>A timer of the broker that expires: a client is dropped, or the configuration is looked at.\<close>

lemma timer_harmless:
  assumes Z: "czmq_api Z" and s: "server_ok Z s" and n: "0 < n" and t: "t \<in> set (s_server_t.loop s)"
  shows "\<exists>s'. Server_Reactor.handle_event Z n (Server_Reactor.Timer_expired SE t) s = Inr (0, s') \<and> server_ok Z s'
    \<and> out s' = out s \<and> (broker_of Z s' = broker_of Z s \<or> (\<exists>r. broker_of Z s' = leave r (broker_of Z s)))"
proof -
  have ok: "timers_ok s" using s by (simp add: server_ok_def)
  have after: "out (Server_Reactor.after_timer t s') = out s'"
      "broker_of Z (Server_Reactor.after_timer t s') = broker_of Z s'" for s' :: "('a, 'b, 'c) s_server_t"
    by (simp_all add: Server_Reactor.after_timer_def broker_of_def sessions_of_def [abs_def] table_of_def rid_of_def [abs_def])
  have "\<exists>s'. Server_Reactor.timer_handler Z SE n (tm_handler t) s = Inr (0, s') \<and> out s' = out s
      \<and> (broker_of Z s' = broker_of Z s \<or> (\<exists>r. broker_of Z s' = leave r (broker_of Z s)))"
  proof (cases "tm_handler t")
    case (s_client_handle_timeout_fn p)
    obtain c where c: "heap s p = Some c" "Server_Engine.s_client_handle_timeout Z n p s = Inr (0, without_client p s)"
        "broker_of Z (without_client p s) = leave (client_routing_id c) (broker_of Z s)"
      by (rule timeout_fires [OF Z s n t s_client_handle_timeout_fn])
    have "out (without_client p s) = out s" by (simp add: without_client_def Server_Actions.client_terminate_def c(1))
    with c show ?thesis by (auto simp: Server_Reactor.timer_handler_def s_client_handle_timeout_fn)
  next
    case (s_client_handle_wakeup_fn p)
    then show ?thesis using ok t by (auto simp: timers_ok_def)
  next
    case s_watch_server_config_fn
    have "\<exists>s'. s_watch_server_config SE s = Inr (0, s')"
      by (cases "zc_reload SE (snd (config s))") (simp_all add: s_watch_server_config_def Let_def)
    then obtain s' where s': "s_watch_server_config SE s = Inr (0, s')" by blast
    have "same_clients s s'" by (rule watch_config_same [OF s'])
    then show ?thesis using s' same_clients_ok(2) [of s s' Z] s_watch_server_config_fn
      by (auto simp: Server_Reactor.timer_handler_def same_clients_def)
  qed
  then obtain s' where s': "Server_Reactor.timer_handler Z SE n (tm_handler t) s = Inr (0, s')" "out s' = out s"
      "broker_of Z s' = broker_of Z s \<or> (\<exists>r. broker_of Z s' = leave r (broker_of Z s))" by blast
  from timer_expired_ok [OF Z s n t s'(1)] s'(2,3) show ?thesis
    by (auto simp: Server_Reactor.handle_event_def s'(1) after)
qed

lemma expire_closed:
  assumes Z: "czmq_api Z" and w: "closed_ok Z (H, D, w)" and t: "t \<in> set (s_server_t.loop (server (hub w)))"
  shows "\<exists>rig. broker_turn Z 3 (Server_Reactor.Timer_expired SE t) (hub w) = Inr rig \<and> closed_ok Z (H, D, w\<lparr>hub := rig\<rparr>)"
proof -
  obtain B ib where hub: "hub_ok Z H B ib (hub w)" and slots: "\<And>q. slot_ok B ib D q (actors w q)"
    and unread: "\<And>q m. m \<in> set (unread w q) \<Longrightarrow> told Z H q m"
    using w by (auto simp: closed_ok_def)
  let ?s = "server (hub w)"
  have s: "running (hub w)" "server_ok Z ?s" "broker_of Z ?s = B" using hub by (simp_all add: hub_ok_def rig_is_def)
  obtain s' B' where s': "Server_Reactor.handle_event Z 3 (Server_Reactor.Timer_expired SE t) ?s = Inr (0, s')"
      "server_ok Z s'" "broker_of Z s' = B'" "out s' = out ?s" "B' = B \<or> (\<exists>r. B' = leave r B)"
    using timer_harmless [OF Z s(2) _ t, of 3 SE] s(3) by auto
  let ?rig = "(hub w)\<lparr>server := s'\<rparr>"
  have "broker_turn Z 3 (Server_Reactor.Timer_expired SE t) (hub w) = Inr ?rig"
    using s(1) s'(1,4) by (simp add: broker_turn_def put_out_def)
  moreover have "anonymous B'" "listed H B'" using s'(5) hub leave_facts(1,3) by (auto simp: hub_ok_def)
  then have hub': "hub_ok Z H B' ib ?rig" using hub s'(2,3) by (simp add: hub_ok_def rig_is_def)
  moreover have "unknown B' q" if "unknown B q" for q using that s'(5) leave_facts(2) by auto
  then have "slot_ok B' ib D q (actors w q)" for q
    using slot_kept [OF slots [of q]] by (simp add: silent_def)
  ultimately show ?thesis
    using hub' unread by (intro exI [of _ ?rig] conjI closed_okI [of Z H B' ib]) simp_all
qed

section \<open>The closed network\<close>

lemma step_keeps_closed:
  assumes Z: "czmq_api Z" and x: "closed_ok Z x" and step: "net_step Z E x res"
  shows "\<exists>y. res = Inr y \<and> closed_ok Z y"
  using step x
proof cases
  case (create w r D H)
  then show ?thesis using create_closed [of Z H D w r] x by auto
next
  case (ask w r c cl H D)
  have "closed_ok Z (insert (r, cl) H, D, w)" by (rule closed_ok_more [of Z H]) (use x ask in auto)
  from ask_closed [OF Z this ask(3,4)] show ?thesis by (auto simp: ask)
next
  case (stop w r c H D)
  then show ?thesis using stop_closed [of Z H D w r c E] x by auto
next
  case (input H D w r)
  then show ?thesis using input_closed [OF Z, of H D w E r] x by auto
next
  case (take w r m ms H D)
  then obtain B ib where "hub_ok Z H B ib (hub w)" "\<And>r. slot_ok B ib D r (actors w r)"
      "\<And>r m. m \<in> set (unread w r) \<Longrightarrow> told Z H r m"
    using x by (auto simp: closed_ok_def)
  then have "closed_ok Z (H, D, w\<lparr>unread := (unread w)(r := ms)\<rparr>)"
    by (intro closed_okI [of Z H B ib]) (auto simp: take(3) split: if_splits)
  with take show ?thesis by blast
next
  case (expire t w H D SE)
  then show ?thesis using expire_closed [OF Z, of H D w t SE] x by auto
qed

lemma reachable_closed:
  assumes Z: "czmq_api Z" and "net_reachable Z E x"
  shows "closed_ok Z x"
  using assms(2)
proof (induction rule: net_reachable.induct)
  case (init SE args random verb ep rig)
  then have "rig_is Z \<lparr>sessions = Map.empty, table = []\<rparr> (\<lambda>_. []) rig"
    using broker_started [OF Z init(2,3), of args random 3 verb] by simp
  then have "hub_ok Z {} \<lparr>sessions = Map.empty, table = []\<rparr> (\<lambda>_. []) rig"
    by (simp add: hub_ok_def anonymous_def listed_def)
  then show ?case by (intro closed_okI) (auto simp: silent_def unknown_def)
next
  case (reach x y)
  then show ?case using step_keeps_closed [OF Z, of x E "Inr y"] by auto
qed

text \<open>The runs of the application machine are runs of the network.\<close>

lemma inputs_reachable:
  "net_reachable Z E (H, D, w) \<Longrightarrow> inputs Z E n r w = Inr w' \<Longrightarrow> net_reachable Z E (H, D, w')"
proof (induction n arbitrary: w)
  case (Suc n)
  then obtain w1 where w1: "next_input Z E r w = Inr w1" "inputs Z E n r w1 = Inr w'" by (auto simp: rbind_Inr_iff)
  have "net_reachable Z E (H, D, w1)"
    using net_reachable.reach [OF Suc.prems(1)] net_step.input [of Z E H D w r] w1(1) by simp
  from Suc.IH [OF this w1(2)] show ?case .
qed simp

lemma settle_reachable:
  "net_reachable Z E (H, D, w) \<Longrightarrow> settle Z E rs w = Inr w' \<Longrightarrow> net_reachable Z E (H, D, w')"
proof (induction rs arbitrary: w)
  case (Cons r rs)
  then obtain w1 where w1: "inputs Z E (length (inbox (hub w) r)) r w = Inr w1" "settle Z E rs w1 = Inr w'"
    by (auto simp: settle.simps rbind_Inr_iff)
  from Cons.IH [OF inputs_reachable [OF Cons.prems(1) w1(1)] w1(2)] show ?case .
qed (simp add: settle.simps)

lemma call_reachable:
  assumes "net_reachable Z E (H, D, w)" and "world_is Z B ib st u w" and "st r = Some x" and "may_call E x cl"
    and "owner_sends Z E rs r [call_frames cl] w = Inr w'"
  shows "net_reachable Z E (insert (r, cl) H, D, w')"
proof -
  obtain c where c: "actors w r = Some c" "state c = x"
    using world_isD(3) [OF assms(2,3)] by (auto simp: idle_def)
  obtain w1 where w1: "owner_sends Z E [] r [call_frames cl] w = Inr w1" "settle Z E rs w1 = Inr w'"
    using assms(5) by (auto simp: owner_sends.simps owner_sends_none settle_none rbind_return rbind_assoc rbind_Inr_iff)
  have "net_step Z E (H, D, w) (rbind (owner_sends Z E [] r [call_frames cl] w) (\<lambda>w. Inr (insert (r, cl) H, D, w)))"
    by (rule net_step.ask [OF c(1)]) (use assms(4) c(2) in simp)
  with net_reachable.reach [OF assms(1)] w1(1) have "net_reachable Z E (insert (r, cl) H, D, w1)" by simp
  then show ?thesis by (rule settle_reachable [OF _ w1(2)])
qed

text \<open>A call of one of two clients, and what the broker sends to them.\<close>

lemma pair_calls:
  fixes w :: "('h, 'r, 'c) world"
  assumes Z: "czmq_api Z" and net: "net_reachable Z E (H, D, w)" and w: "world_is Z B (\<lambda>_. []) (two r x q y) u w"
    and ne: "r \<noteq> q" and may: "may_call E x cl" and call: "performs Z E x cl x' [cmd]"
    and step: "broker_step Z B r cmd = Inr (B', outs)" "Server_Refine.command_event cmd \<noteq> Server_State.terminate_event"
    and outs: "absorb x' (for_peer r outs) = Some (x2, ts)" "absorb y (for_peer q outs) = Some (y2, vs)"
      "\<forall>k c. (k, c) \<in> set outs \<longrightarrow> k = r \<or> k = q"
  shows "\<exists>w' :: ('h, 'r, 'c) world. net_reachable Z E (insert (r, cl) H, D, w')
    \<and> world_is Z B' (\<lambda>_. []) (two r x2 q y2) (u(r := u r @ ts, q := u q @ vs)) w'"
proof -
  have x: "(two r x q y) r = Some x" using ne by simp
  have "\<exists>w' :: ('h, 'r, 'c) world. owner_sends Z E [r, q] r [call_frames cl] w = Inr w' \<and> world_is Z B' (\<lambda>_. [])
      ((two r x q y)(r \<mapsto> x', r \<mapsto> x2, q \<mapsto> y2)) (u(r := u r @ ts, q := u q @ vs)) w'"
    by (rule call_settled [OF Z w x call _ ne _ _ outs]) (use ne step in auto)
  moreover have "(two r x q y)(r \<mapsto> x', r \<mapsto> x2, q \<mapsto> y2) = two r x2 q y2" using ne by auto
  ultimately obtain w' where w': "owner_sends Z E [r, q] r [call_frames cl] w = Inr w'"
      "world_is Z B' (\<lambda>_. []) (two r x2 q y2) (u(r := u r @ ts, q := u q @ vs)) w'"
    by (simp only:) blast
  show ?thesis
    by (intro exI [of _ w'] conjI call_reachable [OF net w x may w'(1)] w'(2))
qed

lemma two_swap: "r \<noteq> q \<Longrightarrow> two r x q y = two q y r x"
  by (rule fun_upd_twist)

lemma clients_reachable:
  assumes "net_reachable Z E (H, {}, w0)" and "actors w0 = Map.empty" and "rd \<noteq> wr"
    and "test_clients Z E rd wr False w0 = Inr (reader, writer, w)"
  shows "net_reachable Z E (H, {}, w)"
proof -
  obtain w1 where w1: "call_new rd w0 = Inr (reader, w1)" "call_new wr w1 = Inr (writer, w)"
    using assms(4) by (auto simp: test_clients_def rbind_Inr_iff)
  have free: "actors w0 rd = None" "actors w1 wr = None"
    using assms(2,3) w1(1) by (auto simp: call_new_def rbind_Inr_iff)
  have "net_reachable Z E (H, {}, w1)"
    using net_reachable.reach [OF assms(1)] net_step.create [OF free(1), of "{}" Z E H] w1(1) by simp
  from net_reachable.reach [OF this] net_step.create [OF free(2), of "{}" Z E H] w1(2) show ?thesis by simp
qed

text \<open>A delivery is possible: two clients connect, one subscribes, and the other publishes.\<close>

lemma delivery_reachable:
  fixes rig :: "('h, 'r, 'c) rig"
  assumes Z: "czmq_api Z" and ne: "rd \<noteq> wr" and rig: "start_test_broker Z SE args random 3 verb ep = Inr rig"
    and ep: "wf_cstr ep" "zs_bind SE [] ep \<noteq> -1" "zs_connect E (Some ep) = 0"
    and p: "percent \<notin> set p" "wf_cstr p" "sized_fits 1 p" and a: "percent \<notin> set a" "wf_cstr a" "sized_fits 1 a"
    and t: "wf_cstr t" and rex: "rex_matches Z (rex_new Z p) a"
  shows "\<exists>H (w :: ('h, 'r, 'c) world). net_reachable Z E (H, {}, w) \<and> message_for [] a t \<in> set (unread w rd)"
proof -
  have laws: "zhash_api (hash Z)" using Z by (simp add: czmq_api_def)
  note plain = czmq_api.vprintf_plain [OF Z]
  let ?B = "\<lambda>S T. \<lparr>sessions = S, table = T\<rparr>" and ?S = "[rd \<mapsto> Some [], wr \<mapsto> Some []]"
  have "rig_is Z (?B Map.empty []) (\<lambda>_. []) rig"
    using broker_started [OF Z ep(1,2), of args random 3 verb] rig by simp
  from clients_started [OF Z this ne, of E False] obtain reader writer w0 where
    w0: "test_clients Z E rd wr False \<lparr>hub = rig, actors = Map.empty, unread = (\<lambda>_. [])\<rparr> = Inr (reader, writer, w0)"
      "world_is Z (?B Map.empty []) (\<lambda>_. []) (two rd start_state wr start_state) (left rd []) w0" by blast
  have n0: "net_reachable Z E ({}, {}, w0)"
    by (rule clients_reachable [OF net_reachable.init [OF rig ep(1,2)] _ ne w0(1)]) simp
  note greets = performs_connect [OF laws ep(3,1), of 250]
  obtain w1 :: "('h, 'r, 'c) world" where w1: "net_reachable Z E ({(rd, Connect ep 250)}, {}, w1)"
      "world_is Z (?B [rd \<mapsto> Some []] []) (\<lambda>_. []) (two rd connected_state wr start_state)
        ((left rd [])(rd := left rd [] rd @ [success], wr := left rd [] wr @ [])) w1"
    using pair_calls [OF Z n0 w0(2) ne _ greets, of "?B [rd \<mapsto> Some []] []" "[(rd, Hello_ok Map.empty)]"
        connected_state "[success]" start_state "[]"] ne ep
    by (auto simp: broker_step_def stay_def)
  note w1' = w1(2) [unfolded two_swap [OF ne, of connected_state start_state]]
  let ?u1 = "(left rd [])(rd := left rd [] rd @ [success], wr := left rd [] wr @ [])"
  obtain H2 and w2 :: "('h, 'r, 'c) world" and u2 where w2: "net_reachable Z E (H2, {}, w2)"
      "world_is Z (?B ?S []) (\<lambda>_. []) (two wr connected_state rd connected_state) u2 w2"
    using pair_calls [OF Z w1(1) w1' ne [symmetric] _ greets, of "?B ?S []" "[(wr, Hello_ok Map.empty)]"
        connected_state "[success]" connected_state "[]"] ne ep
    by (auto simp: broker_step_def stay_def)
  note w2' = w2(2) [unfolded two_swap [OF ne [symmetric], of connected_state connected_state]]
  obtain H3 and w3 :: "('h, 'r, 'c) world" and u3 where w3: "net_reachable Z E (H3, {}, w3)"
      "world_is Z (?B ?S [(p, [rd])]) (\<lambda>_. []) (two rd connected_state wr connected_state) u3 w3"
    using pair_calls [OF Z w2(1) w2' ne _ performs_subscribe [OF laws p(2) plain [OF p(1)] p(3)], of "?B ?S [(p, [rd])]"
        "[(rd, Subscribe_ok)]" connected_state "[success]" connected_state "[]"] ne p
    by (auto simp: broker_step_def stay_def)
  note w3' = w3(2) [unfolded two_swap [OF ne, of connected_state connected_state]]
  have v: "vprintf Z a = Some a" "vprintf Z [] = Some []" by (simp_all add: plain a(1))
  have "recipients Z (?B ?S [(p, [rd])]) wr a = [rd]" using ne rex by (simp add: recipients_def)
  then have step: "broker_step Z (?B ?S [(p, [rd])]) wr (Publish a Map.empty [t])
      = Inr (?B ?S [(p, [rd])], [(rd, Deliver [] a Map.empty [t])])"
    using ne v by (simp add: broker_step_def)
  obtain H4 and w4 :: "('h, 'r, 'c) world" where w4: "net_reachable Z E (H4, {}, w4)" "unread w4 rd = u3 rd @ [message_for [] a t]"
    using pair_calls [OF Z w3(1) w3' ne [symmetric] _ performs_publish [OF laws a(2) t v(1) a(3)] step, of connected_state "[]"
        connected_state "[message_for [] a t]"] ne a t
    by (auto simp: stay_def c_string_wf world_is_def)
  then show ?thesis by (intro exI [of _ H4] exI [of _ w4]) simp
qed

end
