(* ===== verification/Broker_History.thy ===== *)
theory Broker_History
  imports Server_Claims
begin

text \<open>
  Runs of the broker, seen from outside.  A history is the list of what concerns the peers in a run of
  the reactor: the commands received and the sessions that expired.  Along a run the broker refines the
  fold of \<open>broker_step\<close> over the history (\<open>broker_run\<close>), and what it holds of a peer is \<open>view\<close>, a
  function of the events of that peer alone.  From this follow who may receive a message, how often, and
  that peers do not interfere.
\<close>

section \<open>Histories\<close>

datatype observed = Received frame command | Expired frame

text \<open>What an event of the reactor is for the peers; a message that does not decode is nothing.\<close>

definition observe :: "('h, 'r) czmq \<Rightarrow> 'c reactor_event \<Rightarrow> ('h, 'r, 'c) s_server_t \<Rightarrow> observed list" where
  "observe Z e s = (case e of
      Router_ready input \<Rightarrow> (case zccp_msg_recv (hash Z) True input of
          None \<Rightarrow> []
        | Some msg \<Rightarrow> [Received (the (routing_id msg)) (the (command_of (hash Z) msg))])
    | Pipe_ready E input \<Rightarrow> []
    | Timer_expired E t \<Rightarrow> (case tm_handler t of
          s_client_handle_timeout_fn p \<Rightarrow> [Expired (rid_of s p)]
        | _ \<Rightarrow> []))"

inductive server_run :: "('h, 'r) czmq \<Rightarrow> nat \<Rightarrow> ('h, 'r, 'c) s_server_t \<Rightarrow> observed list
    \<Rightarrow> ('h, 'r, 'c) s_server_t \<Rightarrow> bool"
  for Z :: "('h, 'r) czmq" and n :: nat and s :: "('h, 'r, 'c) s_server_t" where
  idle: "server_run Z n s [] s"
| event: "server_run Z n s h s1 \<Longrightarrow> may_happen e s1 \<Longrightarrow> handle_event Z n e s1 = Inr (rc, s2) \<Longrightarrow>
    server_run Z n s (h @ observe Z e s1) s2"

text \<open>The specification along a history.\<close>

fun observed_step :: "('h, 'r) czmq \<Rightarrow> broker \<Rightarrow> observed \<Rightarrow> (broker \<times> (frame \<times> command) list) result" where
  "observed_step Z B (Received r cmd) = broker_step Z B r cmd"
| "observed_step Z B (Expired r) = Inr (leave r B, [])"

fun broker_run :: "('h, 'r) czmq \<Rightarrow> broker \<Rightarrow> observed list \<Rightarrow> (broker \<times> (frame \<times> command) list) result" where
  "broker_run Z B [] = Inr (B, [])"
| "broker_run Z B (x # xs) =
     rbind (observed_step Z B x) (\<lambda>(B, outs).
     rbind (broker_run Z B xs) (\<lambda>(B, outs2). Inr (B, outs @ outs2)))"

lemma broker_run_append:
  "broker_run Z B xs = Inr (B1, outs) \<Longrightarrow> broker_run Z B1 ys = Inr (B2, outs2) \<Longrightarrow>
    broker_run Z B (xs @ ys) = Inr (B2, outs @ outs2)"
  by (induction xs arbitrary: B outs) (auto simp: rbind_Inr_iff)

lemma run_sends:
  assumes "broker_run Z B h = Inr (B', outs)" and "x \<in> set outs"
  shows "\<exists>h1 y h2 B1 o1 B2 o2. h = h1 @ y # h2 \<and> broker_run Z B h1 = Inr (B1, o1)
    \<and> observed_step Z B1 y = Inr (B2, o2) \<and> x \<in> set o2"
  using assms
proof (induction h arbitrary: B outs)
  case (Cons y h)
  then obtain B1 o1 o2 where y: "observed_step Z B y = Inr (B1, o1)" "broker_run Z B1 h = Inr (B', o2)" "outs = o1 @ o2"
    by (auto simp: rbind_Inr_iff)
  show ?case
  proof (cases "x \<in> set o1")
    case True
    with y(1) show ?thesis by (intro exI [of _ "[]"]) force
  next
    case False
    then obtain h1 z h2 B2 p2 B3 p3 where "h = h1 @ z # h2" "broker_run Z B1 h1 = Inr (B2, p2)"
        "observed_step Z B2 z = Inr (B3, p3)" "x \<in> set p3"
      using Cons.IH [OF y(2)] Cons.prems(2) y(3) by auto
    with y(1) show ?thesis by (intro exI [of _ "y # h1"]) force
  qed
qed simp

section \<open>Runs refine the specification\<close>

definition advances :: "('h, 'r) czmq \<Rightarrow> ('h, 'r, 'c) s_server_t \<Rightarrow> observed list \<Rightarrow> ('h, 'r, 'c) s_server_t \<Rightarrow> bool" where
  "advances Z s h s' \<longleftrightarrow> server_ok Z s' \<and> (\<exists>outs wires. broker_run Z (broker_of Z s) h = Inr (broker_of Z s', outs)
     \<and> out s' = out s @ wires \<and> list_all2 (carries Z) outs wires)"

lemma advances_nothing:
  assumes "server_ok Z s'" and "broker_of Z s' = broker_of Z s" and "out s' = out s"
  shows "advances Z s [] s'"
  using assms by (simp add: advances_def)

lemma advances_append:
  assumes "advances Z s h s1" and "advances Z s1 k s2"
  shows "advances Z s (h @ k) s2"
  using assms by (fastforce simp: advances_def intro: broker_run_append list_all2_appendI)

lemma message_advances:
  assumes Z: "czmq_api Z" and s: "server_ok Z s" and n: "3 \<le> n"
    and run: "s_server_client_message Z n input s = Inr (rc, s')"
  shows "advances Z s (observe Z (Router_ready input) s) s'"
proof (cases "zccp_msg_recv (hash Z) True input")
  case None
  with run s show ?thesis by (simp add: observe_def s_server_client_message_def advances_nothing)
next
  case (Some msg)
  have "zhash_api (hash Z)" using Z by (simp add: czmq_api_def)
  from recv_complete [OF this Some] obtain r cmd where
    r: "routing_id msg = Some r" "command_of (hash Z) msg = Some cmd" by auto
  obtain res where res: "s_server_client_message Z n input s = rbind res (\<lambda>s. Inr (0, s))"
    "if verbose s \<and> command_event cmd = terminate_event then res = Inl Name_table_overrun
     else implements Z s res (broker_step Z (broker_of Z s) r cmd)"
    using client_message [OF Z s n Some r] by blast
  then have "implements Z s (Inr s') (broker_step Z (broker_of Z s) r cmd)"
    using run by (cases res) (auto split: if_splits)
  then show ?thesis
    by (auto simp: observe_def Some r advances_def implements_def split: sum.splits)
qed

lemma same_advances:
  assumes "server_ok Z s" and "same_clients s s'"
  shows "advances Z s [] s'"
  using assms same_clients_ok [OF assms(2), of Z] by (simp add: advances_nothing same_clients_def)

lemma event_advances:
  assumes Z: "czmq_api Z" and s: "server_ok Z s" and n: "3 \<le> n" and e: "may_happen e s"
    and run: "handle_event Z n e s = Inr (rc, s')"
  shows "advances Z s (observe Z e s) s'"
proof (cases e)
  case (Router_ready input)
  with run message_advances [OF Z s n] show ?thesis by (simp add: dispatch [OF s])
next
  case (Pipe_ready E input)
  with run have "same_clients s s'" by (intro api_message_same) (simp add: dispatch [OF s])
  with Pipe_ready same_advances [OF s] show ?thesis by (simp add: observe_def)
next
  case (Timer_expired E t)
  then have t: "t \<in> set (loop s)" using e by (simp add: may_happen_def)
  have ok: "timers_ok s" using s by (simp add: server_ok_def)
  have n0: "0 < n" using n by simp
  from run Timer_expired obtain s1 where s1: "timer_handler Z E n (tm_handler t) s = Inr (rc, s1)" "s' = after_timer t s1"
    by (auto simp: handle_event_def rbind_Inr_iff)
  have ok': "server_ok Z s'" by (rule handle_event_ok [OF Z s n e run])
  have out: "out s' = out s1" by (simp add: s1(2) after_timer_def)
  show ?thesis
  proof (cases "tm_handler t")
    case (s_client_handle_timeout_fn p)
    obtain c where c: "heap s p = Some c" "s_client_handle_timeout Z n p s = Inr (0, without_client p s)"
        "broker_of Z (without_client p s) = leave (client_routing_id c) (broker_of Z s)"
      by (rule timeout_fires [OF Z s n0 t s_client_handle_timeout_fn])
    then have "s1 = without_client p s" using s1(1) s_client_handle_timeout_fn by (simp add: timer_handler_def)
    then show ?thesis
      using ok' out c(3) by (simp add: advances_def observe_def Timer_expired s_client_handle_timeout_fn c(1) s1(2)
          without_client_fields [OF c(1)])
  next
    case (s_client_handle_wakeup_fn p)
    with ok t show ?thesis by (auto simp: timers_ok_def)
  next
    case s_watch_server_config_fn
    then have "same_clients s s1" using s1(1) watch_config_same by (auto simp: timer_handler_def)
    then have "broker_of Z s' = broker_of Z s" "out s' = out s"
      using same_clients_ok(2) [of s s1 Z] out by (simp_all add: s1(2) same_clients_def)
    with ok' show ?thesis by (simp add: observe_def Timer_expired s_watch_server_config_fn advances_nothing)
  qed
qed

lemma run_advances:
  assumes "server_run Z n s h s'" and "czmq_api Z" and "3 \<le> n" and "server_ok Z s"
  shows "advances Z s h s'"
  using assms(1)
proof (induction rule: server_run.induct)
  case idle
  with assms(4) show ?case by (simp add: advances_nothing)
next
  case (event h s1 e rc s2)
  then have "server_ok Z s1" by (simp add: advances_def)
  from event_advances [OF assms(2) this assms(3) event.hyps(2,3)] event.IH show ?case by (rule advances_append [rotated])
qed

section \<open>What the broker knows of a peer\<close>

text \<open>The identifier of the session and the expressions, after the events of the peer.\<close>

fun view_step :: "frame \<Rightarrow> observed \<Rightarrow> cstr option \<times> cstr set \<Rightarrow> cstr option \<times> cstr set" where
  "view_step r (Expired q) (g, S) = (if q = r then (None, {}) else (g, S))"
| "view_step r (Received q cmd) (g, S) =
     (if q \<noteq> r then (g, S)
      else (case g of
          None \<Rightarrow> (case cmd of Hello i hs \<Rightarrow> (Some i, S) | _ \<Rightarrow> (None, {}))
        | Some i \<Rightarrow> (case cmd of
              Subscribe e hs \<Rightarrow> (g, insert e S)
            | Publish a hs ms \<Rightarrow> (g, S)
            | Direct a hs ms \<Rightarrow> (g, S)
            | _ \<Rightarrow> (None, {}))))"

definition view :: "frame \<Rightarrow> observed list \<Rightarrow> cstr option \<times> cstr set" where
  "view r h = fold (view_step r) h (None, {})"

fun peer_of :: "observed \<Rightarrow> frame" where
  "peer_of (Received r cmd) = r"
| "peer_of (Expired r) = r"

definition expressions_of :: "(cstr \<times> frame list) list \<Rightarrow> frame \<Rightarrow> cstr set" where
  "expressions_of T r = {e. \<exists>rs. (e, rs) \<in> set T \<and> r \<in> set rs}"

definition view_in :: "broker \<Rightarrow> frame \<Rightarrow> cstr option \<times> cstr set" where
  "view_in B r = (Option.bind (sessions B r) id, expressions_of (table B) r)"

lemma expressions_of_simps [simp]:
  "expressions_of [] r = {}"
  "expressions_of ((e, rs) # T) r = (if r \<in> set rs then insert e (expressions_of T r) else expressions_of T r)"
  by (auto simp: expressions_of_def)

lemma view_others: "peer_of x \<noteq> r \<Longrightarrow> view_step r x v = v"
  by (cases "(r, x, v)" rule: view_step.cases) auto

lemma view_own: "view r h = view r (filter (\<lambda>x. peer_of x = r) h)"
proof -
  have "fold (view_step r) h v = fold (view_step r) (filter (\<lambda>x. peer_of x = r) h) v" for v
    by (induction h arbitrary: v) (simp_all add: view_others)
  then show ?thesis by (simp add: view_def)
qed

lemma expressions_leave:
  "expressions_of (map (\<lambda>(e, rs). (e, filter (\<lambda>q. q \<noteq> r) rs)) T) q = (if q = r then {} else expressions_of T q)"
  by (induction T) auto

lemma view_leave: "view_in (leave q B) r = (if q = r then (None, {}) else view_in B r)"
  by (simp add: view_in_def leave_def expressions_leave)

lemma view_subscribe:
  "expressions_of (subscribe_table e q T) r = (if q = r then insert e (expressions_of T r) else expressions_of T r)"
proof (induction T)
  case (Cons x T)
  then show ?case by (cases x; cases "q = r") (simp_all add: insert_commute)
qed simp

lemma view_received:
  assumes "broker_step Z B q cmd = Inr (B', outs)"
  shows "view_in B' r = view_step r (Received q cmd) (view_in B r)"
proof (cases "Option.bind (sessions B q) id")
  case None
  then have "sessions B q = None \<or> sessions B q = Some None" by (cases "sessions B q") auto
  with assms None show ?thesis
    by (cases cmd) (auto simp: broker_step_def view_leave, auto simp: view_in_def)
next
  case (Some i)
  then have "sessions B q = Some (Some i)" by (cases "sessions B q") auto
  with assms Some show ?thesis
    by (cases cmd) (auto simp: broker_step_def view_leave rbind_Inr_iff split: if_splits,
      auto simp: view_in_def view_subscribe)
qed

lemma view_run:
  assumes "broker_run Z \<lparr>sessions = Map.empty, table = []\<rparr> h = Inr (B, outs)"
  shows "view_in B r = view r h"
proof -
  have "view_in B' r = fold (view_step r) h (view_in B r)" if "broker_run Z B h = Inr (B', outs)" for B B' outs
    using that
  proof (induction h arbitrary: B outs)
    case (Cons x h)
    then obtain B1 o1 o2 where "observed_step Z B x = Inr (B1, o1)" "broker_run Z B1 h = Inr (B', o2)"
      by (auto simp: rbind_Inr_iff)
    moreover from this(1) have "view_in B1 r = view_step r x (view_in B r)"
      by (cases x) (auto simp: view_received view_leave, simp_all add: view_in_def)
    ultimately show ?case using Cons.IH by simp
  qed simp
  from this [OF assms] show ?thesis by (simp add: view_def view_in_def)
qed

text \<open>The command is in the history, and nothing after it ended the session of the peer.\<close>

fun lasting :: "observed \<Rightarrow> bool" where
  "lasting (Received r (Subscribe e hs)) = True"
| "lasting (Received r (Publish a hs ms)) = True"
| "lasting (Received r (Direct a hs ms)) = True"
| "lasting x = False"

definition since :: "frame \<Rightarrow> (command \<Rightarrow> bool) \<Rightarrow> observed list \<Rightarrow> bool" where
  "since r P h \<longleftrightarrow> (\<exists>k1 cmd k2. h = k1 @ Received r cmd # k2 \<and> P cmd
     \<and> (\<forall>x \<in> set k2. peer_of x = r \<longrightarrow> lasting x))"

lemma since_now: "P cmd \<Longrightarrow> since r P (h @ [Received r cmd])"
  unfolding since_def by (intro exI [of _ h] exI [of _ cmd] exI [of _ "[]"]) simp

lemma since_later:
  assumes "since r P h" and "peer_of x = r \<longrightarrow> lasting x"
  shows "since r P (h @ [x])"
proof -
  obtain k1 cmd k2 where "h = k1 @ Received r cmd # k2" "P cmd" "\<forall>y \<in> set k2. peer_of y = r \<longrightarrow> lasting y"
    using assms(1) by (auto simp: since_def)
  with assms(2) show ?thesis
    unfolding since_def by (intro exI [of _ k1] exI [of _ cmd] exI [of _ "k2 @ [x]"]) auto
qed

lemma view_snoc: "view r (h @ [x]) = view_step r x (view r h)"
  by (simp add: view_def)

lemma view_since:
  "(\<forall>i. fst (view r h) = Some i \<longrightarrow> since r (\<lambda>cmd. \<exists>hs. cmd = Hello i hs) h)
    \<and> (\<forall>e \<in> snd (view r h). since r (\<lambda>cmd. \<exists>hs. cmd = Subscribe e hs) h)
    \<and> (fst (view r h) = None \<longrightarrow> snd (view r h) = {})"
proof (induction h rule: rev_induct)
  case (snoc x h)
  obtain g S where v: "view r h = (g, S)" by (cases "view r h")
  show ?case
  proof (cases "peer_of x = r \<and> \<not> lasting x")
    case False
    then have "since r P (h @ [x])" if "since r P h" for P using that by (simp add: since_later)
    with snoc False show ?thesis
      by (cases x rule: lasting.cases) (auto simp: view_snoc v intro: since_now split: option.splits if_splits)
  next
    case True
    with snoc show ?thesis
      by (cases x rule: lasting.cases) (auto simp: view_snoc v intro: since_now split: option.splits)
  qed
qed (simp add: view_def)

text \<open>A wire carries one command to one peer.\<close>

lemma carries_unique: "carries Z (q, c) w \<Longrightarrow> carries Z (r, d) w \<Longrightarrow> (q, c) = (r, d)"
  by (auto simp: carries_def stands_for_def)

lemma step_delivers:
  assumes "broker_step Z B p cmd = Inr (B', outs)" and "(r, Deliver i a hs ms) \<in> set outs"
  shows "\<exists>x xs ident e. cmd = Publish x xs ms \<and> p \<noteq> r \<and> vprintf Z x = Some a \<and> vprintf Z ident = Some i
    \<and> rex_matches Z (rex_new Z e) x \<and> fst (view_in B p) = Some ident \<and> e \<in> snd (view_in B r)"
proof (cases "\<exists>x xs m ident. cmd = Publish x xs m \<and> sessions B p = Some (Some ident)")
  case True
  then obtain x xs m ident where c: "cmd = Publish x xs m" "sessions B p = Some (Some ident)" by blast
  then obtain i' a' where v: "recipients Z B p x \<noteq> [] \<longrightarrow> vprintf Z ident = Some i' \<and> vprintf Z x = Some a'"
      "outs = map (\<lambda>q. (q, Deliver i' a' Map.empty m)) (recipients Z B p x)"
    using assms(1) by (force simp: broker_step_def rbind_Inr_iff of_option_Inr_iff split: if_splits)
  with assms(2) have "r \<in> set (recipients Z B p x)" "i' = i" "a' = a" "m = ms" by auto
  moreover from this(1) obtain e rs where "(e, rs) \<in> set (table B)" "rex_matches Z (rex_new Z e) x" "r \<in> set rs" "r \<noteq> p"
    by (auto simp: recipients_def split: if_splits)
  ultimately show ?thesis
    using v(1) c by (auto simp: view_in_def expressions_of_def)
next
  case False
  with assms show ?thesis
    by (cases cmd) (auto simp: broker_step_def split: option.splits)
qed

lemma delivery_origin:
  assumes "broker_run Z \<lparr>sessions = Map.empty, table = []\<rparr> h = Inr (B, outs)" and "(r, Deliver i a hs ms) \<in> set outs"
  shows "\<exists>h1 p x xs h2 ident e. h = h1 @ Received p (Publish x xs ms) # h2 \<and> p \<noteq> r
    \<and> vprintf Z x = Some a \<and> vprintf Z ident = Some i \<and> rex_matches Z (rex_new Z e) x
    \<and> since p (\<lambda>cmd. \<exists>hs. cmd = Hello ident hs) h1 \<and> since r (\<lambda>cmd. \<exists>hs. cmd = Subscribe e hs) h1"
proof -
  obtain h1 y h2 B1 o1 B2 o2 where h: "h = h1 @ y # h2" "broker_run Z \<lparr>sessions = Map.empty, table = []\<rparr> h1 = Inr (B1, o1)"
      "observed_step Z B1 y = Inr (B2, o2)" "(r, Deliver i a hs ms) \<in> set o2"
    using run_sends [OF assms] by blast
  then obtain p cmd where y: "y = Received p cmd" by (cases y) auto
  from step_delivers [of Z B1 p cmd B2 o2 r i a hs ms] h(3,4) y obtain x xs ident e where
    d: "cmd = Publish x xs ms" "p \<noteq> r" "vprintf Z x = Some a" "vprintf Z ident = Some i" "rex_matches Z (rex_new Z e) x"
      "fst (view p h1) = Some ident" "e \<in> snd (view r h1)"
    by (auto simp: view_run [OF h(2)])
  have "since p (\<lambda>cmd. \<exists>hs. cmd = Hello ident hs) h1" "since r (\<lambda>cmd. \<exists>hs. cmd = Subscribe e hs) h1"
    using view_since [of p h1] view_since [of r h1] d(6,7) by blast+
  with h(1) y d(1-5) show ?thesis by blast
qed

section \<open>A run of a concrete broker\<close>

text \<open>A message that the specification accepts prolongs the run of a silent server.\<close>

lemma run_received:
  assumes "czmq_api Z" and "3 \<le> n" and "server_ok Z s" and "server_run Z n s h s1" and "\<not> verbose s1"
    and "zccp_msg_recv (hash Z) True input = Some msg" and "routing_id msg = Some r"
    and "command_of (hash Z) msg = Some cmd" and "broker_step Z (broker_of Z s1) r cmd = Inr (B, outs)"
  shows "\<exists>s2. server_run Z n s (h @ [Received r cmd]) s2 \<and> \<not> verbose s2 \<and> broker_of Z s2 = B"
proof -
  have ok: "server_ok Z s1" using run_advances [OF assms(4,1,2,3)] by (simp add: advances_def)
  obtain res where res: "s_server_client_message Z n input s1 = rbind res (\<lambda>s. Inr (0, s))"
      "implements Z s1 res (broker_step Z (broker_of Z s1) r cmd)"
    using client_message [OF assms(1) ok assms(2,6-8)] assms(5) by auto
  obtain s2 where s2: "s_server_client_message Z n input s1 = Inr (0, s2)" "verbose s2 = verbose s1" "broker_of Z s2 = B"
    using implements_run [OF res(1)] res(2) assms(9) by force
  have "server_run Z n s (h @ observe Z (Router_ready input) s1) s2"
    by (rule server_run.event [OF assms(4)]) (simp_all add: may_happen_def dispatch [OF ok] s2(1))
  with s2 assms(5-8) show ?thesis by (auto simp: observe_def)
qed

definition demo_history :: "observed list" where
  "demo_history = [Received [1] (Hello [65] Map.empty), Received [2] (Hello [66] Map.empty),
     Received [1] (Subscribe [99] Map.empty), Received [2] (Publish [99, 112, 117] Map.empty [[57]])]"

definition hello_received :: "byte \<Rightarrow> (cstr \<times> cstr) list zccp_msg" where
  "hello_received r = (zccp_msg_new ZCCP_MSG_HELLO)\<lparr>routing_id := Some [r], identifier_field := Some [64 + r], headers := Some []\<rparr>"

lemma hello_recv:
  "zccp_msg_recv (hash ref_czmq) True (hello_from 1) = Some (hello_received 1)"
  "zccp_msg_recv (hash ref_czmq) True (hello_from 2) = Some (hello_received 2)"
  by code_simp+

lemma subscribe_recv_99:
  "zccp_msg_recv (hash ref_czmq) True (subscribe_from 1 [99]) = Some (subscribe_received [99])"
  by code_simp

lemma hello_facts: "routing_id (hello_received r) = Some [r]"
  "command_of (hash ref_czmq) (hello_received r) = Some (Hello [64 + r] Map.empty)"
  by (simp_all add: hello_received_def command_of_def zccp_msg_new_def)

definition demo_end :: broker where
  "demo_end = \<lparr>sessions = [[1] \<mapsto> Some [65], [2] \<mapsto> Some [66]], table = [([99], [[1]])]\<rparr>"

definition demo_outs :: "(frame \<times> command) list" where
  "demo_outs = [([1], Hello_ok Map.empty), ([2], Hello_ok Map.empty), ([1], Subscribe_ok),
     ([1], Deliver [66] [99, 112, 117] Map.empty [[57]])]"

lemma demo_publish: "broker_step ref_czmq demo_end [2] (Publish [99, 112, 117] Map.empty [[57]])
    = Inr (demo_end, [([1], Deliver [66] [99, 112, 117] Map.empty [[57]])])"
proof -
  have "vprintf ref_czmq [66] = Some [66]" "vprintf ref_czmq [99, 112, 117] = Some [99, 112, 117]"
    and "rex_matches ref_czmq = (\<lambda>e s. take (length e) s = e)"
    by (simp_all add: ref_czmq_def)
  then show ?thesis by (simp add: broker_step_def recipients_def demo_end_def)
qed

lemma demo_specified: "broker_run ref_czmq \<lparr>sessions = Map.empty, table = []\<rparr> demo_history = Inr (demo_end, demo_outs)"
  unfolding demo_history_def demo_outs_def using demo_publish
  by (simp add: broker_step_def [of _ _ _ "Hello i hs" for i hs] broker_step_def [of _ _ _ "Subscribe e hs" for e hs] demo_end_def)

lemma demo_run: "\<exists>s. server_run ref_czmq 3 started demo_history s"
proof -
  let ?B0 = "\<lparr>sessions = Map.empty, table = []\<rparr>"
  let ?B1 = "?B0\<lparr>sessions := [[1] \<mapsto> Some [65]]\<rparr>" and ?B2 = "?B0\<lparr>sessions := [[1] \<mapsto> Some [65], [2] \<mapsto> Some [66]]\<rparr>"
  have v: "\<not> verbose started" using demo_fields(7) by (simp add: demo_def)
  note received = run_received [OF ref_lib.czmq_api_axioms order.refl started_ok]
  have "broker_of ref_czmq started = ?B0" by (rule start_ok(2) [OF ref_lib.czmq_api_axioms started_starts])
  then have "broker_step ref_czmq (broker_of ref_czmq started) [1] (Hello [64 + 1] Map.empty)
      = Inr (?B1, [([1], Hello_ok Map.empty)])" by (simp add: broker_step_def)
  from received [OF server_run.idle v hello_recv(1) hello_facts this] obtain s1 where
    s1: "server_run ref_czmq 3 started ([] @ [Received [1] (Hello [64 + 1] Map.empty)]) s1" "\<not> verbose s1"
      "broker_of ref_czmq s1 = ?B1" by blast
  have "broker_step ref_czmq (broker_of ref_czmq s1) [2] (Hello [64 + 2] Map.empty)
      = Inr (?B2, [([2], Hello_ok Map.empty)])" by (simp add: broker_step_def s1(3))
  from received [OF s1(1,2) hello_recv(2) hello_facts this] obtain s2 where
    s2: "server_run ref_czmq 3 started (([] @ [Received [1] (Hello [64 + 1] Map.empty)])
      @ [Received [2] (Hello [64 + 2] Map.empty)]) s2" "\<not> verbose s2" "broker_of ref_czmq s2 = ?B2" by blast
  have "broker_step ref_czmq (broker_of ref_czmq s2) [1] (Subscribe [99] Map.empty)
      = Inr (demo_end, [([1], Subscribe_ok)])" by (simp add: broker_step_def s2(3) demo_end_def)
  from received [OF s2(1,2) subscribe_recv_99 subscribe_facts this] obtain s3 where
    s3: "server_run ref_czmq 3 started ((([] @ [Received [1] (Hello [64 + 1] Map.empty)])
      @ [Received [2] (Hello [64 + 2] Map.empty)]) @ [Received [1] (Subscribe [99] Map.empty)]) s3" "\<not> verbose s3"
      "broker_of ref_czmq s3 = demo_end" by blast
  from received [OF s3(1,2) published_recv published_rid published_command, unfolded s3(3), OF demo_publish]
  show ?thesis by (auto simp: demo_history_def)
qed

section \<open>Properties\<close>

text \<open>
  C5: runs of the broker refine the specification.  From the start of the actor, through any sequence of
  messages, commands of the owner and expiring timers, sessions and subscriptions are what the fold of
  \<open>broker_step\<close> over the history of the run yields, and the broker has sent, in this order, the messages
  that the fold prescribes, and no others.
\<close>

theorem history_refines:
  assumes "czmq_api Z" and "3 \<le> n" and "zccp_server_start Z E args random = Inr s" and "server_run Z n s h s'"
  shows "\<exists>outs wires. broker_run Z \<lparr>sessions = Map.empty, table = []\<rparr> h = Inr (broker_of Z s', outs)
    \<and> out s' = out s @ wires \<and> list_all2 (carries Z) outs wires"
  using run_advances [OF assms(4,1,2) start_ok(1) [OF assms(1,3)]] start_ok(2) [OF assms(1,3)]
  by (simp add: advances_def)

theorem history_refines_witness:
  "\<exists>s w1 w2 w3 w4. server_run ref_czmq 3 started demo_history s \<and> out s = out started @ [w1, w2, w3, w4]
    \<and> carries ref_czmq ([1], Deliver [66] [99, 112, 117] Map.empty [[57]]) w4
    \<and> table (broker_of ref_czmq s) = [([99], [[1]])]"
proof -
  obtain s where s: "server_run ref_czmq 3 started demo_history s" using demo_run by blast
  from history_refines [OF ref_lib.czmq_api_axioms order.refl started_starts this] obtain wires where
    "broker_of ref_czmq s = demo_end" "out s = out started @ wires" "list_all2 (carries ref_czmq) demo_outs wires"
    by (auto simp: demo_specified)
  with s show ?thesis by (auto simp: demo_outs_def demo_end_def list_all2_Cons1)
qed

text \<open>
  C10: peers are isolated.  What the broker holds of a peer after any run, its identifier and the
  expressions it is subscribed to, is a function of the events of this peer alone: no other peer can
  end its session, change its identifier, or add or remove a subscription of it.
\<close>

theorem peers_isolated:
  assumes "czmq_api Z" and "3 \<le> n" and "zccp_server_start Z E args random = Inr s" and "server_run Z n s h s'"
  shows "Option.bind (sessions (broker_of Z s') r) id = fst (view r (filter (\<lambda>x. peer_of x = r) h))
    \<and> {e. \<exists>rs. (e, rs) \<in> set (table (broker_of Z s')) \<and> r \<in> set rs} = snd (view r (filter (\<lambda>x. peer_of x = r) h))"
proof -
  obtain outs where "broker_run Z \<lparr>sessions = Map.empty, table = []\<rparr> h = Inr (broker_of Z s', outs)"
    using run_advances [OF assms(4,1,2) start_ok(1) [OF assms(1,3)]] start_ok(2) [OF assms(1,3)]
    by (auto simp: advances_def)
  from view_run [OF this, of r] view_own [of r h] show ?thesis
    by (simp add: view_in_def expressions_of_def prod_eq_iff)
qed

theorem peers_isolated_witness:
  "\<exists>s. server_run ref_czmq 3 started demo_history s
    \<and> {e. \<exists>rs. (e, rs) \<in> set (table (broker_of ref_czmq s)) \<and> [1] \<in> set rs} = {[99]}"
proof -
  obtain s where s: "server_run ref_czmq 3 started demo_history s" using demo_run by blast
  have "view [1] (filter (\<lambda>x. peer_of x = [1]) demo_history) = (Some [65], {[99]})"
    by (simp add: view_def demo_history_def)
  with peers_isolated [OF ref_lib.czmq_api_axioms order.refl started_starts s, of "[1]"] s show ?thesis by auto
qed

text \<open>
  C6: nobody receives what was not asked for or not published.  Every DELIVER in a run goes back to an
  earlier PUBLISH of another peer with this content, under the address as formatted, and carries the
  identifier that the publisher gave in the HELLO of its session; and its receiver had subscribed, in
  its session of that moment, to an expression that matches the address.
\<close>

theorem deliveries_asked:
  assumes "czmq_api Z" and "3 \<le> n" and "zccp_server_start Z E args random = Inr s" and "server_run Z n s h s'"
    and "out s' = out s @ wires" and "w \<in> set wires" and "carries Z (r, Deliver i a hs ms) w"
  shows "\<exists>h1 p x xs h2 ident e. h = h1 @ Received p (Publish x xs ms) # h2 \<and> p \<noteq> r
    \<and> vprintf Z x = Some a \<and> vprintf Z ident = Some i \<and> rex_matches Z (rex_new Z e) x
    \<and> since p (\<lambda>cmd. \<exists>hs. cmd = Hello ident hs) h1 \<and> since r (\<lambda>cmd. \<exists>hs. cmd = Subscribe e hs) h1"
proof -
  obtain outs where run: "broker_run Z \<lparr>sessions = Map.empty, table = []\<rparr> h = Inr (broker_of Z s', outs)"
    and wires: "list_all2 (carries Z) outs wires"
    using run_advances [OF assms(4,1,2) start_ok(1) [OF assms(1,3)]] start_ok(2) [OF assms(1,3)] assms(5)
    by (auto simp: advances_def)
  from assms(6) obtain k where "k < length wires" "w = wires ! k" by (auto simp: in_set_conv_nth)
  with wires have "outs ! k \<in> set outs" "carries Z (outs ! k) w" by (simp_all add: list_all2_conv_all_nth)
  then have "(r, Deliver i a hs ms) \<in> set outs" using carries_unique [OF _ assms(7)] by (metis surj_pair)
  from delivery_origin [OF run this] show ?thesis by blast
qed

theorem deliveries_asked_witness:
  "\<exists>h1 p x xs h2 e. demo_history = h1 @ Received p (Publish x xs [[57]]) # h2 \<and> p \<noteq> [1]
    \<and> since [1] (\<lambda>cmd. \<exists>hs. cmd = Subscribe e hs) h1"
proof -
  obtain s where s: "server_run ref_czmq 3 started demo_history s" using demo_run by blast
  note ran = run_advances [OF s ref_lib.czmq_api_axioms order.refl started_ok]
  have B0: "broker_of ref_czmq started = \<lparr>sessions = Map.empty, table = []\<rparr>"
    by (rule start_ok(2) [OF ref_lib.czmq_api_axioms started_starts])
  obtain wires where wires: "out s = out started @ wires" "list_all2 (carries ref_czmq) demo_outs wires"
    using ran by (auto simp: advances_def B0 demo_specified)
  then obtain w1 w2 w3 w4 where "wires = [w1, w2, w3, w4]"
      and w: "carries ref_czmq ([1], Deliver [66] [99, 112, 117] Map.empty [[57]]) w4"
    by (auto simp: demo_outs_def list_all2_Cons1)
  then have "w4 \<in> set wires" by simp
  from deliveries_asked [OF ref_lib.czmq_api_axioms order.refl started_starts s wires(1) this w] show ?thesis by blast
qed

text \<open>
  C9: who gets how many copies is determined by the history.  When a greeted peer sends a PUBLISH after
  any run, every other peer receives it once for each matching expression it has subscribed to in its
  current session, and nobody else does; the copies carry the identifier of the publisher's HELLO.
\<close>

theorem history_deliveries:
  assumes "czmq_api Z" and "3 \<le> n" and "zccp_server_start Z E args random = Inr s" and "server_run Z n s h s'"
    and "zccp_msg_recv (hash Z) True input = Some msg" and "routing_id msg = Some p"
    and "command_of (hash Z) msg = Some (Publish a hs ms)"
    and "fst (view p h) = Some ident" and "vprintf Z ident = Some i" and "vprintf Z a = Some a'"
  shows "\<exists>s'' wires. s_server_client_message Z n input s' = Inr (0, s'') \<and> out s'' = out s' @ wires
    \<and> (\<forall>w \<in> set wires. carries Z (hd w, Deliver i a' Map.empty ms) w)
    \<and> (\<forall>q. count_list (map hd wires) q =
          (if q = p then 0 else card {e \<in> snd (view q h). rex_matches Z (rex_new Z e) a}))"
proof -
  note ran = run_advances [OF assms(4,1,2) start_ok(1) [OF assms(1,3)]] start_ok(2) [OF assms(1,3)]
  have ok: "server_ok Z s'" using ran by (simp add: advances_def)
  obtain outs where "broker_run Z \<lparr>sessions = Map.empty, table = []\<rparr> h = Inr (broker_of Z s', outs)"
    using ran by (auto simp: advances_def)
  note known = view_run [OF this, unfolded view_in_def expressions_of_def]
  have "Option.bind (sessions (broker_of Z s') p) id = Some ident"
    using arg_cong [OF known [of p], of fst] assms(8) by simp
  then have "sessions (broker_of Z s') p = Some (Some ident)"
    by (cases "sessions (broker_of Z s') p") simp_all
  from publish_deliveries [OF assms(1) ok assms(2,5-7) this assms(9,10)] obtain s'' wires where
    d: "s_server_client_message Z n input s' = Inr (0, s'')" "out s'' = out s' @ wires"
      "\<forall>w \<in> set wires. carries Z (hd w, Deliver i a' Map.empty ms) w"
      "\<forall>q. count_list (map hd wires) q = (if q = p then 0 else card {e. \<exists>rs. (e, rs) \<in> set (table (broker_of Z s'))
          \<and> rex_matches Z (rex_new Z e) a \<and> q \<in> set rs})"
    by blast
  have "{e. \<exists>rs. (e, rs) \<in> set (table (broker_of Z s')) \<and> rex_matches Z (rex_new Z e) a \<and> q \<in> set rs}
      = {e \<in> snd (view q h). rex_matches Z (rex_new Z e) a}" for q
    using known [of q, symmetric] by auto
  with d show ?thesis by auto
qed

theorem history_deliveries_witness:
  "\<exists>s s'' wires. server_run ref_czmq 3 started demo_history s
    \<and> s_server_client_message ref_czmq 3 (publish_from 2 [99, 112, 117]) s = Inr (0, s'')
    \<and> out s'' = out s @ wires \<and> count_list (map hd wires) [1] = 1 \<and> count_list (map hd wires) [2] = 0"
proof -
  obtain s where s: "server_run ref_czmq 3 started demo_history s" using demo_run by blast
  have v: "vprintf ref_czmq [66] = Some [66]" "vprintf ref_czmq [99, 112, 117] = Some [99, 112, 117]"
    by (simp_all add: ref_czmq_def)
  have p: "fst (view [2] demo_history) = Some [66]" and q: "snd (view [1] demo_history) = {[99]}"
    by (simp_all add: view_def demo_history_def)
  have "rex_matches ref_czmq (rex_new ref_czmq [99]) [99, 112, 117]" by (simp add: ref_czmq_def)
  then have "{e \<in> snd (view [1] demo_history). rex_matches ref_czmq (rex_new ref_czmq e) [99, 112, 117]} = {[99]}"
    unfolding q by blast
  then have card: "card {e \<in> snd (view [1] demo_history). rex_matches ref_czmq (rex_new ref_czmq e) [99, 112, 117]} = 1"
    by (simp only:) simp
  from history_deliveries [OF ref_lib.czmq_api_axioms order.refl started_starts s published_recv published_rid
      published_command p v] obtain s'' wires where
    d: "s_server_client_message ref_czmq 3 (publish_from 2 [99, 112, 117]) s = Inr (0, s'')" "out s'' = out s @ wires"
      "\<forall>q. count_list (map hd wires) q = (if q = [2] then 0
        else card {e \<in> snd (view q demo_history). rex_matches ref_czmq (rex_new ref_czmq e) [99, 112, 117]})"
    by blast
  have "count_list (map hd wires) [1] = 1" "count_list (map hd wires) [2] = 0"
    using d(3) card by simp_all
  with s d(1,2) show ?thesis by blast
qed

end
