(* ===== verification/Spec2Isabelle.thy ===== *)
theory Spec2Isabelle
  imports Programs Closed_Network Broker_History
begin

text \<open>
  \<^bold>\<open>A verification of ZCCP, the ZeroMQ publish-subscribe broker of this repository.\<close>

  A broker (\<^verbatim>\<open>zccp_server\<close>) serves peers on a \<open>ROUTER\<close> socket; applications use it through the class
  \<^verbatim>\<open>zccp_client\<close>, whose work is done by an actor that talks to the application over a pipe and to the
  broker over a \<open>DEALER\<close> socket.  Both sides exchange the twelve messages of \<^verbatim>\<open>zccp_msg\<close>.  Broker and
  client actor are state machines, generated as \<^verbatim>\<open>.inc\<close> files from XML models and completed by the actions
  in the \<^verbatim>\<open>.c\<close> files.  The model follows that division:

  \<^item> \<open>Zccp_Prelude\<close>: octets, C strings, frames, the faults of a C program as values, results.
    \<open>Czmq\<close>: the library CZMQ, which is not part of the repository, as a parameter of the model with its
    documented laws (locales \<open>zhash_api\<close>, \<open>czmq_api\<close>), and a concrete library for the witnesses.
  \<^item> \<^verbatim>\<open>src/zccp_msg.c\<close>: \<open>Wire\<close> (the \<open>PUT\<close>/\<open>GET\<close> macros), \<open>Zccp_Msg\<close> (the structure, its accessors,
    \<open>zccp_msg_dup\<close>), \<open>Zccp_Codec\<close> (encode, decode, send, receive), \<open>Zccp_Send\<close> (the one-step functions),
    \<open>Zccp_Print\<close> (\<open>zccp_msg_print\<close>), \<open>Codec_Selftest\<close> (\<open>zccp_msg_test\<close>).
  \<^item> \<open>Engine_Base\<close>: what both engines share, such as name tables, timers and reading a pipe.
  \<^item> \<^verbatim>\<open>src/zccp_server.c\<close>, \<^verbatim>\<open>src/zccp_server_engine.inc\<close>: \<open>Server_State\<close>, \<open>Server_Actions\<close>,
    \<open>Server_Engine\<close> (the state machine \<open>s_client_execute\<close> and its callbacks), \<open>Server_Reactor\<close> (the actor:
    configuration, commands of the owner, reactor, shutdown), \<open>Server_Selftest\<close> (\<open>zccp_server_test\<close>).
  \<^item> \<^verbatim>\<open>src/zccp_client.c\<close>, \<^verbatim>\<open>src/zccp_client_engine.inc\<close>: \<open>Client_State\<close>, \<open>Client_Actions\<close>,
    \<open>Client_Engine\<close>, \<open>Client_Reactor\<close> (the actor), \<open>Client_Api\<close> (the class that applications use).
  \<^item> \<open>Network\<close> joins the broker and its clients through the interface \<open>broker_service\<close>.  \<open>Application\<close> puts
    applications, actors and the broker into one machine (\<open>world\<close>) on which \<open>zccp_client_test\<close> and
    \<^verbatim>\<open>src/zccp_selftest.c\<close> run; \<open>Programs\<close> adds the daemon \<^verbatim>\<open>src/zccpd.c\<close> and the shell \<^verbatim>\<open>src/zccp_sh.c\<close>;
    \<open>Closed_Network\<close> has the machine with any number of clients as a step relation.  This theory has the
    properties of the whole.

  Definitions have the names of the C functions.  A context of the C code is a record with the fields of
  the structure.  The broker keeps its client contexts in a heap, since contexts, subscription lists and
  timers refer to each other by pointers; an access to a freed context is the fault \<open>Use_after_free\<close>.  A
  failed assertion, a null pointer handed on, a write past a frame, a table read out of bounds, a format
  directive without argument and a read that waits for ever are further values of the type \<open>fault\<close>, so
  that every way in which the code can go wrong is a result.

  \<^bold>\<open>What is proved.\<close>
  \<^item> The codec (\<open>Codec_Claims\<close>): the encoder writes exactly the octets of the grammar
    \<^verbatim>\<open>src/zccp_msg.bnf\<close> and fills its frame; decoding gives the command back; what is accepted is well
    formed; strings of 256 characters and format directives break this; the printed text of a message
    tells its command but for the content, whose layout is the library's; the self test passes.
  \<^item> The broker (\<open>Server_Spec\<close>, \<open>Server_Runs\<close>, \<open>Server_Refine\<close>, \<open>Server_Claims\<close>): the callback for client
    messages implements \<open>broker_step\<close> on sessions and subscription tables; every reachable state satisfies
    \<open>server_ok\<close>; the remaining faults are classified; the self test passes.
  \<^item> Runs of the broker (\<open>Broker_History\<close>): a run refines the fold of \<open>broker_step\<close> over its history, the
    commands received and the sessions expired; what the broker knows of a peer depends on the events of
    this peer alone; every delivery goes back to a publication and to a subscription of the receiver, and
    the history says how many copies each peer gets.
  \<^item> The client (\<open>Client_Spec\<close>, \<open>Client_Refine\<close>, \<open>Client_Claims\<close>): the callbacks implement the tables
    \<open>client_spec\<close> and \<open>call_spec\<close>; the invariant \<open>client_ok\<close> holds in every reachable state; the handshake
    succeeds; the faults of a running client are exactly those of \<open>owner_fault\<close> and the empty delivery;
    calls that block, abort or lose messages are shown.
  \<^item> The whole: publications and subscriptions from one application to another, whether or not the
    broker is verbose, and two failures that need both sides.  In the closed network (\<open>Closed_Network\<close>)
    applications pass strings that fit and have no percent sign, and connect first, to an endpoint that
    can be connected.  There no step is a fault of the broker or of an actor, with calls, messages and
    expiring timers in any order, and whatever an application is told was published by another one and
    asked for.  A call with such strings that comes too early, or a connection that cannot be made, aborts
    the actor.
  \<^item> The programs: the self test of the client passes; a shell prints what another one publishes; one
    message that has no event crashes the daemon.

  \<^bold>\<open>Loops.\<close>  The broker's \<open>s_client_execute\<close> calls itself through \<open>engine_send_event\<close>; the model bounds the
  depth of calls and turns by fuel.  Three units are enough: a publication takes one turn, each delivery
  is a nested call of one turn, and each turn is followed by a test of the loop.  \<open>message_terminates\<close>
  shows that a consistent state never exhausts them, and \<open>Server_Fuel\<close> that more fuel changes nothing.
  The client's loop is a total function with a measure (\<open>turns_left\<close>), and so are \<open>s_accept_reply\<close> and the
  loop of the shell, whose measure is what waits in the pipe.

  \<^bold>\<open>Not modelled.\<close>  Exhaustion of memory and destruction of objects that only frees memory; log
  output other than \<open>zccp_msg_print\<close>; the identifiers of sockets and the start-up signal of actors;
  the time that \<open>zsys_debug\<close> writes before a line; the waiting of an application for its reply in the
  closed network, where it may make further calls meanwhile (an application can wait for ever, as the
  claims on single calls show);
  \<open>s_satisfy_pedantic_compilers\<close>, which calls the internal functions with null pointers to silence
  warnings; \<open>zccp_client_actor\<close>.  Messages between the processes are neither lost nor delayed
  beyond the steps of the machine.  The XML models are the inputs of the code generators, and the Go and
  Java files are other programs.
\<close>

section \<open>Clients and broker together\<close>

lemma recv_content:
  assumes "actor_in self = \<lparr>rest_frames = [], queue = []\<rparr>" and "wf_cstr t"
  shows "\<exists>self'. zccp_client_recv E [Some (message_for sn a t)] self = Inr (Some t, self')"
proof -
  let ?self = "arrive [Some (message_for sn a t)] self"
  have "actor_in ?self = \<lparr>rest_frames = [], queue = Some [lit ''MESSAGE'', sn, a, t] # []\<rparr>"
    using assms(1) by (simp add: arrive_def message_for_def)
  from accept_message [OF this, of E "[lit ''MESSAGE'']"] show ?thesis
    by (simp add: zccp_client_recv_def load_reply_def zmsg_recv_def recv_string_def zmsg_popstr_def
        c_string_wf assms(2) Let_def)
qed

lemma demo_good: "good_broker ref_czmq demo"
  by (simp add: good_broker_def ref_lib.czmq_api_axioms demo_ok)

lemma ref_plain: "vprintf ref_czmq [66] = Some [66]" "vprintf ref_czmq [99, 112, 117] = Some [99, 112, 117]"
    "vprintf ref_czmq [100] = Some [100]"
  by (simp_all add: ref_czmq_def)

lemma one_char_fits: "x \<noteq> 0 \<Longrightarrow> sized_fits 1 [x]"
  by (simp add: sized_fits_def wf_cstr_def)

text \<open>The call \<open>c\<close> waiting in the pipe of a connected client.\<close>

definition calling :: "call \<Rightarrow> (cstr \<times> cstr) list s_client_t" where
  "calling c = (client_in connected_state)\<lparr>pipe_in := \<lparr>rest_frames = [], queue = [Some (call_frames c)]\<rparr>\<rparr>"

lemma calling_ok: "client_ok (calling c)" "state (calling c) = connected_state" "holds_call (calling c) c []"
    "sent (calling c) = []" "pipe_out (calling c) = []"
  by (simp_all add: calling_def holds_call_def)

text \<open>
  C2: publishing from end to end.  What an application publishes through a connected client reaches the
  broker, which forwards it to every other peer with a matching subscription; each delivery makes the
  client of that peer, when connected, hand the text to its application, where \<open>zccp_client_recv\<close>
  returns it.  The address passes \<open>zsys_vprintf\<close> twice, in the publishing client and in the broker.
\<close>

theorem publish_end_to_end:
  assumes "czmq_api Z" and "server_ok Z s"
    and "client_ok c" and "state c = connected_state"
    and "holds_call c (Publish_at a t) q" and "wf_cstr a" and "wf_cstr t"
    and "vprintf Z a = Some a1" and "sized_fits 1 a1"
    and "sessions (broker_of Z s) r = Some (Some ident)" and "vprintf Z ident = Some i" and "vprintf Z a1 = Some a2"
  shows "\<exists>c1 wire s' ws. s_client_handle_pipe Z E c = Inr (0, c1) \<and> sent c1 = sent c @ [wire]
    \<and> serve_broker Z (r # wire) s = Inr (s', ws) \<and> broker_of Z s' = broker_of Z s
    \<and> map hd ws = recipients Z (broker_of Z s) r a1
    \<and> (\<forall>m \<in> set ws. \<forall>d self. client_ok d \<longrightarrow> state d = connected_state \<longrightarrow>
        actor_in self = \<lparr>rest_frames = [], queue = []\<rparr> \<longrightarrow>
        (\<exists>d' self'. s_client_handle_protocol Z E (Some (tl m)) d = Inr (0, d') \<and> client_ok d'
          \<and> pipe_out d' = pipe_out d @ [message_for i a2 t]
          \<and> zccp_client_recv E [Some (message_for i a2 t)] self = Inr (Some t, self')))"
proof -
  have good: "good_broker Z s" using assms(1,2) by (simp add: good_broker_def)
  from net.publication_delivered [OF good assms(3-12), of E] recv_content [OF _ assms(7)]
  show ?thesis by (metis (no_types, lifting))
qed

theorem publish_end_to_end_witness:
  "\<exists>c1 wire s' ws. s_client_handle_pipe ref_czmq ref_cenv (calling (Publish_at [99, 112, 117] [57])) = Inr (0, c1)
    \<and> sent c1 = [wire] \<and> serve_broker ref_czmq ([2] # wire) demo = Inr (s', ws) \<and> map hd ws = [[1], [1]]"
proof -
  have "rex_matches ref_czmq = (\<lambda>e s. take (length e) s = e)" by (simp add: ref_czmq_def)
  then have "recipients ref_czmq (broker_of ref_czmq demo) [2] [99, 112, 117] = [[1], [1]]"
    by (simp add: recipients_def demo_broker)
  moreover have "sized_fits 1 [99, 112, 117]" "wf_cstr [99, 112, 117]" "wf_cstr [57]"
    by (simp_all add: sized_fits_def wf_cstr_def)
  ultimately show ?thesis
    using publish_end_to_end [OF ref_lib.czmq_api_axioms demo_ok calling_ok(1-3) _ _ ref_plain(2) _
        demo_broker(3) ref_plain(1,2), of "[57]" ref_cenv] calling_ok(4)
    by fastforce
qed

text \<open>
  C15: subscribing from end to end.  The call makes the client send SUBSCRIBE, the broker enters the peer
  under the expression and acknowledges, and the acknowledgement makes the client signal success.
\<close>

theorem subscribe_end_to_end:
  assumes "czmq_api Z" and "server_ok Z s"
    and "client_ok c" and "state c = connected_state" and "holds_call c (Subscribe_to x) q" and "wf_cstr x"
    and "vprintf Z x = Some e" and "sized_fits 1 e" and "sessions (broker_of Z s) r = Some (Some ident)"
  shows "\<exists>c1 wire s' ack c2. s_client_handle_pipe Z E c = Inr (0, c1) \<and> sent c1 = sent c @ [wire]
    \<and> serve_broker Z (r # wire) s = Inr (s', [r # ack])
    \<and> broker_of Z s' = (broker_of Z s)\<lparr>table := subscribe_table e r (table (broker_of Z s))\<rparr>
    \<and> s_client_handle_protocol Z E (Some ack) c1 = Inr (0, c2)
    \<and> state c2 = connected_state \<and> pipe_out c2 = pipe_out c @ [success]"
proof -
  have good: "good_broker Z s" using assms(1,2) by (simp add: good_broker_def)
  from net.subscription_made [OF good assms(3-9), of E] show ?thesis by blast
qed

theorem subscribe_end_to_end_witness:
  "\<exists>c1 wire s' ack. s_client_handle_pipe ref_czmq ref_cenv (calling (Subscribe_to [100])) = Inr (0, c1)
    \<and> serve_broker ref_czmq ([2] # wire) demo = Inr (s', [[2] # ack])
    \<and> table (broker_of ref_czmq s') = [([99], [[1]]), ([99, 112], [[1]]), ([100], [[2]])]"
  using subscribe_end_to_end [OF ref_lib.czmq_api_axioms demo_ok calling_ok(1-3) _ ref_plain(3) one_char_fits
      demo_broker(3), of ref_cenv]
  by (fastforce simp: demo_broker wf_cstr_def)

text \<open>
  C21: a client that the broker has expired loses its subscriptions without notice.  The answer to its
  next command is INVALID; it greets the broker again, under the empty identifier, and is connected,
  but the broker has it on no subscription list, it sends nothing else, and its owner is told nothing.
\<close>

theorem subscriptions_forgotten:
  assumes "czmq_api Z" and "server_ok Z s"
    and "client_ok c" and "state c = connected_state" and "stands_for Z (Inr body) cmd"
    and "\<exists>a hs ms. cmd = Publish a hs ms \<or> cmd = Subscribe a hs" and "sessions (broker_of Z s) r = None"
  shows "\<exists>s1 inv c1 hello s2 ok c2. serve_broker Z (r # body) s = Inr (s1, [r # inv])
    \<and> s_client_handle_protocol Z E (Some inv) c = Inr (0, c1) \<and> sent c1 = sent c @ [hello]
    \<and> serve_broker Z (r # hello) s1 = Inr (s2, [r # ok])
    \<and> s_client_handle_protocol Z E (Some ok) c1 = Inr (0, c2)
    \<and> state c2 = connected_state \<and> sent c2 = sent c1 \<and> pipe_out c2 = pipe_out c
    \<and> sessions (broker_of Z s2) r = Some (Some []) \<and> (\<forall>(e, rs) \<in> set (table (broker_of Z s2)). r \<notin> set rs)"
proof -
  have good: "good_broker Z s" using assms(1,2) by (simp add: good_broker_def)
  have "Server_Refine.command_event cmd \<noteq> terminate_event" "\<forall>i hs. cmd \<noteq> Hello i hs" "cmd \<noteq> Goodbye"
    using assms(6) by auto
  from net.session_renewed [OF good assms(3-5) this assms(7), of E] show ?thesis by blast
qed

lemma stranger: "sessions (broker_of ref_czmq demo) [3] = None"
proof -
  have "hex_name [3] = [48, 51]" by code_simp
  then show ?thesis by (simp add: broker_of_def sessions_of_def)
qed

lemma publish_draft:
  "stands_for ref_czmq (zccp_msg_encode_publish ref_czmq (Some [100]) None (Some ms)) (Publish [100] Map.empty ms)"
proof -
  have "zccp_msg_encode_publish ref_czmq (Some [100]) None (Some ms)
      = zccp_msg_encode ref_czmq ((zccp_msg_new ZCCP_MSG_PUBLISH)\<lparr>address := Some [100], content := Some ms\<rparr>)"
    by (simp add: zccp_msg_encode_publish_def zccp_msg_set_address_def format_string_def ref_plain(3)
        with_headers_def zccp_msg_set_headers_def zccp_msg_set_content_def zccp_msg_new_def)
  moreover have "stands_for ref_czmq \<dots> (Publish [100] Map.empty ms)"
    by (rule stands_for_encode [OF ref_lib.zhash_api_axioms])
      (simp_all add: msg_ok_def fields_fit_def command_of_def zccp_msg_new_def one_char_fits del: One_nat_def)
  ultimately show ?thesis by simp
qed

theorem subscriptions_forgotten_witness:
  "\<exists>body s1 inv. serve_broker ref_czmq ([3] # body) demo = Inr (s1, [[3] # inv])"
proof -
  obtain body where "stands_for ref_czmq (Inr body) (Publish [100] Map.empty [[57]])"
    using publish_draft [of "[[57]]"] by (auto simp: stands_for_def)
  from subscriptions_forgotten [OF ref_lib.czmq_api_axioms demo_ok client_in_ok _ this _ stranger, of connected_state ref_cenv]
  show ?thesis by auto
qed



section \<open>The closed network\<close>

text \<open>
  C3: a network of the broker and any number of these clients is safe, for calls whose strings fit
  and have no percent sign (\<open>plain_call\<close>).  The steps are such calls, made when their client is \<open>ready\<close>
  for them, that is, after a \<open>zccp_client_connect\<close> to an endpoint that can be connected; messages handled,
  timers of the broker expiring, clients created and destroyed, in any order.  No step is a fault of the
  broker or of the actor of a client: the broker keeps running, even when it is verbose, and broker and
  clients keep their invariants.  Being ready is exactly what a call needs: in every reachable state a
  plain call is taken if its client is ready, and otherwise it kills the actor by a failed assertion.
  The theorem is about broker and actors; an application that waits for its reply may wait for ever.
\<close>

theorem closed_network_safe:
  assumes "czmq_api Z" and "net_reachable Z E (H, D, w)"
  shows "running (hub w) \<and> server_ok Z (server (hub w)) \<and> (\<forall>r c. actors w r = Some c \<longrightarrow> client_ok c)
    \<and> (\<forall>res. net_step Z E (H, D, w) res \<longrightarrow> (\<exists>y. res = Inr y))
    \<and> (\<forall>r c cl. actors w r = Some c \<longrightarrow> plain_call cl \<longrightarrow>
        (case owner_sends Z E [] r [call_frames cl] w of
          Inr w' \<Rightarrow> ready E (state c) cl
        | Inl f \<Rightarrow> \<not> ready E (state c) cl \<and> f = Assertion_failed))"
proof -
  have closed: "closed_ok Z (H, D, w)" by (rule reachable_closed [OF assms])
  then obtain B ib where hub: "hub_ok Z H B ib (hub w)" and slots: "\<And>r. slot_ok B ib D r (actors w r)"
    by (auto simp: closed_ok_def)
  have "client_ok c" if "actors w r = Some c" for r c using slots [of r] that by (simp add: actor_ok_def)
  moreover have "\<exists>y. res = Inr y" if "net_step Z E (H, D, w) res" for res
    using step_keeps_closed [OF assms(1) closed that] by blast
  ultimately show ?thesis using hub call_taken_iff [OF assms(1) closed] by (auto simp: hub_ok_def rig_is_def)
qed

theorem closed_network_safe_witness:
  "\<exists>w w' c. net_reachable ref_czmq ref_cenv ({}, {}, w :: ((cstr \<times> cstr) list, cstr, unit) world)
    \<and> actors w [1] = Some c \<and> client_ok c
    \<and> owner_sends ref_czmq ref_cenv [] [1] [call_frames (Connect (lit ''ipc://@/zccp'') 250)] w = Inr w'
    \<and> owner_sends ref_czmq ref_cenv [] [1] [call_frames (Subscribe_to [99])] w = Inl Assertion_failed"
proof -
  let ?ep = "lit ''ipc://@/zccp''"
  have bind: "zs_bind ref_env [] ?ep \<noteq> -1" and conn: "zs_connect ref_cenv (Some ?ep) = 0"
    by (simp_all add: ref_env_def ref_cenv_def)
  obtain rig where rig: "start_test_broker ref_czmq ref_env (lit ''zccpd'') 7 3 True ?ep = Inr rig"
    using broker_started [OF ref_lib.czmq_api_axioms wf_lits(4) bind, of _ 7 3 True] by (auto simp: ends_in_def)
  let ?w0 = "\<lparr>hub = rig, actors = Map.empty, unread = (\<lambda>_. [])\<rparr>"
  have r0: "net_reachable ref_czmq ref_cenv ({}, {}, ?w0)" by (rule net_reachable.init [OF rig wf_lits(4) bind])
  obtain c where c: "zccp_client_start no_input = Inr (c :: (cstr \<times> cstr) list s_client_t)"
    by (simp add: zccp_client_start_def engine_handle_socket_def)
  let ?w1 = "?w0\<lparr>actors := Map.empty([1] \<mapsto> c)\<rparr>"
  have "net_step ref_czmq ref_cenv ({}, {}, ?w0) (rbind (call_new [1] ?w0) (\<lambda>(self, w). Inr ({}, {}, w)))"
    by (rule net_step.create) simp_all
  then have r1: "net_reachable ref_czmq ref_cenv ({}, {}, ?w1)"
    by (intro net_reachable.reach [OF r0]) (simp add: call_new_def c)
  have act: "actors ?w1 [1] = Some c" by simp
  note safe = closed_network_safe [OF ref_lib.czmq_api_axioms r1]
  have calls: "case owner_sends ref_czmq ref_cenv [] [1] [call_frames cl] ?w1 of
      Inr w' \<Rightarrow> ready ref_cenv (state c) cl
    | Inl f \<Rightarrow> \<not> ready ref_cenv (state c) cl \<and> f = Assertion_failed" if "plain_call cl" for cl
    using safe act that by blast
  obtain w' where "owner_sends ref_czmq ref_cenv [] [1] [call_frames (Connect ?ep 250)] ?w1 = Inr w'"
    using calls [of "Connect ?ep 250"] conn wf_lits(4) by (cases "owner_sends ref_czmq ref_cenv [] [1] [call_frames (Connect ?ep 250)] ?w1") auto
  moreover have "owner_sends ref_czmq ref_cenv [] [1] [call_frames (Subscribe_to [99])] ?w1 = Inl Assertion_failed"
    using calls [of "Subscribe_to [99]"] client_start_ok(7) [OF c]
    by (cases "owner_sends ref_czmq ref_cenv [] [1] [call_frames (Subscribe_to [99])] ?w1") (auto simp: wf_cstr_def sized_fits_def)
  moreover have "client_ok c" using safe act by blast
  ultimately show ?thesis using r1 act by blast
qed

text \<open>
  C4: in this network applications are told nothing but what was published for them.  Whenever a message
  waits for an application, some other application has called
  \<open>zccp_client_publish\<close> with exactly its address and text, the receiving application has called
  \<open>zccp_client_subscribe\<close> with an expression that matches the address, and the sender in the message is
  empty.
\<close>

theorem closed_network_honest:
  assumes "czmq_api Z" and "net_reachable Z E (H, D, w)" and "message_for sn a t \<in> set (unread w r)"
  shows "sn = [] \<and> (\<exists>p e. p \<noteq> r \<and> (p, Publish_at a t) \<in> H \<and> (r, Subscribe_to e) \<in> H
    \<and> rex_matches Z (rex_new Z e) a)"
proof -
  have "closed_ok Z (H, D, w)" by (rule reachable_closed [OF assms(1,2)])
  then have "told Z H r (message_for sn a t)" using assms(3) by (auto simp: closed_ok_def)
  moreover have "message_for sn a t \<noteq> success" by (simp add: message_for_def success_def lit_eq_iff)
  ultimately show ?thesis by (auto simp: told_def granted_def message_for_def)
qed

theorem closed_network_honest_witness:
  "\<exists>H (w :: ((cstr \<times> cstr) list, cstr, unit) world) p e. net_reachable ref_czmq ref_cenv (H, {}, w)
    \<and> message_for [] [99, 112] [57] \<in> set (unread w [1])
    \<and> (p, Publish_at [99, 112] [57]) \<in> H \<and> ([1], Subscribe_to e) \<in> H \<and> take (length e) [99, 112] = e"
proof -
  let ?ep = "lit ''ipc://@/zccp''"
  have bind: "zs_bind ref_env [] ?ep \<noteq> -1" and conn: "zs_connect ref_cenv (Some ?ep) = 0"
    by (simp_all add: ref_env_def ref_cenv_def)
  have rex: "rex_matches ref_czmq = (\<lambda>e x. take (length e) x = e)" by (simp add: ref_czmq_def)
  obtain rig where rig: "start_test_broker ref_czmq ref_env (lit ''zccpd'') 7 3 True ?ep = Inr rig"
    using broker_started [OF ref_lib.czmq_api_axioms wf_lits(4) bind, of _ 7 3 True] by (auto simp: ends_in_def)
  obtain H and w :: "((cstr \<times> cstr) list, cstr, unit) world" where
    w: "net_reachable ref_czmq ref_cenv (H, {}, w)" "message_for [] [99, 112] [57] \<in> set (unread w [1])"
    using delivery_reachable [OF ref_lib.czmq_api_axioms _ rig wf_lits(4) bind conn, of "[1]" "[2]" "[99]" "[99, 112]" "[57]"]
    by (auto simp: rex sized_fits_def wf_cstr_def)
  from closed_network_honest [OF ref_lib.czmq_api_axioms this] obtain p e where
    "(p, Publish_at [99, 112] [57]) \<in> H" "([1], Subscribe_to e) \<in> H" "take (length e) [99, 112] = e"
    by (auto simp: rex)
  with w show ?thesis by blast
qed

section \<open>The programs\<close>

text \<open>The library of the witnesses finds what the pattern of the client's self test describes.\<close>

lemma search_finds_cpu:
  "rex_matches search_czmq (rex_new search_czmq cpu_pattern) (lit ''cpu.1'')"
  "rex_matches search_czmq (rex_new search_czmq cpu_pattern) (lit ''cpu.2'')"
  by (simp_all add: search_czmq_def ref_czmq_def lit_simps)

text \<open>
  C34: the self test of the client passes, quiet or verbose, where its endpoint can be bound and connected
  and the library finds its pattern in the first two addresses: both clients connect, the subscription
  is acknowledged, the reader receives \<open>95\<close> and then \<open>12\<close>, and clients and broker shut down.  The third
  publication is left unread, whether or not the pattern matches its address.
\<close>

theorem client_selftest_passes:
  assumes "czmq_api Z" and "rd \<noteq> wr"
    and "zs_bind SE [] (lit ''ipc://@/zccp'') \<noteq> -1" and "zs_connect E (Some (lit ''ipc://@/zccp'')) = 0"
    and "rex_matches Z (rex_new Z cpu_pattern) (lit ''cpu.1'')" and "rex_matches Z (rex_new Z cpu_pattern) (lit ''cpu.2'')"
    and "\<And>K. finite K \<Longrightarrow> set (order K) = K"
  shows "zccp_client_test Z SE E random order rd wr verb
    = Inr ([lit '' * zccp_client: ''] @ (if verb then [[]] else []) @ [lit ''95'', lit ''12'', lit ''OK''])"
  using assms by (rule client_test_run)

theorem client_selftest_passes_witness:
  "zccp_client_test search_czmq ref_env ref_cenv 7 sorted_list_of_set [1] [2] False
    = Inr [lit '' * zccp_client: '', lit ''95'', lit ''12'', lit ''OK'']"
  using client_selftest_passes [OF search_laws _ _ _ search_finds_cpu, of "[1]" "[2]" ref_env ref_cenv sorted_list_of_set 7 False]
  by (simp add: ref_env_def ref_cenv_def)

text \<open>
  C35: two shells and the daemon.  After \<open>zccpd\<close> has started, \<open>zccp_sh p\<close> subscribes and waits;
  \<open>zccp_sh a t\<close> runs to its end; and the first shell has printed, when it is interrupted, one line with
  the text and the address if the pattern \<open>p\<close> is found in \<open>a\<close>, and nothing otherwise.  The sender in
  the line is empty.
\<close>

theorem shells_talk:
  assumes "czmq_api Z" and "rd \<noteq> wr"
    and "zs_bind SE [] (lit ''ipc://@/zccp'') \<noteq> -1" and "zs_connect E (Some (lit ''ipc://@/zccp'')) = 0"
    and "percent \<notin> set p" and "wf_cstr p" and "sized_fits 1 p"
    and "percent \<notin> set a" and "wf_cstr a" and "sized_fits 1 a" and "wf_cstr t"
  shows "\<exists>rig client w1 w2 w3. zccpd Z SE random 3 order [] = Inr (True, server rig)
    \<and> start_test_broker Z SE (lit ''zccpd'') random 3 True (lit ''ipc://@/zccp'') = Inr rig
    \<and> zccp_sh_start Z E [rd] rd [prog, p] \<lparr>hub = rig, actors = Map.empty, unread = (\<lambda>_. [])\<rparr>
      = Inr ([lit ''ARGS:'' @ decimal 2], Some client, w1)
    \<and> zccp_sh Z E [rd, wr] wr [prog, a, t] [] w1 = Inr ([lit ''ARGS:'' @ decimal 3], w2)
    \<and> zccp_sh_show Z E [rd] rd client [None] w2
      = Inr (if rex_matches Z (rex_new Z p) a
             then [lit ''Content='' @ t @ lit '' sender='' @ [] @ lit '' address='' @ a] else [], w3)"
proof -
  obtain rig where rig: "start_test_broker Z SE (lit ''zccpd'') random 3 True (lit ''ipc://@/zccp'') = Inr rig"
      "zccpd Z SE random 3 order [] = Inr (True, server rig)"
      "rig_is Z \<lparr>sessions = Map.empty, table = []\<rparr> (\<lambda>_. []) rig"
    using daemon_starts [OF assms(1,3)] by blast
  obtain client w1 where w1: "zccp_sh_start Z E [rd] rd [prog, p] \<lparr>hub = rig, actors = Map.empty, unread = (\<lambda>_. [])\<rparr>
        = Inr ([lit ''ARGS:'' @ decimal 2], Some client, w1)" "actor_in client = no_input"
      "world_is Z \<lparr>sessions = [rd \<mapsto> Some []], table = [(p, [rd])]\<rparr> (\<lambda>_. []) [rd \<mapsto> connected_state] (left rd []) w1"
    using shell_subscribes [OF assms(1) rig(3) assms(4-7)] by blast
  let ?ds = "if rex_matches Z (rex_new Z p) a then [([], a, t)] else []"
  obtain w2 where w2: "zccp_sh Z E [rd, wr] wr [prog, a, t] [] w1 = Inr ([lit ''ARGS:'' @ decimal 3], w2)"
      "world_is Z (joined rd wr p) (\<lambda>_. []) [rd \<mapsto> connected_state] (left rd (map (\<lambda>(sn, a, t). message_for sn a t) ?ds)) w2"
    using shell_publishes [OF assms(1,2,4) w1(3) assms(8-11), of prog] by (auto split: if_splits)
  have "wf_cstr []" by (simp add: wf_cstr_def)
  then obtain w3 where "zccp_sh_show Z E [rd] rd client [None] w2 = Inr (map shown ?ds, w3)"
    using shell_shows [OF w2(2) _ w1(2), of connected_state E "[rd]"] assms(9,11) by auto
  then show ?thesis using rig(1,2) w1(1) w2(1) by (auto simp: shown_def)
qed

theorem shells_talk_witness:
  "\<exists>rig client w1 w2 w3. start_test_broker search_czmq ref_env (lit ''zccpd'') 7 3 True (lit ''ipc://@/zccp'') = Inr rig
    \<and> zccp_sh_start search_czmq ref_cenv [[1]] [1] [[], cpu_pattern] \<lparr>hub = rig, actors = Map.empty, unread = (\<lambda>_. [])\<rparr>
      = Inr ([lit ''ARGS:'' @ decimal 2], Some client, w1)
    \<and> zccp_sh search_czmq ref_cenv [[1], [2]] [2] [[], lit ''cpu.1'', lit ''95''] [] w1
      = Inr ([lit ''ARGS:'' @ decimal 3], w2)
    \<and> zccp_sh_show search_czmq ref_cenv [[1]] [1] client [None] w2 = Inr ([lit ''Content=95 sender= address=cpu.1''], w3)"
proof -
  have "lit ''Content='' @ lit ''95'' @ lit '' sender='' @ [] @ lit '' address='' @ lit ''cpu.1''
      = lit ''Content=95 sender= address=cpu.1''"
    by (simp add: lit_simps)
  moreover have "zs_bind ref_env [] (lit ''ipc://@/zccp'') \<noteq> -1" "zs_connect ref_cenv (Some (lit ''ipc://@/zccp'')) = 0"
    by (simp_all add: ref_env_def ref_cenv_def)
  ultimately show ?thesis
    using shells_talk [OF search_laws _ _ _ test_texts(2-4), of "[1]" "[2]" ref_env ref_cenv "lit ''cpu.1''" "lit ''95''"
        7 sorted_list_of_set "[]"] test_texts(1) search_finds_cpu(1)
    by simp blast
qed

text \<open>
  C36: the daemon is always verbose, so that the first decodable message of any peer that only servers
  send, or a PING, makes it read its table of event names out of bounds.
\<close>

theorem daemon_overrun:
  assumes "czmq_api Z" and "3 \<le> n"
    and "zccp_msg_recv (hash Z) True input = Some msg"
    and "msg_id msg \<notin> {ZCCP_MSG_HELLO, ZCCP_MSG_SUBSCRIBE, ZCCP_MSG_PUBLISH, ZCCP_MSG_DIRECT, ZCCP_MSG_GOODBYE}"
  shows "zccpd Z SE random n order (Router_ready input # es) = Inl Name_table_overrun"
proof -
  obtain s where s: "zccp_server_start Z SE (Some (lit ''zccpd'')) random = Inr s" using server_starts [OF assms(1)] by blast
  let ?s = "snd (bind_router SE (lit ''ipc://@/zccp'') (s\<lparr>s_server_t.verbose := True\<rparr>))\<lparr>port := zs_bind SE [] (lit ''ipc://@/zccp'')\<rparr>"
  have fresh: "endpoints s = []" by (rule start_ok(4) [OF assms(1) s])
  have "same_clients s ?s" by (simp add: same_clients_def bind_router_def)
  then have "server_ok Z ?s" using same_clients_ok(1) start_ok(1) [OF assms(1) s] by blast
  moreover have "s_server_t.verbose ?s" by (simp add: bind_router_def)
  ultimately have "s_server_client_message Z n input ?s = Inl Name_table_overrun"
    by (rule verbose_overrun [OF assms(1) _ assms(2) _ assms(3,4)])
  moreover have "srv_readers s = main_readers"
    using start_ok(1) [OF assms(1) s] by (simp add: server_ok_def steady_def)
  ultimately show ?thesis
    by (simp add: zccpd_def zccp_server_def s Server_Reactor.handle_event_def verbose_command bind_command [OF wf_lits(4)]
        bind_router_def Let_def fresh)
qed

theorem daemon_overrun_witness:
  "zccpd ref_czmq ref_env 7 3 sorted_list_of_set [Router_ready (ping_ok_from 1)] = Inl Name_table_overrun"
  by (rule daemon_overrun [OF ref_lib.czmq_api_axioms order.refl ping_ok_recv])
    (simp add: ping_ok_received_def zccp_msg_new_def)

end
